(* ===== verification/Prelude.thy ===== *)
theory Prelude
  imports Main "HOL-Library.AList" "HOL-Library.Monad_Syntax"
begin

text \<open>
  What every component shares: the errors a Python operation can raise, the result type
  that carries them, insertion-ordered dictionaries (association lists updated in place,
  as CPython keeps a \<open>dict\<close>), and the lemma collections.
\<close>

named_theorems py_eval \<open>rules by which the simplifier evaluates the model on closed terms\<close>

text \<open>
  The exceptions the modelled code raises and distinguishes in an \<open>except\<close> clause.
\<close>

datatype exn =
    ValueError
  | TypeError
  | IndexError
  | KeyError
  | OSError
  | RuntimeError
  | OverflowError
  | OtherError

type_synonym 'a result = "exn + 'a"

fun rbind :: "'a result \<Rightarrow> ('a \<Rightarrow> 'b result) \<Rightarrow> 'b result" where
  "rbind (Inl e) f = Inl e"
| "rbind (Inr x) f = f x"

lemma rbind_Inr_iff [simp]:
  "rbind r f = Inr y \<longleftrightarrow> (\<exists>x. r = Inr x \<and> f x = Inr y)"
  by (cases r) auto

lemma rbind_Inl_iff [simp]:
  "rbind r f = Inl e \<longleftrightarrow> r = Inl e \<or> (\<exists>x. r = Inr x \<and> f x = Inl e)"
  by (cases r) auto

fun ofold :: "('a \<Rightarrow> 'b \<Rightarrow> 'b option) \<Rightarrow> 'a list \<Rightarrow> 'b \<Rightarrow> 'b option" where
  \<comment> \<open>a \<open>for\<close> loop whose body may raise\<close>
  "ofold f [] s = Some s"
| "ofold f (x # xs) s = (case f x s of None \<Rightarrow> None | Some s' \<Rightarrow> ofold f xs s')"

subsection \<open>Dictionaries\<close>

text \<open>
  \<open>AList.update\<close> overwrites an existing key where it stands and appends a new one at the
  end, which is what assigning to a key of a Python \<open>dict\<close> does to its iteration order.
\<close>

type_synonym ('k, 'v) pydict = "('k \<times> 'v) list"

definition dict_of_pairs :: "('k \<times> 'v) list \<Rightarrow> ('k, 'v) pydict" where
  \<comment> \<open>a display or \<open>dict(pairs)\<close>: later pairs overwrite earlier ones\<close>
  "dict_of_pairs ps = fold (\<lambda>(k, v) d. AList.update k v d) ps []"

lemma distinct_keys_fold_update:
  "distinct (map fst d) \<Longrightarrow>
   distinct (map fst (fold (\<lambda>(k, v) d. AList.update k v d) ps d))"
  by (induction ps arbitrary: d) (auto simp: distinct_update)

lemma distinct_keys_dict_of_pairs [simp]: "distinct (map fst (dict_of_pairs ps))"
  by (simp add: dict_of_pairs_def distinct_keys_fold_update)

lemma map_of_filter_distinct:
  "distinct (map fst d) \<Longrightarrow>
   map_of (filter (\<lambda>(k, v). P v) d) k =
     (case map_of d k of None \<Rightarrow> None | Some v \<Rightarrow> if P v then Some v else None)"
proof (induction d)
  case Nil
  then show ?case by simp
next
  case (Cons p d)
  obtain k' v' where [simp]: "p = (k', v')" by (cases p)
  have "map_of d k' = None" using Cons.prems by (simp add: map_of_eq_None_iff)
  with Cons show ?case by (auto split: option.splits)
qed

lemma distinct_map_fst_filter: "distinct (map fst d) \<Longrightarrow> distinct (map fst (filter P d))"
  by (induction d) auto

end
