(* ===== verification/PyStr.thy ===== *)
theory PyStr
  imports Prelude
begin

text \<open>
  The methods of Python's \<open>str\<close> that the modelled code calls. A string is a
  \<^typ>\<open>string\<close>, one \<^typ>\<open>char\<close> per code point below 256 (Latin-1); within that range the
  character classes are Python's (\<open>isdigit\<close> accepts the superscripts, \<open>strip\<close> removes
  the separators 0x1c-0x1f, 0x85 and 0xa0). Code points above 255 are outside the model.
  An operation that raises returns an option or a \<^typ>\<open>'a result\<close>.
\<close>

subsection \<open>Character classes\<close>

definition code :: "char \<Rightarrow> int" where
  "code c = of_char c"

definition is_decimal :: "char \<Rightarrow> bool" where
  "is_decimal c \<longleftrightarrow> c \<in> set ''0123456789''"

definition is_digit :: "char \<Rightarrow> bool" where
  \<comment> \<open>\<open>str.isdigit\<close> on one character: decimals and the superscripts one, two, three\<close>
  "is_digit c \<longleftrightarrow> is_decimal c \<or> code c \<in> {178, 179, 185}"

definition is_space :: "char \<Rightarrow> bool" where
  "is_space c \<longleftrightarrow> (9 \<le> code c \<and> code c \<le> 13) \<or> (28 \<le> code c \<and> code c \<le> 32)
     \<or> code c = 133 \<or> code c = 160"

definition lower_char :: "char \<Rightarrow> char" where
  "lower_char c =
     (if (65 \<le> code c \<and> code c \<le> 90) \<or> (192 \<le> code c \<and> code c \<le> 222 \<and> code c \<noteq> 215)
      then char_of (code c + 32) else c)"

definition py_lower :: "string \<Rightarrow> string" where
  "py_lower s = map lower_char s"

definition py_isdigit :: "string \<Rightarrow> bool" where
  "py_isdigit s \<longleftrightarrow> s \<noteq> [] \<and> list_all is_digit s"

subsection \<open>Stripping\<close>

definition lstrip_by :: "('a \<Rightarrow> bool) \<Rightarrow> 'a list \<Rightarrow> 'a list" where
  "lstrip_by P s = dropWhile P s"

definition rstrip_by :: "('a \<Rightarrow> bool) \<Rightarrow> 'a list \<Rightarrow> 'a list" where
  "rstrip_by P s = rev (dropWhile P (rev s))"

definition strip_by :: "('a \<Rightarrow> bool) \<Rightarrow> 'a list \<Rightarrow> 'a list" where
  "strip_by P s = rstrip_by P (lstrip_by P s)"

definition py_strip :: "string \<Rightarrow> string" where
  "py_strip s = strip_by is_space s"

definition lstrip_chars :: "string \<Rightarrow> string \<Rightarrow> string" where
  "lstrip_chars s cs = lstrip_by (\<lambda>c. c \<in> set cs) s"

definition rstrip_chars :: "string \<Rightarrow> string \<Rightarrow> string" where
  "rstrip_chars s cs = rstrip_by (\<lambda>c. c \<in> set cs) s"

definition strip_chars :: "string \<Rightarrow> string \<Rightarrow> string" where
  "strip_chars s cs = strip_by (\<lambda>c. c \<in> set cs) s"

subsection \<open>Prefixes, suffixes, searching\<close>

fun startswith :: "string \<Rightarrow> string \<Rightarrow> bool" where
  "startswith s [] = True"
| "startswith [] (p # ps) = False"
| "startswith (c # cs) (p # ps) = (c = p \<and> startswith cs ps)"

definition endswith :: "string \<Rightarrow> string \<Rightarrow> bool" where
  "endswith s p = startswith (rev s) (rev p)"

text \<open>
  \<open>cut_at sep s\<close> splits \<open>s\<close> at the first occurrence of \<open>sep\<close>; it is the search under
  \<open>in\<close>, \<open>find\<close>, \<open>index\<close> and \<open>split(sep, 1)\<close>.
\<close>

fun cut_at :: "string \<Rightarrow> string \<Rightarrow> (string \<times> string) option" where
  "cut_at sep [] = (if sep = [] then Some ([], []) else None)"
| "cut_at sep (c # cs) =
     (if startswith (c # cs) sep then Some ([], drop (length sep) (c # cs))
      else (case cut_at sep cs of None \<Rightarrow> None | Some (a, b) \<Rightarrow> Some (c # a, b)))"

definition str_in :: "string \<Rightarrow> string \<Rightarrow> bool" where
  "str_in sub s \<longleftrightarrow> cut_at sub s \<noteq> None"

definition py_find :: "string \<Rightarrow> string \<Rightarrow> nat option" where
  \<comment> \<open>\<open>None\<close> is the \<open>-1\<close> of \<open>find\<close> and the \<open>ValueError\<close> of \<open>index\<close>\<close>
  "py_find s sub = (case cut_at sub s of None \<Rightarrow> None | Some (a, b) \<Rightarrow> Some (length a))"

lemma startswith_iff: "startswith s p \<longleftrightarrow> (\<exists>t. s = p @ t)"
  by (induction s p rule: startswith.induct) auto

lemma startswith_append [simp]: "startswith (p @ t) p"
  by (auto simp: startswith_iff)

lemma endswith_iff: "endswith s p \<longleftrightarrow> (\<exists>t. s = t @ p)"
proof -
  have "endswith s p \<longleftrightarrow> (\<exists>t. rev s = rev p @ t)"
    by (simp add: endswith_def startswith_iff)
  also have "\<dots> \<longleftrightarrow> (\<exists>t. s = t @ p)"
    by (metis rev_append rev_rev_ident)
  finally show ?thesis .
qed

lemma endswith_append [simp]: "endswith (t @ p) p"
  by (auto simp: endswith_iff)

lemma cut_at_Some: "cut_at sep s = Some (a, b) \<Longrightarrow> s = a @ sep @ b"
proof (induction sep s arbitrary: a rule: cut_at.induct)
  case (1 sep)
  then show ?case by (auto split: if_splits)
next
  case (2 sep c cs)
  show ?case
  proof (cases "startswith (c # cs) sep")
    case True
    with "2.prems" have "a = []" and "b = drop (length sep) (c # cs)" by auto
    moreover from True obtain t where "c # cs = sep @ t" by (auto simp: startswith_iff)
    ultimately show ?thesis by simp
  next
    case False
    with 2 show ?thesis by (auto split: option.splits)
  qed
qed

lemma cut_at_length: "cut_at sep s = Some (a, b) \<Longrightarrow> length s = length a + length sep + length b"
  by (drule cut_at_Some) simp

lemma cut_at_append: "\<exists>x y. cut_at sep (a @ sep @ b) = Some (x, y)"
proof (induction a)
  case Nil
  have "startswith (sep @ b) sep" by simp
  then show ?case by (cases "sep @ b") (simp_all del: startswith_append)
next
  case (Cons c a)
  then show ?case by (auto split: option.splits)
qed

lemma str_in_iff: "str_in sub s \<longleftrightarrow> (\<exists>a b. s = a @ sub @ b)"
proof
  assume "str_in sub s"
  then show "\<exists>a b. s = a @ sub @ b"
    by (auto simp: str_in_def dest: cut_at_Some)
next
  assume "\<exists>a b. s = a @ sub @ b"
  then show "str_in sub s"
    unfolding str_in_def using cut_at_append by fastforce
qed

subsection \<open>Splitting and joining\<close>

function (sequential) split_str :: "string \<Rightarrow> string \<Rightarrow> string list" where
  \<comment> \<open>\<open>s.split(sep)\<close> for the non-empty literals the code passes\<close>
  "split_str s sep =
     (if sep = [] then [s]
      else case cut_at sep s of None \<Rightarrow> [s] | Some (a, b) \<Rightarrow> a # split_str b sep)"
  by pat_completeness auto
termination
  by (relation "measure (\<lambda>(s, sep). length s)") (auto dest: cut_at_length)

declare split_str.simps [simp del]

definition split_once :: "string \<Rightarrow> string \<Rightarrow> string list" where
  \<comment> \<open>\<open>s.split(sep, 1)\<close>\<close>
  "split_once s sep = (case cut_at sep s of None \<Rightarrow> [s] | Some (a, b) \<Rightarrow> [a, b])"

fun words_acc :: "string \<Rightarrow> string \<Rightarrow> string list" where
  "words_acc [] w = (if w = [] then [] else [rev w])"
| "words_acc (c # cs) w =
     (if is_space c then (if w = [] then words_acc cs [] else rev w # words_acc cs [])
      else words_acc cs (c # w))"

definition split_ws :: "string \<Rightarrow> string list" where
  \<comment> \<open>\<open>s.split()\<close>\<close>
  "split_ws s = words_acc s []"

definition is_linebreak :: "char \<Rightarrow> bool" where
  "is_linebreak c \<longleftrightarrow> (10 \<le> code c \<and> code c \<le> 13) \<or> (28 \<le> code c \<and> code c \<le> 30)
     \<or> code c = 133"

fun lines_acc :: "string \<Rightarrow> string \<Rightarrow> string list" where
  "lines_acc [] w = (if w = [] then [] else [rev w])"
| "lines_acc (c # cs) w =
     (if is_linebreak c
      then rev w # (if code c = 13 \<and> cs \<noteq> [] \<and> code (hd cs) = 10
                    then lines_acc (tl cs) [] else lines_acc cs [])
      else lines_acc cs (c # w))"

definition splitlines :: "string \<Rightarrow> string list" where
  "splitlines s = lines_acc s []"

fun py_join :: "string \<Rightarrow> string list \<Rightarrow> string" where
  "py_join sep [] = []"
| "py_join sep [x] = x"
| "py_join sep (x # xs) = x @ sep @ py_join sep xs"

lemma split_str_nonempty [simp]: "split_str s sep \<noteq> []"
  by (subst split_str.simps) (auto split: option.splits)

lemma join_split_str: "py_join sep (split_str s sep) = s"
proof (induction s sep rule: split_str.induct)
  case (1 s sep)
  show ?case
  proof (cases "sep = []")
    case True
    then show ?thesis by (simp add: split_str.simps)
  next
    case False
    show ?thesis
    proof (cases "cut_at sep s")
      case None
      with False show ?thesis by (simp add: split_str.simps)
    next
      case (Some ab)
      obtain a b where ab: "ab = (a, b)" by (cases ab)
      have IH: "py_join sep (split_str b sep) = b"
        using 1 False Some ab by blast
      obtain w ws where ws: "split_str b sep = w # ws"
        using split_str_nonempty by (metis list.exhaust)
      have "split_str s sep = a # w # ws"
        using False Some ab ws by (simp add: split_str.simps)
      with IH ws Some ab show ?thesis by (auto dest: cut_at_Some)
    qed
  qed
qed

lemma cut_at_fresh: "hd sep \<notin> set a \<Longrightarrow> sep \<noteq> [] \<Longrightarrow> cut_at sep (a @ sep @ b) = Some (a, b)"
proof (induction a)
  case Nil
  then show ?case by (cases sep) auto
next
  case (Cons c a)
  then have "\<not> startswith (c # a @ sep @ b) sep" by (cases sep) auto
  with Cons show ?case by simp
qed

lemma cut_at_absent: "hd sep \<notin> set s \<Longrightarrow> sep \<noteq> [] \<Longrightarrow> cut_at sep s = None"
proof (induction s)
  case Nil
  then show ?case by simp
next
  case (Cons c s)
  then have "\<not> startswith (c # s) sep" by (cases sep) auto
  with Cons show ?case by simp
qed

lemma split_str_two:
  "hd sep \<notin> set a \<Longrightarrow> hd sep \<notin> set b \<Longrightarrow> sep \<noteq> [] \<Longrightarrow> split_str (a @ sep @ b) sep = [a, b]"
  using cut_at_fresh [of sep a b] cut_at_absent [of sep b]
  by (simp add: split_str.simps [of "a @ sep @ b"] split_str.simps [of b])

subsection \<open>Element access that can raise\<close>

definition nth_opt :: "'a list \<Rightarrow> nat \<Rightarrow> 'a option" where
  \<comment> \<open>\<open>xs[i]\<close> for a literal index; \<open>None\<close> is \<open>IndexError\<close>\<close>
  "nth_opt xs i = (if i < length xs then Some (xs ! i) else None)"

lemma nth_opt_simps [simp]:
  "nth_opt [] i = None"
  "nth_opt (x # xs) 0 = Some x"
  "nth_opt (x # xs) (Suc i) = nth_opt xs i"
  by (auto simp: nth_opt_def)

lemma nth_opt_1 [simp]: "nth_opt (x # xs) 1 = nth_opt xs 0"
  using nth_opt_simps(3) [of x xs 0] by simp

lemma nth_opt_numeral [simp]:
  "nth_opt (x # xs) (numeral n) = nth_opt xs (pred_numeral n)"
  by (simp add: numeral_eq_Suc)

definition last_opt :: "'a list \<Rightarrow> 'a option" where
  "last_opt xs = (if xs = [] then None else Some (last xs))"

subsection \<open>Numbers as text\<close>

definition digit_val :: "char \<Rightarrow> int" where
  "digit_val c = code c - 48"

definition digits_val :: "string \<Rightarrow> int" where
  "digits_val s = foldl (\<lambda>n c. n * 10 + digit_val c) 0 s"

definition digit_char :: "int \<Rightarrow> char" where
  "digit_char n = ''0123456789'' ! nat n"

function show_nat :: "int \<Rightarrow> string" where
  "show_nat n = (if n < 10 then [digit_char n] else show_nat (n div 10) @ [digit_char (n mod 10)])"
  by pat_completeness auto
termination
  by (relation "measure nat") auto

declare show_nat.simps [simp del]

lemma show_nat_eval [py_eval]:
  "show_nat 0 = [digit_char 0]"
  "show_nat 1 = [digit_char 1]"
  "show_nat (numeral k) =
     (if (numeral k :: int) < 10 then [digit_char (numeral k)]
      else show_nat (numeral k div 10) @ [digit_char (numeral k mod 10)])"
  by (simp_all add: show_nat.simps [of 0] show_nat.simps [of 1] show_nat.simps [of "numeral k"])

definition show_int :: "int \<Rightarrow> string" where
  \<comment> \<open>\<open>str(n)\<close>\<close>
  "show_int n = (if n < 0 then CHR ''-'' # show_nat (- n) else show_nat n)"

text \<open>
  \<open>int(s)\<close>: surrounding white space, a sign, decimal digits with single underscores
  between them; everything else is a \<open>ValueError\<close> (\<open>None\<close>).
\<close>

fun strip_underscores :: "(char \<Rightarrow> bool) \<Rightarrow> string \<Rightarrow> string option" where
  \<comment> \<open>the digits of a non-empty literal, or \<open>None\<close> when it is not one\<close>
  "strip_underscores D [] = None"
| "strip_underscores D [c] = (if D c then Some [c] else None)"
| "strip_underscores D (c # d # cs) =
     (if \<not> D c then None
      else if d = CHR ''_'' then map_option (\<lambda>r. c # r) (strip_underscores D cs)
      else map_option (\<lambda>r. c # r) (strip_underscores D (d # cs)))"

definition split_sign :: "string \<Rightarrow> int \<times> string" where
  "split_sign s = (case s of
     [] \<Rightarrow> (1, [])
   | c # cs \<Rightarrow> if c = CHR ''-'' then (-1, cs) else if c = CHR ''+'' then (1, cs) else (1, s))"

definition py_int :: "string \<Rightarrow> int option" where
  "py_int s =
     (let (sg, ds) = split_sign (py_strip s)
      in map_option (\<lambda>d. sg * digits_val d) (strip_underscores is_decimal ds))"

definition hex_val :: "char \<Rightarrow> int" where
  "hex_val c = (if is_decimal c then code c - 48 else code (lower_char c) - 87)"

definition is_hex :: "char \<Rightarrow> bool" where
  "is_hex c \<longleftrightarrow> lower_char c \<in> set ''0123456789abcdef''"

definition py_int16 :: "string \<Rightarrow> int option" where
  \<comment> \<open>\<open>int(s, 16)\<close>, with its optional \<open>0x\<close> prefix\<close>
  "py_int16 s =
     (let (sg, ds) = split_sign (py_strip s);
          body = (if startswith ds ''0x'' \<or> startswith ds ''0X'' then drop 2 ds else ds);
          body' = (if body \<noteq> ds \<and> startswith body ''_'' then drop 1 body else body)
      in map_option (\<lambda>d. sg * foldl (\<lambda>n c. n * 16 + hex_val c) 0 d)
           (strip_underscores is_hex body'))"

subsection \<open>Numbers read back\<close>

lemma is_decimal_not_space: "is_decimal c \<Longrightarrow> \<not> is_space c"
  and is_decimal_not_sign: "is_decimal c \<Longrightarrow> c \<noteq> CHR ''-'' \<and> c \<noteq> CHR ''+'' \<and> c \<noteq> CHR ''_''"
  by (auto simp: is_decimal_def is_space_def code_def)

lemma digit_char_cases: "0 \<le> d \<Longrightarrow> d < 10 \<Longrightarrow> d \<in> {0, 1, 2, 3, 4, 5, 6, 7, 8, 9}"
  for d :: int
  by (simp, presburger)

lemma digit_char [simp]:
  assumes "0 \<le> d" and "d < 10"
  shows "is_decimal (digit_char d)" and "digit_val (digit_char d) = d"
  using digit_char_cases [OF assms]
  by (auto simp: digit_char_def is_decimal_def digit_val_def code_def)

lemma show_nat_nonempty [simp]: "show_nat n \<noteq> []"
  by (subst show_nat.simps) simp

lemma show_nat_decimal: "0 \<le> n \<Longrightarrow> list_all is_decimal (show_nat n)"
  by (induction n rule: show_nat.induct) (subst show_nat.simps, simp)

lemma foldl_digits_append:
  "foldl (\<lambda>n c. n * 10 + digit_val c) a (xs @ ys)
     = foldl (\<lambda>n c. n * 10 + digit_val c) (foldl (\<lambda>n c. n * 10 + digit_val c) a xs) ys"
  by simp

lemma digits_val_snoc [simp]: "digits_val (xs @ [c]) = digits_val xs * 10 + digit_val c"
  by (simp add: digits_val_def)

lemma digits_val_show_nat [simp]: "0 \<le> n \<Longrightarrow> digits_val (show_nat n) = n"
proof (induction n rule: show_nat.induct)
  case (1 n)
  show ?case
  proof (cases "n < 10")
    case True
    with "1.prems" show ?thesis by (subst show_nat.simps) (simp add: digits_val_def)
  next
    case False
    with "1" show ?thesis by (subst show_nat.simps) simp
  qed
qed

lemma strip_underscores_plain:
  "xs \<noteq> [] \<Longrightarrow> list_all D xs \<Longrightarrow> \<not> D CHR ''_'' \<Longrightarrow> strip_underscores D xs = Some xs"
  by (induction D xs rule: strip_underscores.induct) auto

lemma dropWhile_none: "(\<And>x. x \<in> set xs \<Longrightarrow> \<not> P x) \<Longrightarrow> dropWhile P xs = xs"
  by (induction xs) auto

lemma strip_by_none: "(\<And>x. x \<in> set xs \<Longrightarrow> \<not> P x) \<Longrightarrow> strip_by P xs = xs"
  using dropWhile_none [of xs P] dropWhile_none [of "rev xs" P]
  by (simp add: strip_by_def rstrip_by_def lstrip_by_def)

lemma py_int_digits:
  assumes "xs \<noteq> []" and "list_all is_decimal xs"
  shows "py_int xs = Some (digits_val xs)" and "py_int (CHR ''-'' # xs) = Some (- digits_val xs)"
proof -
  have s: "strip_underscores is_decimal xs = Some xs"
    using assms by (intro strip_underscores_plain) (auto simp: is_decimal_def)
  have d: "is_decimal x" if "x \<in> set xs" for x using assms that by (simp add: list_all_iff)
  have "\<not> is_space x" if "x \<in> set (CHR ''-'' # xs)" for x
    using that d is_decimal_not_space by (auto simp: is_space_def [of "CHR ''-''"] code_def)
  then have "py_strip xs = xs" "py_strip (CHR ''-'' # xs) = CHR ''-'' # xs"
    unfolding py_strip_def using strip_by_none [of xs is_space]
      strip_by_none [of "CHR ''-'' # xs" is_space] by auto
  moreover have "split_sign xs = (1, xs)"
    using assms d is_decimal_not_sign by (cases xs) (auto simp: split_sign_def)
  ultimately show "py_int xs = Some (digits_val xs)"
    and "py_int (CHR ''-'' # xs) = Some (- digits_val xs)"
    using s by (simp_all add: py_int_def, simp add: split_sign_def)
qed

lemma py_int_show_int [simp]: "py_int (show_int n) = Some n"
  using py_int_digits [OF show_nat_nonempty show_nat_decimal, of n]
    py_int_digits [OF show_nat_nonempty show_nat_decimal, of "- n"]
  by (auto simp: show_int_def)

lemma show_int_chars: "c \<in> set (show_int n) \<Longrightarrow> c = CHR ''-'' \<or> is_decimal c"
  using show_nat_decimal [of n] show_nat_decimal [of "- n"]
  by (auto simp: show_int_def list_all_iff split: if_splits)

lemma show_int_inj: "show_int m = show_int n \<Longrightarrow> m = n"
  by (metis option.inject py_int_show_int)

subsection \<open>Evaluation\<close>

lemmas str_eval =
  code_def is_decimal_def is_digit_def is_space_def lower_char_def char_of_def py_lower_def
  py_isdigit_def lstrip_by_def rstrip_by_def strip_by_def py_strip_def lstrip_chars_def
  rstrip_chars_def strip_chars_def endswith_def str_in_def py_find_def split_str.simps
  split_once_def split_ws_def is_linebreak_def splitlines_def last_opt_def digit_val_def
  digits_val_def digit_char_def show_int_def split_sign_def py_int_def
  hex_val_def is_hex_def py_int16_def nth_opt_def

declare str_eval [py_eval]

end
