(* ===== verification/PyFloat.thy ===== *)
theory PyFloat
  imports Complex_Main PyStr
begin

text \<open>
  Python's \<open>float\<close>: IEEE 754 binary64 with round-half-even. A finite value is the rational
  it stands for, \<open>rnd64\<close> rounds an exact result to the nearest representable one, and
  every operation of the model is the exact operation followed by that rounding. The sign
  of a zero is not kept.
\<close>

subsection \<open>Floors and ceilings of fractions\<close>

lemma floor_frac_rat [py_eval]:
  "\<lfloor>(numeral a :: rat) / numeral b\<rfloor> = numeral a div numeral b"
  "\<lfloor>(1 :: rat) / numeral b\<rfloor> = 1 div numeral b"
  "\<lfloor>- ((numeral a :: rat) / numeral b)\<rfloor> = - numeral a div numeral b"
  "\<lfloor>- ((1 :: rat) / numeral b)\<rfloor> = - 1 div numeral b"
  using floor_divide_of_int_eq [where 'a = rat, of "numeral a" "numeral b"]
    floor_divide_of_int_eq [where 'a = rat, of 1 "numeral b"]
    floor_divide_of_int_eq [where 'a = rat, of "- numeral a" "numeral b"]
    floor_divide_of_int_eq [where 'a = rat, of "- 1" "numeral b"]
  by simp_all

lemma ceiling_frac_rat [py_eval]:
  "\<lceil>(numeral a :: rat) / numeral b\<rceil> = - (- numeral a div numeral b)"
  "\<lceil>(1 :: rat) / numeral b\<rceil> = - (- 1 div numeral b)"
  by (simp_all add: ceiling_def floor_frac_rat)

subsection \<open>Powers of two and binary logarithms\<close>

definition pow2 :: "int \<Rightarrow> rat" where
  "pow2 k = (if 0 \<le> k then 2 ^ nat k else 1 / 2 ^ nat (- k))"

function ilog2 :: "int \<Rightarrow> int" where
  "ilog2 n = (if n \<le> 1 then 0 else 1 + ilog2 (n div 2))"
  by pat_completeness auto
termination
  by (relation "measure nat") auto

declare ilog2.simps [simp del]

lemma ilog2_eval [py_eval]:
  "ilog2 1 = 0"
  "ilog2 (numeral (num.Bit0 k)) = 1 + ilog2 (numeral k)"
  "ilog2 (numeral (num.Bit1 k)) = 1 + ilog2 (numeral k)"
  by (simp_all add: ilog2.simps [of 1] ilog2.simps [of "numeral (num.Bit0 k)"]
      ilog2.simps [of "numeral (num.Bit1 k)"])

definition clog2 :: "int \<Rightarrow> int" where
  "clog2 n = (if n \<le> 1 then 0 else ilog2 (n - 1) + 1)"

definition rat_log2 :: "rat \<Rightarrow> int" where
  \<comment> \<open>the binary exponent of a positive rational\<close>
  "rat_log2 x = (if 1 \<le> x then ilog2 \<lfloor>x\<rfloor> else - clog2 \<lceil>1 / x\<rceil>)"

subsection \<open>Rounding\<close>

definition round_half_even :: "rat \<Rightarrow> int" where
  "round_half_even x =
     (let f = \<lfloor>x\<rfloor>; d = x - of_int f
      in if d < 1 / 2 then f else if 1 / 2 < d then f + 1 else if even f then f else f + 1)"

definition ulp_at :: "nat \<Rightarrow> int \<Rightarrow> rat \<Rightarrow> rat" where
  \<comment> \<open>the spacing around a value of the numbers with \<open>p + 1\<close> bits and exponents from \<open>m\<close> on\<close>
  "ulp_at p m x = pow2 (max (rat_log2 \<bar>x\<bar> - int p) m)"

definition rnd_at :: "nat \<Rightarrow> int \<Rightarrow> rat \<Rightarrow> rat" where
  "rnd_at p m x = (if x = 0 then 0 else of_int (round_half_even (x / ulp_at p m x)) * ulp_at p m x)"

definition rnd64 :: "rat \<Rightarrow> rat" where
  \<comment> \<open>binary64, C's \<open>double\<close>\<close>
  "rnd64 x = rnd_at 52 (- 1074) x"

definition rnd32 :: "rat \<Rightarrow> rat" where
  \<comment> \<open>binary32, C's \<open>float\<close>\<close>
  "rnd32 x = rnd_at 23 (- 149) x"

datatype pyfloat = Fin rat | PosInf | NegInf | NaN

definition to_float :: "rat \<Rightarrow> pyfloat" where
  \<comment> \<open>an exact result as a float, with overflow to an infinity\<close>
  "to_float x =
     (let y = rnd64 x
      in if 2 ^ 1024 \<le> y then PosInf else if y \<le> - (2 ^ 1024) then NegInf else Fin y)"

subsection \<open>Parsing: \<open>float(s)\<close>\<close>

definition split_exp :: "string \<Rightarrow> string \<times> string option" where
  "split_exp s =
     (let m = takeWhile (\<lambda>c. c \<noteq> CHR ''e'' \<and> c \<noteq> CHR ''E'') s; r = drop (length m) s
      in (m, if r = [] then None else Some (tl r)))"

definition digits_opt :: "string \<Rightarrow> string option" where
  "digits_opt s = (if s = [] then Some [] else strip_underscores is_decimal s)"

definition parse_exp :: "string option \<Rightarrow> int option" where
  "parse_exp x = (case x of
     None \<Rightarrow> Some 0
   | Some s \<Rightarrow> (let (sg, ds) = split_sign s
                in map_option (\<lambda>d. sg * digits_val d) (strip_underscores is_decimal ds)))"

definition pow10 :: "int \<Rightarrow> rat" where
  "pow10 k = (if 0 \<le> k then 10 ^ nat k else 1 / 10 ^ nat (- k))"

definition parse_decimal :: "string \<Rightarrow> rat option" where
  \<comment> \<open>the exact value of an unsigned decimal literal\<close>
  "parse_decimal s =
     (let (m, x) = split_exp s;
          (ip, fp) = (case cut_at ''.'' m of None \<Rightarrow> (m, []) | Some (a, b) \<Rightarrow> (a, b))
      in do {
        e \<leftarrow> parse_exp x;
        i \<leftarrow> digits_opt ip;
        f \<leftarrow> digits_opt fp;
        if i = [] \<and> f = [] then None
        else Some (of_int (digits_val (i @ f)) * pow10 (e - int (length f)))
      })"

definition py_float :: "string \<Rightarrow> pyfloat option" where
  \<comment> \<open>\<open>None\<close> is \<open>ValueError\<close>\<close>
  "py_float s =
     (let (sg, t) = split_sign (py_strip s); l = py_lower t
      in if l = ''inf'' \<or> l = ''infinity'' then Some (if sg < 0 then NegInf else PosInf)
         else if l = ''nan'' then Some NaN
         else map_option (\<lambda>v. to_float (of_int sg * v)) (parse_decimal t))"

subsection \<open>Printing: \<open>repr(x)\<close> and fixed-point format\<close>

definition rat_log10 :: "rat \<Rightarrow> int" where
  \<comment> \<open>the decimal exponent of a positive rational\<close>
  "rat_log10 x =
     (if 1 \<le> x then int (length (show_nat \<lfloor>x\<rfloor>)) - 1
      else - int (length (show_nat (\<lceil>1 / x\<rceil> - 1))))"

definition decimal_candidates :: "rat \<Rightarrow> int \<Rightarrow> (int \<times> int) list" where
  \<comment> \<open>the two \<open>n\<close>-digit decimals \<open>d * 10 ^ k\<close> around \<open>x\<close> that read back as \<open>x\<close>\<close>
  "decimal_candidates x n =
     (let k = rat_log10 x - n + 1; lo = \<lfloor>x / pow10 k\<rfloor>
      in map (\<lambda>d. (d, k)) (filter (\<lambda>d. rnd64 (of_int d * pow10 k) = x) [lo, lo + 1]))"

definition closest :: "rat \<Rightarrow> (int \<times> int) list \<Rightarrow> (int \<times> int) option" where
  "closest x cs = (case cs of
     [] \<Rightarrow> None
   | [c] \<Rightarrow> Some c
   | (d, k) # (d', k') # _ \<Rightarrow>
       (let a = x - of_int d * pow10 k; b = of_int d' * pow10 k' - x
        in Some (if a < b \<or> (a = b \<and> even d) then (d, k) else (d', k'))))"

fun shortest_from :: "nat \<Rightarrow> rat \<Rightarrow> int \<Rightarrow> int \<times> int" where
  \<comment> \<open>seventeen digits always read back, so the search ends there\<close>
  "shortest_from 0 x n =
     (let k = rat_log10 x - n + 1 in (round_half_even (x / pow10 k), k))"
| "shortest_from (Suc m) x n =
     (case closest x (decimal_candidates x n) of
        Some c \<Rightarrow> c
      | None \<Rightarrow> shortest_from m x (n + 1))"

lemma shortest_from_numeral [py_eval]:
  "shortest_from (numeral m) x n =
     (case closest x (decimal_candidates x n) of
        Some c \<Rightarrow> c
      | None \<Rightarrow> shortest_from (pred_numeral m) x (n + 1))"
  by (simp add: numeral_eq_Suc)

definition zeros :: "int \<Rightarrow> string" where
  "zeros n = replicate (nat n) CHR ''0''"

definition format_repr :: "string \<Rightarrow> int \<Rightarrow> string" where
  \<comment> \<open>digits without trailing zeros, and the position of the decimal point\<close>
  "format_repr ds p =
     (if p \<le> - 4 \<or> 16 < p then
        (let e = p - 1; es = show_nat \<bar>e\<bar>
         in hd ds # (if tl ds = [] then [] else CHR ''.'' # tl ds) @ ''e'' @
            (if e < 0 then ''-'' else ''+'') @ (if length es < 2 then ''0'' else []) @ es)
      else if p \<le> 0 then ''0.'' @ zeros (- p) @ ds
      else if int (length ds) \<le> p then ds @ zeros (p - int (length ds)) @ ''.0''
      else take (nat p) ds @ ''.'' @ drop (nat p) ds)"

definition repr_pos :: "rat \<Rightarrow> string" where
  "repr_pos x =
     (let (d, k) = shortest_from 16 x 1; ds = show_nat d
      in format_repr (rstrip_chars ds ''0'') (int (length ds) + k))"

definition py_repr :: "pyfloat \<Rightarrow> string" where
  \<comment> \<open>\<open>'{0}'.format(x)\<close> and \<open>repr(x)\<close>\<close>
  "py_repr v = (case v of
     Fin x \<Rightarrow> (if x = 0 then ''0.0'' else if x < 0 then CHR ''-'' # repr_pos (- x) else repr_pos x)
   | PosInf \<Rightarrow> ''inf'' | NegInf \<Rightarrow> ''-inf'' | NaN \<Rightarrow> ''nan'')"

definition pad_left :: "nat \<Rightarrow> string \<Rightarrow> string" where
  "pad_left n s = replicate (n - length s) CHR ''0'' @ s"

definition format_fixed :: "nat \<Rightarrow> pyfloat \<Rightarrow> string" where
  \<comment> \<open>\<open>'{0:.<n>f}'.format(x)\<close> for \<open>n > 0\<close>\<close>
  "format_fixed n v = (case v of
     Fin x \<Rightarrow>
       (let q = round_half_even (\<bar>x\<bar> * 10 ^ n)
        in (if x < 0 then ''-'' else []) @ show_nat (q div 10 ^ n) @ ''.'' @
           pad_left n (show_nat (q mod 10 ^ n)))
   | PosInf \<Rightarrow> ''inf'' | NegInf \<Rightarrow> ''-inf'' | NaN \<Rightarrow> ''nan'')"

subsection \<open>Rounding is exact on binary64 numbers and monotone\<close>

lemma pow2_pos [simp]: "0 < pow2 k" by (simp add: pow2_def)

lemma pow2_powi: "pow2 k = 2 powi k"
  by (simp add: pow2_def power_int_def field_simps)

lemma pow2_add: "pow2 (a + b) = pow2 a * pow2 b"
  by (simp add: pow2_powi power_int_add)

lemma pow2_Suc: "pow2 (k + 1) = 2 * pow2 k"
  by (simp add: pow2_powi power_int_add)

lemma pow2_less: "a < b \<Longrightarrow> pow2 a < pow2 b"
  by (simp add: pow2_powi power_int_strict_increasing)

lemma pow2_less_iff [simp]: "pow2 a < pow2 b \<longleftrightarrow> a < b"
  by (metis pow2_less linorder_neqE less_asym less_irrefl)

lemma pow2_le_iff [simp]: "pow2 a \<le> pow2 b \<longleftrightarrow> a \<le> b"
  by (simp flip: not_less)

lemma pow2_of_int: "0 \<le> k \<Longrightarrow> pow2 k = of_int (2 ^ nat k)"
  by (simp add: pow2_def)

lemma ilog2_nonneg [simp]: "0 \<le> ilog2 n"
  by (induction n rule: ilog2.induct) (subst ilog2.simps, simp)

lemma ilog2_bounds: "1 \<le> n \<Longrightarrow> pow2 (ilog2 n) \<le> of_int n \<and> of_int n < pow2 (ilog2 n + 1)"
proof (induction n rule: ilog2.induct)
  case (1 n)
  show ?case
  proof (cases "n \<le> 1")
    case True
    with "1.prems" have "n = 1" by simp
    then show ?thesis by (simp add: ilog2_eval pow2_def)
  next
    case False
    let ?h = "n div 2" and ?p = "2 ^ nat (ilog2 (n div 2) + 1) :: int"
    from False have IH: "pow2 (ilog2 ?h) \<le> of_int ?h" "of_int ?h < pow2 (ilog2 ?h + 1)"
      using "1.IH" by auto
    have l: "ilog2 n = ilog2 ?h + 1" using False by (subst ilog2.simps) simp
    have e: "pow2 (ilog2 ?h + 1) = of_int ?p" by (simp add: pow2_of_int)
    have "?h < ?p" using IH(2) unfolding e by (simp only: of_int_less_iff)
    then have "n < 2 * ?p" by linarith
    then have "(of_int n :: rat) < of_int (2 * ?p)" by (simp only: of_int_less_iff)
    moreover have "2 * ?h \<le> n" by linarith
    then have "(of_int (2 * ?h) :: rat) \<le> of_int n" by (simp only: of_int_le_iff)
    moreover have "pow2 (ilog2 n + 1) = of_int (2 * ?p)"
      using pow2_Suc [of "ilog2 ?h + 1"] unfolding e l by simp
    moreover have "pow2 (ilog2 n) = 2 * pow2 (ilog2 ?h)" unfolding l by (rule pow2_Suc)
    ultimately show ?thesis using IH(1) by simp
  qed
qed

lemma rat_log2_bounds:
  assumes "0 < x"
  shows "pow2 (rat_log2 x) \<le> x \<and> x < pow2 (rat_log2 x + 1)"
proof (cases "1 \<le> x")
  case True
  then have f: "1 \<le> \<lfloor>x\<rfloor>" by simp
  let ?e = "ilog2 \<lfloor>x\<rfloor>" 
  have b: "pow2 ?e \<le> of_int \<lfloor>x\<rfloor>" "of_int \<lfloor>x\<rfloor> < pow2 (?e + 1)" using ilog2_bounds [OF f] by auto
  have e: "pow2 (?e + 1) = of_int (2 ^ nat (?e + 1))" by (rule pow2_of_int) simp
  from b(2) have "\<lfloor>x\<rfloor> < 2 ^ nat (?e + 1)" unfolding e by (simp only: of_int_less_iff)
  then have "x < pow2 (?e + 1)" unfolding e by (simp add: floor_less_iff)
  moreover have "pow2 ?e \<le> x" using b(1) of_int_floor_le order_trans by blast
  ultimately show ?thesis using True by (simp add: rat_log2_def)
next
  case False
  let ?n = "\<lceil>1 / x\<rceil>" 
  from False assms have "1 < 1 / x" by simp
  then have n: "2 \<le> ?n" by (simp add: le_ceiling_iff)
  let ?e = "ilog2 (?n - 1)"
  have c: "rat_log2 x = - (?e + 1)" using False n by (simp add: rat_log2_def clog2_def)
  have b: "pow2 ?e \<le> of_int (?n - 1)" "of_int (?n - 1) < pow2 (?e + 1)"
    using ilog2_bounds [of "?n - 1"] n by auto
  have e: "pow2 (?e + 1) = of_int (2 ^ nat (?e + 1))" by (rule pow2_of_int) simp
  from b(2) have "?n - 1 < 2 ^ nat (?e + 1)" unfolding e by (simp only: of_int_less_iff)
  then have "?n \<le> 2 ^ nat (?e + 1)" by linarith
  then have "1 / x \<le> pow2 (?e + 1)" unfolding e by (simp only: ceiling_le_iff)
  then have 1: "1 / pow2 (?e + 1) \<le> x" using assms by (simp add: field_simps)
  have "of_int (?n - 1) < 1 / x" using ceiling_correct [of "1 / x"] by simp
  then have "pow2 ?e < 1 / x" using b(1) by linarith
  then have 2: "x < 1 / pow2 ?e" using assms by (simp add: field_simps)
  have inv: "pow2 (- k) = 1 / pow2 k" for k
    by (simp add: pow2_powi power_int_minus field_simps)
  from 1 2 show ?thesis using inv [of "?e + 1"] inv [of ?e] by (simp add: c)
qed

lemma rat_log2_mono: "0 < x \<Longrightarrow> x \<le> y \<Longrightarrow> rat_log2 x \<le> rat_log2 y"
proof -
  assume a: "0 < x" "x \<le> y"
  have "pow2 (rat_log2 x) \<le> x" "y < pow2 (rat_log2 y + 1)"
    using a rat_log2_bounds [of x] rat_log2_bounds [of y] by auto
  then have "pow2 (rat_log2 x) < pow2 (rat_log2 y + 1)" using a by linarith
  then show ?thesis by simp
qed

lemma rat_log2_unique: "pow2 e \<le> x \<Longrightarrow> x < pow2 (e + 1) \<Longrightarrow> rat_log2 x = e"
proof -
  assume a: "pow2 e \<le> x" "x < pow2 (e + 1)"
  then have "0 < x" using pow2_pos [of e] by linarith
  then have b: "pow2 (rat_log2 x) \<le> x" "x < pow2 (rat_log2 x + 1)"
    using rat_log2_bounds by auto
  have "pow2 e < pow2 (rat_log2 x + 1)" "pow2 (rat_log2 x) < pow2 (e + 1)"
    using a b by linarith+
  then show ?thesis by simp
qed

lemma round_half_even_of_int [simp]: "round_half_even (of_int n) = n"
  by (simp add: round_half_even_def)

lemma round_half_even_near: "\<bar>of_int (round_half_even x) - x\<bar> \<le> 1 / 2"
proof -
  have "of_int \<lfloor>x\<rfloor> \<le> x" "x < of_int \<lfloor>x\<rfloor> + 1" using floor_correct [of x] by simp_all
  then show ?thesis
    unfolding round_half_even_def Let_def by (auto simp: abs_le_iff)
qed

lemma round_half_even_mono: "x \<le> y \<Longrightarrow> round_half_even x \<le> round_half_even y"
proof -
  assume xy: "x \<le> y"
  show ?thesis
  proof (cases "\<lfloor>x\<rfloor> = \<lfloor>y\<rfloor>")
    case True
    with xy show ?thesis unfolding round_half_even_def Let_def by auto
  next
    case False
    with xy have "\<lfloor>x\<rfloor> + 1 \<le> \<lfloor>y\<rfloor>" using floor_mono [OF xy] by linarith
    then show ?thesis unfolding round_half_even_def Let_def by auto
  qed
qed

lemma round_half_even_minus: "round_half_even (- x) = - round_half_even x"
proof (cases "x = of_int \<lfloor>x\<rfloor>")
  case True
  then show ?thesis by (metis of_int_minus round_half_even_of_int)
next
  case False
  then have "of_int \<lfloor>x\<rfloor> < x" by (metis of_int_floor_le order_le_less)
  then have "\<lfloor>- x\<rfloor> = - \<lfloor>x\<rfloor> - 1" using floor_correct [of x] by (simp add: floor_eq_iff)
  then show ?thesis unfolding round_half_even_def Let_def by auto
qed

lemma ulp_at_pos [simp]: "0 < ulp_at p m x" by (simp add: ulp_at_def)

lemma ulp_at_minus [simp]: "ulp_at p m (- x) = ulp_at p m x" by (simp add: ulp_at_def)

lemma rnd_at_0 [simp]: "rnd_at p m 0 = 0" by (simp add: rnd_at_def)

lemma rnd_at_minus: "rnd_at p m (- x) = - rnd_at p m x"
  by (simp add: rnd_at_def round_half_even_minus)

lemma pow2_multiple: "a \<le> b \<Longrightarrow> \<exists>k :: int. pow2 b = of_int k * pow2 a"
proof -
  assume "a \<le> b"
  then have "pow2 b = of_int (2 ^ nat (b - a)) * pow2 a"
    using pow2_add [of "b - a" a] by (simp add: pow2_of_int)
  then show ?thesis by blast
qed

lemma pow2_int_floor: "0 \<le> k \<Longrightarrow> \<exists>z :: int. pow2 k = of_int z"
  by (auto simp: pow2_def intro: exI [of _ "2 ^ nat k"])

lemma rnd_at_le_multiple:
  \<comment> \<open>rounding does not cross a multiple of the spacing\<close>
  assumes "x \<le> of_int k * ulp_at p m x"
  shows "rnd_at p m x \<le> of_int k * ulp_at p m x"
proof (cases "x = 0")
  case True
  with assms show ?thesis by simp
next
  case False
  from assms have "x / ulp_at p m x \<le> of_int k" by (simp add: divide_le_eq)
  then have "round_half_even (x / ulp_at p m x) \<le> round_half_even (of_int k)"
    by (rule round_half_even_mono)
  then have "(of_int (round_half_even (x / ulp_at p m x)) :: rat) \<le> of_int k"
    by simp
  then show ?thesis using False ulp_at_pos [of p m x]
    by (simp add: rnd_at_def mult_right_mono less_imp_le)
qed

lemma rnd_at_ge_multiple:
  assumes "of_int k * ulp_at p m x \<le> x"
  shows "of_int k * ulp_at p m x \<le> rnd_at p m x"
proof (cases "x = 0")
  case True
  with assms show ?thesis by simp
next
  case False
  from assms have "of_int k \<le> x / ulp_at p m x" by (simp add: le_divide_eq)
  then have "round_half_even (of_int k) \<le> round_half_even (x / ulp_at p m x)"
    by (rule round_half_even_mono)
  then have "(of_int k :: rat) \<le> of_int (round_half_even (x / ulp_at p m x))"
    by simp
  then show ?thesis using False ulp_at_pos [of p m x]
    by (simp add: rnd_at_def mult_right_mono less_imp_le)
qed

lemma rnd_at_nonneg: "0 \<le> x \<Longrightarrow> 0 \<le> rnd_at p m x"
  using rnd_at_ge_multiple [of 0 p m x] by simp

lemma binade_multiple:
  \<comment> \<open>a power of two at or above the binade of \<open>x\<close> is a multiple of the spacing\<close>
  assumes "0 < x" and "rat_log2 x \<le> e" and "m \<le> e"
  shows "\<exists>k :: int. pow2 e = of_int k * ulp_at p m x"
  unfolding ulp_at_def using assms by (intro pow2_multiple) auto

lemma rnd_at_mono_pos:
  assumes "0 < x" and "x \<le> y"
  shows "rnd_at p m x \<le> rnd_at p m y"
proof (cases "ulp_at p m x = ulp_at p m y")
  case True
  have "x / ulp_at p m x \<le> y / ulp_at p m x" using assms(2) by (simp add: divide_right_mono less_imp_le)
  then have "(of_int (round_half_even (x / ulp_at p m x)) :: rat) \<le> of_int (round_half_even (y / ulp_at p m y))"
    using True by (simp add: round_half_even_mono)
  then show ?thesis using assms True
    by (simp add: rnd_at_def mult_right_mono less_imp_le)
next
  case False
  have le: "rat_log2 x \<le> rat_log2 y" using assms by (rule rat_log2_mono)
  have "max (rat_log2 x - int p) m \<noteq> max (rat_log2 y - int p) m"
    using False assms by (auto simp: ulp_at_def)
  with le have lt: "rat_log2 x + 1 \<le> rat_log2 y" and big: "m < rat_log2 y - int p"
    by linarith+
  let ?b = "pow2 (rat_log2 y)"
  have yb: "?b \<le> y" using rat_log2_bounds [of y] assms by auto
  obtain k :: int where k: "?b = of_int k * ulp_at p m x"
    using binade_multiple [of x "rat_log2 y" m p] assms lt big by auto
  obtain l :: int where l: "?b = of_int l * ulp_at p m y"
    using binade_multiple [of y "rat_log2 y" m p] assms big by auto
  have "x < pow2 (rat_log2 x + 1)" using rat_log2_bounds assms(1) by blast
  also have "\<dots> \<le> ?b" using lt by simp
  finally have "x \<le> of_int k * ulp_at p m x" using k by simp
  then have "rnd_at p m x \<le> ?b" using rnd_at_le_multiple k by simp
  moreover have "?b \<le> rnd_at p m y" using rnd_at_ge_multiple [of l p m y] yb l by simp
  ultimately show ?thesis by simp
qed

lemma rnd_at_mono: "x \<le> y \<Longrightarrow> rnd_at p m x \<le> rnd_at p m y"
proof -
  assume xy: "x \<le> y"
  consider "0 < x" | "x \<le> 0" "0 \<le> y" | "y < 0" by linarith
  then show ?thesis
  proof cases
    case 1
    then show ?thesis using xy by (rule rnd_at_mono_pos)
  next
    case 2
    then have "0 \<le> rnd_at p m (- x)" "0 \<le> rnd_at p m y" by (simp_all add: rnd_at_nonneg)
    then show ?thesis by (simp add: rnd_at_minus)
  next
    case 3
    then have "rnd_at p m (- y) \<le> rnd_at p m (- x)" using xy by (intro rnd_at_mono_pos) auto
    then show ?thesis by (simp add: rnd_at_minus)
  qed
qed

lemma rnd_at_multiple: "x = of_int k * ulp_at p m x \<Longrightarrow> rnd_at p m x = x"
  using rnd_at_le_multiple [of x k p m] rnd_at_ge_multiple [of k p m x] by simp

definition fits_format :: "nat \<Rightarrow> int \<Rightarrow> rat \<Rightarrow> bool" where
  \<comment> \<open>an integer of at most \<open>p + 1\<close> bits times a power of two\<close>
  "fits_format p m x \<longleftrightarrow> (\<exists>n e. x = of_int n * pow2 e \<and> \<bar>n\<bar> \<le> 2 ^ Suc p \<and> m \<le> e)"

lemma pow2_int: "pow2 (int k) = 2 ^ k"
  by (simp add: pow2_def)

lemma rnd_at_fits:
  assumes "fits_format p m x"
  shows "rnd_at p m x = x"
proof (cases "x = 0")
  case True
  then show ?thesis by simp
next
  case False
  let ?w = "int (Suc p)"
  obtain n e where x: "x = of_int n * pow2 e" and n: "\<bar>n\<bar> \<le> 2 ^ Suc p" and e: "m \<le> e"
    using assms by (auto simp: fits_format_def)
  have a: "\<bar>x\<bar> = of_int \<bar>n\<bar> * pow2 e" by (simp add: x abs_mult less_imp_le)
  also have "\<dots> \<le> of_int (2 ^ Suc p) * pow2 e"
    using n by (intro mult_right_mono) (simp_all only: of_int_le_iff less_imp_le pow2_pos)
  also have "\<dots> = pow2 (?w + e)" by (simp only: pow2_add pow2_int of_int_power of_int_numeral)
  finally have u: "\<bar>x\<bar> \<le> pow2 (?w + e)" .
  have lo: "pow2 (rat_log2 \<bar>x\<bar>) \<le> \<bar>x\<bar>" using False rat_log2_bounds [of "\<bar>x\<bar>"] by simp
  with u have "pow2 (rat_log2 \<bar>x\<bar>) \<le> pow2 (?w + e)" by (rule order_trans [rotated])
  then have l: "rat_log2 \<bar>x\<bar> \<le> ?w + e" by simp
  show ?thesis
  proof (cases "rat_log2 \<bar>x\<bar> = ?w + e")
    case True
    then obtain k :: int where k: "pow2 (?w + e) = of_int k * ulp_at p m x"
      using binade_multiple [of "\<bar>x\<bar>" "?w + e" m p] False e by (auto simp: ulp_at_def)
    have "\<bar>x\<bar> = of_int k * ulp_at p m x" using u lo k unfolding True by simp
    then have "x = of_int k * ulp_at p m x \<or> x = of_int (- k) * ulp_at p m x"
      by (auto simp: abs_if split: if_splits)
    then show ?thesis using rnd_at_multiple by blast
  next
    case False
    with l e have "max (rat_log2 \<bar>x\<bar> - int p) m \<le> e" by auto
    then obtain k :: int where "pow2 e = of_int k * ulp_at p m x"
      unfolding ulp_at_def using pow2_multiple by blast
    then have "x = of_int (n * k) * ulp_at p m x" by (simp add: x)
    then show ?thesis by (rule rnd_at_multiple)
  qed
qed

lemma fits_of_int: "\<bar>n\<bar> \<le> 2 ^ Suc p \<Longrightarrow> m \<le> 0 \<Longrightarrow> fits_format p m (of_int n)"
  unfolding fits_format_def by (intro exI [of _ n] exI [of _ 0]) (simp add: pow2_def)

lemma fits_0: "fits_format p m 0"
  unfolding fits_format_def by (intro exI [of _ 0] exI [of _ m]) simp

lemma fits_rnd_at: "fits_format p m (rnd_at p m x)"
proof (cases "x = 0")
  case True
  then show ?thesis using fits_0 by simp
next
  case False
  let ?e = "max (rat_log2 \<bar>x\<bar> - int p) m" and ?w = "int (Suc p)"
  let ?n = "round_half_even (x / ulp_at p m x)"
  have "\<bar>x\<bar> < pow2 (rat_log2 \<bar>x\<bar> + 1)" using False rat_log2_bounds [of "\<bar>x\<bar>"] by simp
  also have "\<dots> \<le> pow2 (?w + ?e)" by simp
  also have "\<dots> = 2 ^ Suc p * ulp_at p m x" by (simp only: pow2_add pow2_int ulp_at_def)
  finally have "\<bar>x / ulp_at p m x\<bar> \<le> of_int (2 ^ Suc p)"
    by (simp add: abs_divide pos_divide_le_eq less_imp_le)
  then have "x / ulp_at p m x \<le> of_int (2 ^ Suc p)" "of_int (- (2 ^ Suc p)) \<le> x / ulp_at p m x"
    by (simp_all only: abs_le_iff) (simp add: minus_le_iff)
  then have "?n \<le> 2 ^ Suc p" "- (2 ^ Suc p) \<le> ?n"
    using round_half_even_mono by (metis round_half_even_of_int)+
  then have "\<bar>?n\<bar> \<le> 2 ^ Suc p" by (simp only: abs_le_iff minus_le_iff)
  then show ?thesis using False unfolding fits_format_def
    by (intro exI [of _ ?n] exI [of _ ?e]) (simp add: rnd_at_def ulp_at_def)
qed

subsection \<open>The interface: a rounding\<close>

text \<open>
  What the code that computes with floats relies on: rounding is monotone, keeps zero, is
  idempotent and symmetric. Nothing below depends on the width of the significand.
\<close>

locale rounding =
  fixes rnd :: "rat \<Rightarrow> rat"
  assumes mono: "x \<le> y \<Longrightarrow> rnd x \<le> rnd y"
    and zero: "rnd 0 = 0"
    and idem: "rnd (rnd x) = rnd x"
    and minus: "rnd (- x) = - rnd x"
begin

lemma nonneg: "0 \<le> x \<Longrightarrow> 0 \<le> rnd x"
  using mono [of 0 x] zero by simp

lemma diff_nonneg: "b \<le> a \<Longrightarrow> 0 \<le> rnd (a - b)"
  by (rule nonneg) simp

lemma diff_pos_imp: "0 < rnd (a - b) \<Longrightarrow> b < a"
  using mono [of "a - b" 0] zero by force

lemma diff_le: "0 \<le> b \<Longrightarrow> rnd a = a \<Longrightarrow> rnd (a - b) \<le> a"
  using mono [of "a - b" a] by simp

lemma diff_eq_0: "a = b \<Longrightarrow> rnd (a - b) = 0"
  using zero by simp

end

interpretation fmt: rounding "rnd_at p m" for p m
  by unfold_locales (auto intro: rnd_at_mono rnd_at_fits fits_rnd_at simp: rnd_at_minus)

interpretation r64: rounding rnd64
  unfolding rnd64_def by (rule fmt.rounding_axioms)

interpretation r32: rounding rnd32
  unfolding rnd32_def by (rule fmt.rounding_axioms)

subsection \<open>The two widths\<close>

definition representable :: "rat \<Rightarrow> bool" where
  \<comment> \<open>a binary64 number\<close>
  "representable x \<longleftrightarrow> (\<exists>m e. x = of_int m * pow2 e \<and> \<bar>m\<bar> \<le> 2 ^ 53 \<and> - 1074 \<le> e)"

lemma representable_fits: "representable x \<longleftrightarrow> fits_format 52 (- 1074) x"
  by (simp add: representable_def fits_format_def)

lemma rnd64_mono: "x \<le> y \<Longrightarrow> rnd64 x \<le> rnd64 y"
  by (rule r64.mono)

lemma rnd64_0 [simp]: "rnd64 0 = 0" "rnd32 0 = 0"
  by (rule r64.zero) (rule r32.zero)

lemma rnd64_representable: "representable x \<Longrightarrow> rnd64 x = x"
  by (simp add: representable_fits rnd64_def rnd_at_fits)

lemma rnd64_of_int: "\<bar>n\<bar> \<le> 2 ^ 53 \<Longrightarrow> rnd64 (of_int n) = of_int n"
  unfolding rnd64_def by (intro rnd_at_fits fits_of_int) simp_all

lemma rnd32_of_int: "\<bar>n\<bar> \<le> 2 ^ 24 \<Longrightarrow> rnd32 (of_int n) = of_int n"
  unfolding rnd32_def by (intro rnd_at_fits fits_of_int) simp_all

subsection \<open>Evaluation\<close>

lemmas float_eval =
  pow2_def clog2_def rat_log2_def round_half_even_def ulp_at_def rnd_at_def rnd64_def rnd32_def to_float_def
  split_exp_def digits_opt_def parse_exp_def pow10_def parse_decimal_def py_float_def
  rat_log10_def decimal_candidates_def closest_def zeros_def format_repr_def repr_pos_def
  py_repr_def pad_left_def format_fixed_def Let_def

declare float_eval [py_eval]

end
