(* ===== verification/CTypes.thy ===== *)
theory CTypes
  imports PyFloat "HOL-Library.Word"
begin

text \<open>
  The part of C that the library and its Python binding rest on: the layout of structures
  and unions on the LP64 platform the code is built for, machine integers as words (signed
  arithmetic wraps, as the compiled code does), the conversions between 64-bit integers and
  \<open>double\<close>, and \<open>strtoull\<close>.
\<close>

subsection \<open>Types and their layout\<close>

datatype ctype =
    SInt nat \<comment> \<open>a signed integer of so many bytes\<close>
  | UInt nat
  | Bool8
  | Void
  | Ptr ctype
  | Fun_ptr
  | Array nat ctype
  | Struct "(string \<times> ctype) list"
  | Union "(string \<times> ctype) list"

definition align_up :: "nat \<Rightarrow> nat \<Rightarrow> nat" where
  "align_up n a = (n + a - 1) div a * a"

fun align_of :: "ctype \<Rightarrow> nat" where
  "align_of (SInt n) = n"
| "align_of (UInt n) = n"
| "align_of Bool8 = 1"
| "align_of Void = 1"
| "align_of (Ptr t) = 8"
| "align_of Fun_ptr = 8"
| "align_of (Array n t) = align_of t"
| "align_of (Struct fs) = foldr max (map (\<lambda>(f, t). align_of t) fs) 1"
| "align_of (Union fs) = foldr max (map (\<lambda>(f, t). align_of t) fs) 1"

definition place :: "(nat \<times> nat) list \<Rightarrow> nat" where
  \<comment> \<open>the end of the last member, from the sizes and alignments of the members\<close>
  "place ms = fold (\<lambda>(sz, al) off. align_up off al + sz) ms 0"

fun size_of :: "ctype \<Rightarrow> nat" where
  "size_of (SInt n) = n"
| "size_of (UInt n) = n"
| "size_of Bool8 = 1"
| "size_of Void = 0"
| "size_of (Ptr t) = 8"
| "size_of Fun_ptr = 8"
| "size_of (Array n t) = n * size_of t"
| "size_of (Struct fs) =
     align_up (place (map (\<lambda>(f, t). (size_of t, align_of t)) fs)) (align_of (Struct fs))"
| "size_of (Union fs) =
     align_up (foldr max (map (\<lambda>(f, t). size_of t) fs) 0) (align_of (Union fs))"

fun members_from :: "nat \<Rightarrow> (string \<times> ctype) list \<Rightarrow> (string \<times> nat \<times> nat) list" where
  "members_from off [] = []"
| "members_from off ((f, t) # fs) =
     (let o1 = align_up off (align_of t)
      in (f, o1, size_of t) # members_from (o1 + size_of t) fs)"

fun members :: "ctype \<Rightarrow> (string \<times> nat \<times> nat) list" where
  \<comment> \<open>name, offset and size of every member\<close>
  "members (Struct fs) = members_from 0 fs"
| "members (Union fs) = map (\<lambda>(f, t). (f, 0, size_of t)) fs"
| "members _ = []"

subsection \<open>Machine integers\<close>

type_synonym u64 = "64 word"
type_synonym u32 = "32 word"

definition fits_signed :: "nat \<Rightarrow> int \<Rightarrow> bool" where
  "fits_signed w n \<longleftrightarrow> - (2 ^ (w - 1)) \<le> n \<and> n < 2 ^ (w - 1)"

definition fits_unsigned :: "nat \<Rightarrow> int \<Rightarrow> bool" where
  "fits_unsigned w n \<longleftrightarrow> 0 \<le> n \<and> n < 2 ^ w"

definition smin :: "u64 \<Rightarrow> u64 \<Rightarrow> u64" where
  \<comment> \<open>\<open>min(a, b)\<close> on two \<open>long long\<close>\<close>
  "smin a b = (if sint a < sint b then a else b)"

definition smax :: "u64 \<Rightarrow> u64 \<Rightarrow> u64" where
  "smax a b = (if sint a > sint b then a else b)"

definition umin :: "u64 \<Rightarrow> u64 \<Rightarrow> u64" where
  \<comment> \<open>\<open>min(a, b)\<close> with one unsigned operand: both are compared unsigned\<close>
  "umin a b = (if a < b then a else b)"

definition umax :: "u64 \<Rightarrow> u64 \<Rightarrow> u64" where
  "umax a b = (if a > b then a else b)"

definition to_double :: "u64 \<Rightarrow> rat" where
  "to_double x = rnd64 (of_int (uint x))"

definition of_double :: "rat \<Rightarrow> u64" where
  \<comment> \<open>the conversion truncates\<close>
  "of_double x = word_of_int \<lfloor>x\<rfloor>"

definition mix :: "rat \<Rightarrow> rat \<Rightarrow> u64 \<Rightarrow> u64 \<Rightarrow> u64" where
  \<comment> \<open>\<open>a * p + b * q\<close> computed in \<open>double\<close> and stored in a \<open>uint64_t\<close>\<close>
  "mix p q a b = of_double (rnd64 (rnd64 (to_double a * rnd64 p) + rnd64 (to_double b * rnd64 q)))"

definition c_isspace :: "char \<Rightarrow> bool" where
  "c_isspace c \<longleftrightarrow> (9 \<le> code c \<and> code c \<le> 13) \<or> code c = 32"

definition strtoull :: "string \<Rightarrow> u64" where
  \<comment> \<open>\<open>strtoull(s, NULL, 10)\<close>: blanks, a sign, then as many digits as there are; saturates\<close>
  "strtoull s =
     (let t = dropWhile c_isspace s;
          neg = startswith t ''-'';
          u = (if neg \<or> startswith t ''+'' then tl t else t);
          v = min (digits_val (takeWhile is_decimal u)) (2 ^ 64 - 1)
      in if neg then - word_of_int v else word_of_int v)"

subsection \<open>Bounds of the signed minimum and maximum\<close>

lemma sint_smin: "sint (smin a b) = min (sint a) (sint b)"
  by (simp add: smin_def)

lemma sint_smax: "sint (smax a b) = max (sint a) (sint b)"
  by (simp add: smax_def)

lemma umax_0 [simp]: "umax 0 x = x"
  by (simp add: umax_def)

lemma sint_of_small:
  assumes "uint (x :: u64) < 2 ^ 63"
  shows "sint x = uint x"
proof -
  have "- (2 ^ 63) \<le> uint x" by (rule order_trans [OF _ uint_ge_0]) simp
  then show ?thesis using assms
    by (simp only: sint_uint) (rule signed_take_bit_int_eq_self, simp_all)
qed

subsection \<open>Widening an \<open>int\<close> to 64 bits\<close>

lemma widen_int:
  "uint (scast (word_of_int n :: u32) :: u64) = ((n + 2 ^ 31) mod 2 ^ 32 - 2 ^ 31) mod 2 ^ 64"
  unfolding scast_eq uint_word_of_int sint_sbintrunc' signed_take_bit_eq_take_bit_shift take_bit_eq_mod
  by simp

lemma widen_int_values:
  assumes "0 \<le> n"
  shows "n < 2 ^ 31 \<Longrightarrow> uint (scast (word_of_int n :: u32) :: u64) = n"
    and "2 ^ 31 \<le> n \<Longrightarrow> n < 2 ^ 32 \<Longrightarrow> uint (scast (word_of_int n :: u32) :: u64) = 2 ^ 64 - 2 ^ 32 + n"
proof -
  show "uint (scast (word_of_int n :: u32) :: u64) = n" if "n < 2 ^ 31"
    using that assms by (simp add: widen_int)
  show "uint (scast (word_of_int n :: u32) :: u64) = 2 ^ 64 - 2 ^ 32 + n" if "2 ^ 31 \<le> n" "n < 2 ^ 32"
  proof -
    have "(n + 2 ^ 31) mod 2 ^ 32 = (n - 2 ^ 31) mod 2 ^ 32"
      using mod_add_self2 [of "n - 2 ^ 31" "2 ^ 32 :: int"] by (simp add: add.commute)
    also have "\<dots> = n - 2 ^ 31" using that by simp
    finally have "uint (scast (word_of_int n :: u32) :: u64) = (n - 2 ^ 32) mod 2 ^ 64"
      by (simp add: widen_int)
    also have "\<dots> = (n - 2 ^ 32 + 2 ^ 64) mod 2 ^ 64" by (rule mod_add_self2 [symmetric])
    also have "\<dots> = n - 2 ^ 32 + 2 ^ 64" using that by (intro mod_pos_pos_trivial) simp_all
    finally show ?thesis by simp
  qed
qed

end
