(* ===== verification/SharedData.thy ===== *)
theory SharedData
  imports Prelude "HOL-Library.Word"
begin

unbundle bit_operations_syntax

text \<open>
  The shared memory of the daemon (\<open>inc/robflex_def.h\<close>) and the event names
  (\<open>inc/robflex_event.h\<close>): the event bits are an array of 64-bit words, one bit per event,
  set and cleared by the daemon and tested by the threads it schedules.
\<close>

subsection \<open>Event names\<close>

definition ROBFLEX_EVENT_NONE :: int where
  "ROBFLEX_EVENT_NONE = 0"

definition robflex_event_name_list :: "string list" where
  "robflex_event_name_list =
     [''obstacle_dense'', ''pedestrian_dense'', ''high_speed'', ''cruise_normal'',
      ''stationary'', ''interaction'', ''awaiting_command'', ''emergency_stop'']"

fun name_index :: "string list \<Rightarrow> nat \<Rightarrow> string \<Rightarrow> int" where
  \<comment> \<open>the loop over the name list; \<open>i\<close> is the loop counter\<close>
  "name_index [] i s = ROBFLEX_EVENT_NONE"
| "name_index (n # ns) i s = (if s = n then int i + 1 else name_index ns (Suc i) s)"

definition robflex_get_event_idx :: "string option \<Rightarrow> int" where
  \<comment> \<open>\<open>None\<close> is the NULL pointer\<close>
  "robflex_get_event_idx event_name = (case event_name of
     None \<Rightarrow> ROBFLEX_EVENT_NONE
   | Some s \<Rightarrow> name_index robflex_event_name_list 0 s)"

lemma name_index_range:
  "name_index ns i s = ROBFLEX_EVENT_NONE \<or>
   (int i < name_index ns i s \<and> name_index ns i s \<le> int (i + length ns))"
  by (induction ns i s rule: name_index.induct) auto

lemma name_index_pos_iff: "0 < name_index ns i s \<longleftrightarrow> s \<in> set ns"
proof (induction ns i s rule: name_index.induct)
  case (1 i s)
  then show ?case by (simp add: ROBFLEX_EVENT_NONE_def)
next
  case (2 n ns i s)
  then show ?case by auto
qed

lemma name_index_nth:
  "0 < name_index ns i s \<Longrightarrow> ns ! nat (name_index ns i s - int i - 1) = s"
proof (induction ns i s rule: name_index.induct)
  case (1 i s)
  then show ?case by (simp add: ROBFLEX_EVENT_NONE_def)
next
  case (2 n ns i s)
  show ?case
  proof (cases "s = n")
    case True
    then show ?thesis by simp
  next
    case False
    let ?k = "name_index ns (Suc i) s"
    have p: "0 < ?k" using 2(2) False by simp
    then have "int (Suc i) < ?k"
      using name_index_range [of ns "Suc i" s] by (auto simp: ROBFLEX_EVENT_NONE_def)
    then have "nat (?k - int i - 1) = Suc (nat (?k - int (Suc i) - 1))" by simp
    with 2(1) False p show ?thesis by simp
  qed
qed

lemma robflex_get_event_idx_known:
  "s \<in> set robflex_event_name_list \<Longrightarrow>
   1 \<le> robflex_get_event_idx (Some s) \<and> robflex_get_event_idx (Some s) \<le> 8"
  using name_index_pos_iff [of robflex_event_name_list 0 s]
    name_index_range [of robflex_event_name_list 0 s]
  by (auto simp: robflex_get_event_idx_def ROBFLEX_EVENT_NONE_def robflex_event_name_list_def)

lemma robflex_get_event_idx_unknown:
  "s \<notin> set robflex_event_name_list \<Longrightarrow> robflex_get_event_idx (Some s) = 0"
  using name_index_pos_iff [of robflex_event_name_list 0 s]
    name_index_range [of robflex_event_name_list 0 s]
  by (auto simp: robflex_get_event_idx_def ROBFLEX_EVENT_NONE_def)

lemma robflex_get_event_idx_inj:
  assumes "s \<in> set robflex_event_name_list"
    and "robflex_get_event_idx (Some s) = robflex_get_event_idx (Some t)"
  shows "s = t"
proof -
  let ?k = "name_index robflex_event_name_list 0"
  have "0 < ?k s" using assms(1) by (simp add: name_index_pos_iff)
  moreover have "?k s = ?k t" using assms(2) by (simp add: robflex_get_event_idx_def)
  ultimately show ?thesis by (metis name_index_nth)
qed

subsection \<open>Event bits\<close>

definition MAX_EVENT_NUM :: int where
  "MAX_EVENT_NUM = 1024"

definition word_bits :: int where
  "word_bits = 64"

datatype busy_degree = SYSTEM_IDLE | SYSTEM_MODERATE | SYSTEM_HIGH

record system_data =
  busy_degree :: busy_degree
  futex_wake_seq :: int
  event_bits :: "64 word list"

definition valid_shmem :: "system_data \<Rightarrow> bool" where
  \<comment> \<open>the array has \<open>MAX_EVENT_NUM / 64\<close> words\<close>
  "valid_shmem sd \<longleftrightarrow> length (event_bits sd) = 16"

definition event_mask :: "int \<Rightarrow> 64 word" where
  "event_mask event_idx = push_bit (nat (event_idx mod word_bits)) 1"

definition word_index :: "int \<Rightarrow> nat" where
  "word_index event_idx = nat (event_idx div word_bits)"

definition bad_event :: "int \<Rightarrow> bool" where
  "bad_event event_idx \<longleftrightarrow> event_idx < 0 \<or> MAX_EVENT_NUM \<le> event_idx"

definition set_event_bit :: "system_data option \<Rightarrow> int \<Rightarrow> int \<times> system_data option" where
  "set_event_bit p event_idx = (case p of
     None \<Rightarrow> (- 1, None)
   | Some sd \<Rightarrow>
       (if bad_event event_idx then (- 1, p)
        else let wi = word_index event_idx; mask = event_mask event_idx
             in (0, Some (sd\<lparr>event_bits := (event_bits sd)[wi := event_bits sd ! wi OR mask]\<rparr>))))"

definition unset_event_bit :: "system_data option \<Rightarrow> int \<Rightarrow> int \<times> system_data option" where
  "unset_event_bit p event_idx = (case p of
     None \<Rightarrow> (- 1, None)
   | Some sd \<Rightarrow>
       (if bad_event event_idx then (- 1, p)
        else let wi = word_index event_idx; mask = event_mask event_idx
             in (0, Some (sd\<lparr>event_bits := (event_bits sd)[wi := event_bits sd ! wi AND NOT mask]\<rparr>))))"

definition test_event_bit :: "system_data option \<Rightarrow> int \<Rightarrow> bool" where
  "test_event_bit p event_idx = (case p of
     None \<Rightarrow> False
   | Some sd \<Rightarrow>
       (if bad_event event_idx then False
        else event_bits sd ! word_index event_idx AND event_mask event_idx \<noteq> 0))"

lemma word_index_bound: "\<not> bad_event i \<Longrightarrow> word_index i < 16"
  by (simp add: bad_event_def word_index_def word_bits_def MAX_EVENT_NUM_def) linarith

lemma bit_event_mask: "bit (event_mask i) n \<longleftrightarrow> n = nat (i mod word_bits)"
proof -
  have "nat (i mod 64) < 64" by simp
  then show ?thesis by (auto simp: event_mask_def word_bits_def bit_simps)
qed

lemma and_mask_nonzero: "w AND event_mask i \<noteq> 0 \<longleftrightarrow> bit w (nat (i mod word_bits))"
proof
  assume "bit w (nat (i mod word_bits))"
  then have "bit (w AND event_mask i) (nat (i mod word_bits))"
    by (simp add: bit_and_iff bit_event_mask)
  then show "w AND event_mask i \<noteq> 0" by auto
next
  assume "w AND event_mask i \<noteq> 0"
  then obtain n where "bit (w AND event_mask i) n" using bit_eqI [of "w AND event_mask i" 0] by auto
  then show "bit w (nat (i mod word_bits))" by (auto simp: bit_and_iff bit_event_mask)
qed

lemma event_slot_eq:
  "\<not> bad_event i \<Longrightarrow> \<not> bad_event j \<Longrightarrow>
   word_index i = word_index j \<and> nat (i mod word_bits) = nat (j mod word_bits) \<longleftrightarrow> i = j"
  by (auto simp: bad_event_def word_index_def word_bits_def)
    (metis div_mult_mod_eq eq_nat_nat_iff linorder_not_less pos_imp_zdiv_neg_iff
      zero_less_numeral pos_mod_sign)

lemma test_event_bit_Some:
  "test_event_bit (Some sd) i \<longleftrightarrow>
     \<not> bad_event i \<and> bit (event_bits sd ! word_index i) (nat (i mod word_bits))"
  by (simp add: test_event_bit_def and_mask_nonzero)

lemma set_event_bit_ok:
  assumes "valid_shmem sd" and "\<not> bad_event i" and "set_event_bit (Some sd) i = (r, p)"
  shows "r = 0" and "\<exists>sd'. p = Some sd' \<and> valid_shmem sd' \<and>
    busy_degree sd' = busy_degree sd \<and> futex_wake_seq sd' = futex_wake_seq sd"
    and "test_event_bit p j \<longleftrightarrow> j = i \<or> test_event_bit (Some sd) j"
proof -
  let ?ws = "(event_bits sd)[word_index i := event_bits sd ! word_index i OR event_mask i]"
  have p: "r = 0" "p = Some (sd\<lparr>event_bits := ?ws\<rparr>)"
    using assms by (auto simp: set_event_bit_def Let_def)
  then show "r = 0" and "\<exists>sd'. p = Some sd' \<and> valid_shmem sd' \<and>
    busy_degree sd' = busy_degree sd \<and> futex_wake_seq sd' = futex_wake_seq sd"
    using assms(1) by (auto simp: valid_shmem_def)
  have l: "word_index i < length (event_bits sd)"
    using assms word_index_bound by (simp add: valid_shmem_def)
  show "test_event_bit p j \<longleftrightarrow> j = i \<or> test_event_bit (Some sd) j"
    using l assms(2) event_slot_eq [of i j]
    by (cases "word_index i = word_index j")
      (auto simp: p test_event_bit_Some bit_or_iff bit_event_mask)
qed

lemma unset_event_bit_ok:
  assumes "valid_shmem sd" and "\<not> bad_event i" and "unset_event_bit (Some sd) i = (r, p)"
  shows "r = 0" and "\<exists>sd'. p = Some sd' \<and> valid_shmem sd' \<and>
    busy_degree sd' = busy_degree sd \<and> futex_wake_seq sd' = futex_wake_seq sd"
    and "test_event_bit p j \<longleftrightarrow> j \<noteq> i \<and> test_event_bit (Some sd) j"
proof -
  let ?ws = "(event_bits sd)[word_index i := event_bits sd ! word_index i AND NOT (event_mask i)]"
  have p: "r = 0" "p = Some (sd\<lparr>event_bits := ?ws\<rparr>)"
    using assms by (auto simp: unset_event_bit_def Let_def)
  then show "r = 0" and "\<exists>sd'. p = Some sd' \<and> valid_shmem sd' \<and>
    busy_degree sd' = busy_degree sd \<and> futex_wake_seq sd' = futex_wake_seq sd"
    using assms(1) by (auto simp: valid_shmem_def)
  have l: "word_index i < length (event_bits sd)"
    using assms word_index_bound by (simp add: valid_shmem_def)
  have n: "nat (j mod word_bits) < 64" by (simp add: word_bits_def)
  show "test_event_bit p j \<longleftrightarrow> j \<noteq> i \<and> test_event_bit (Some sd) j"
    using l n assms(2) event_slot_eq [of i j]
    by (cases "word_index i = word_index j")
      (auto simp: p test_event_bit_Some bit_and_iff bit_not_iff bit_event_mask)
qed

lemma event_bit_rejects:
  "bad_event i \<Longrightarrow> set_event_bit p i = (- 1, p) \<and> unset_event_bit p i = (- 1, p)"
  by (auto simp: set_event_bit_def unset_event_bit_def split: option.splits)

subsection \<open>The interface: a store of events\<close>

text \<open>
  What the daemon and the scheduled threads rely on: raising an event makes exactly that
  event test true, clearing it makes exactly that event test false, and both succeed.
\<close>

locale event_store =
  fixes raise_ev :: "'s \<Rightarrow> int \<Rightarrow> int \<times> 's"
    and clear_ev :: "'s \<Rightarrow> int \<Rightarrow> int \<times> 's"
    and test_ev :: "'s \<Rightarrow> int \<Rightarrow> bool"
    and inv :: "'s \<Rightarrow> bool"
    and dom_ev :: "int \<Rightarrow> bool"
  assumes raise_inv: "inv s \<Longrightarrow> dom_ev i \<Longrightarrow> inv (snd (raise_ev s i))"
    and raise_ret: "inv s \<Longrightarrow> dom_ev i \<Longrightarrow> fst (raise_ev s i) = 0"
    and raise_test: "inv s \<Longrightarrow> dom_ev i \<Longrightarrow> test_ev (snd (raise_ev s i)) j \<longleftrightarrow> j = i \<or> test_ev s j"
    and clear_inv: "inv s \<Longrightarrow> dom_ev i \<Longrightarrow> inv (snd (clear_ev s i))"
    and clear_ret: "inv s \<Longrightarrow> dom_ev i \<Longrightarrow> fst (clear_ev s i) = 0"
    and clear_test: "inv s \<Longrightarrow> dom_ev i \<Longrightarrow> test_ev (snd (clear_ev s i)) j \<longleftrightarrow> j \<noteq> i \<and> test_ev s j"
begin

definition active :: "'s \<Rightarrow> int set" where
  "active s = {j. test_ev s j}"

lemma active_raise: "inv s \<Longrightarrow> dom_ev i \<Longrightarrow> active (snd (raise_ev s i)) = insert i (active s)"
  by (auto simp: active_def raise_test)

lemma active_clear: "inv s \<Longrightarrow> dom_ev i \<Longrightarrow> active (snd (clear_ev s i)) = active s - {i}"
  by (auto simp: active_def clear_test)

definition apply_cmd :: "(bool \<times> int) \<Rightarrow> 's \<Rightarrow> 's" where
  "apply_cmd c s = snd (if fst c then raise_ev s (snd c) else clear_ev s (snd c))"

lemma inv_apply_cmd: "inv s \<Longrightarrow> dom_ev (snd c) \<Longrightarrow> inv (apply_cmd c s)"
  by (simp add: apply_cmd_def raise_inv clear_inv)

lemma test_apply_cmd:
  "inv s \<Longrightarrow> dom_ev (snd c) \<Longrightarrow>
   test_ev (apply_cmd c s) j \<longleftrightarrow> (if j = snd c then fst c else test_ev s j)"
  by (auto simp: apply_cmd_def raise_test clear_test)

text \<open>A run of commands: the last command that names an event decides its state.\<close>

lemma test_fold_cmds:
  assumes "inv s" and "list_all (\<lambda>c. dom_ev (snd c)) cs"
  shows "test_ev (fold apply_cmd cs s) j \<longleftrightarrow>
     (case find (\<lambda>c. snd c = j) (rev cs) of Some c \<Rightarrow> fst c | None \<Rightarrow> test_ev s j)" and "inv (fold apply_cmd cs s)"
  using assms
proof (induction cs rule: rev_induct)
  case Nil
  { case 1 then show ?case by simp }
  { case 2 then show ?case by simp }
next
  case (snoc c cs)
  { case 1 with snoc show ?case by (simp add: test_apply_cmd) }
  { case 2 with snoc show ?case by (simp add: inv_apply_cmd) }
qed

end

definition mapped :: "system_data option \<Rightarrow> bool" where
  \<comment> \<open>the daemon's pointer after \<open>get_shmem_data\<close> succeeded\<close>
  "mapped p \<longleftrightarrow> (\<exists>sd. p = Some sd \<and> valid_shmem sd)"

lemma mapped_set_unset:
  assumes "mapped p" and "\<not> bad_event i"
  shows "mapped (snd (set_event_bit p i))" and "fst (set_event_bit p i) = 0"
    and "test_event_bit (snd (set_event_bit p i)) j \<longleftrightarrow> j = i \<or> test_event_bit p j"
    and "mapped (snd (unset_event_bit p i))" and "fst (unset_event_bit p i) = 0"
    and "test_event_bit (snd (unset_event_bit p i)) j \<longleftrightarrow> j \<noteq> i \<and> test_event_bit p j"
proof -
  obtain sd where sd: "p = Some sd" "valid_shmem sd" using assms(1) by (auto simp: mapped_def)
  obtain r q where s: "set_event_bit (Some sd) i = (r, q)" by (cases "set_event_bit (Some sd) i")
  obtain r' q' where u: "unset_event_bit (Some sd) i = (r', q')" by (cases "unset_event_bit (Some sd) i")
  note S = set_event_bit_ok [OF sd(2) assms(2) s]
  note U = unset_event_bit_ok [OF sd(2) assms(2) u]
  show "mapped (snd (set_event_bit p i))" "fst (set_event_bit p i) = 0"
    "test_event_bit (snd (set_event_bit p i)) j \<longleftrightarrow> j = i \<or> test_event_bit p j"
    using S(1,2) S(3) [of j] by (auto simp: sd s mapped_def)
  show "mapped (snd (unset_event_bit p i))" "fst (unset_event_bit p i) = 0"
    "test_event_bit (snd (unset_event_bit p i)) j \<longleftrightarrow> j \<noteq> i \<and> test_event_bit p j"
    using U(1,2) U(3) [of j] by (auto simp: sd u mapped_def)
qed

interpretation shm: event_store set_event_bit unset_event_bit test_event_bit mapped
  "\<lambda>i. \<not> bad_event i"
  by unfold_locales (simp_all add: mapped_set_unset)

text \<open>
  C19: an event bit is exactly its event. On the daemon's shared memory, raising an event in
  range makes that event, and no other, test true; clearing it makes that event, and no
  other, test false; an index outside the range changes nothing and returns -1.
\<close>

theorem event_bits_correct:
  assumes "mapped p"
  shows "if bad_event i
    then set_event_bit p i = (- 1, p) \<and> unset_event_bit p i = (- 1, p) \<and> \<not> test_event_bit p i
    else fst (set_event_bit p i) = 0 \<and> fst (unset_event_bit p i) = 0 \<and>
      mapped (snd (set_event_bit p i)) \<and> mapped (snd (unset_event_bit p i)) \<and>
      (\<forall>j. test_event_bit (snd (set_event_bit p i)) j = (j = i \<or> test_event_bit p j)) \<and>
      (\<forall>j. test_event_bit (snd (unset_event_bit p i)) j = (j \<noteq> i \<and> test_event_bit p j))"
proof (cases "bad_event i")
  case True
  with assms show ?thesis
    by (auto simp: event_bit_rejects mapped_def test_event_bit_Some)
next
  case False
  with assms show ?thesis
    by (simp add: shm.raise_ret shm.clear_ret shm.raise_inv shm.clear_inv shm.raise_test
        shm.clear_test)
qed

theorem event_bits_correct_witness:
  "\<exists>p. mapped p \<and> test_event_bit (snd (set_event_bit p 70)) 70
     \<and> \<not> test_event_bit (snd (unset_event_bit p 70)) 70"
proof -
  have "mapped (Some \<lparr>busy_degree = SYSTEM_IDLE, futex_wake_seq = 0, event_bits = replicate 16 0\<rparr>)"
    by (simp add: mapped_def valid_shmem_def)
  from event_bits_correct [OF this, of 70] this show ?thesis
    by (auto simp: bad_event_def MAX_EVENT_NUM_def)
qed

end
