(* ===== verification/EventTable.thy ===== *)
theory EventTable
  imports CTypes SharedData
begin

text \<open>
  The execution contexts of a thread (\<open>LocalContext\<close> of \<open>inc/robflex_def.h\<close>) and the table
  that maps events to contexts, in the array version every build uses. The union
  \<open>uAuxData\<close> is one store of 64-bit cells, that of its largest member \<open>lat\<close>; the member
  \<open>norm\<close> is a view of the first two cells, so that writing one member changes the other
  as it does in memory.
\<close>

subsection \<open>Contexts\<close>

definition YIELDING :: int where "YIELDING = 0"
definition PREDETERMINED :: int where "PREDETERMINED = 1"
definition IMMEDIATE :: int where "IMMEDIATE = 2"
definition LATENCY_ORIENTED :: int where "LATENCY_ORIENTED = 3"
definition BY_HANDLER :: int where "BY_HANDLER = 4"

lemmas policy_defs = YIELDING_def PREDETERMINED_def IMMEDIATE_def LATENCY_ORIENTED_def BY_HANDLER_def

record aux_data =
  target_lat :: u64
  start_time :: u64
  hist_ncycle :: u64
  used_ncycle :: u64
  lat_bias :: u64 \<comment> \<open>\<open>long long\<close>, read with \<open>sint\<close>\<close>
  total_latency :: u64
  used_latency :: u64

definition time_slice_ns :: "aux_data \<Rightarrow> u64" where
  "time_slice_ns a = target_lat a"

definition time_budgets :: "aux_data \<Rightarrow> u64" where
  "time_budgets a = start_time a"

definition set_time_slice_ns :: "u64 \<Rightarrow> aux_data \<Rightarrow> aux_data" where
  "set_time_slice_ns x a = a\<lparr>target_lat := x\<rparr>"

definition set_time_budgets :: "u64 \<Rightarrow> aux_data \<Rightarrow> aux_data" where
  "set_time_budgets x a = a\<lparr>start_time := x\<rparr>"

record local_context =
  policy :: int
  aux :: aux_data
  level :: int
  cycles_num :: u64
  avg_timecost_ns :: u64

definition zero_aux :: aux_data where
  "zero_aux = \<lparr>target_lat = 0, start_time = 0, hist_ncycle = 0, used_ncycle = 0, lat_bias = 0,
     total_latency = 0, used_latency = 0\<rparr>"

definition zero_context :: local_context where
  "zero_context = \<lparr>policy = 0, aux = zero_aux, level = 0, cycles_num = 0, avg_timecost_ns = 0\<rparr>"

subsection \<open>The table\<close>

definition ROBFLEX_MAX_LOCAL_EVENT_CTX :: nat where
  "ROBFLEX_MAX_LOCAL_EVENT_CTX = 8"

record event_entry =
  ev_idx :: int
  in_use :: bool
  ev_ctx :: local_context

record event_table =
  entry_count :: int
  entries :: "event_entry list"

definition event_table_init :: "event_table \<Rightarrow> event_table" where
  "event_table_init t = t\<lparr>entry_count := 0,
     entries := map (\<lambda>e. e\<lparr>ev_idx := ROBFLEX_EVENT_NONE, in_use := False\<rparr>) (entries t)\<rparr>"

fun first_index :: "('a \<Rightarrow> bool) \<Rightarrow> 'a list \<Rightarrow> nat option" where
  \<comment> \<open>a \<open>for\<close> loop that returns at the first entry it looks for\<close>
  "first_index P [] = None"
| "first_index P (x # xs) = (if P x then Some 0 else map_option Suc (first_index P xs))"

definition find_entry :: "event_table \<Rightarrow> int \<Rightarrow> nat option" where
  "find_entry t event_idx =
     (if event_idx \<le> ROBFLEX_EVENT_NONE then None
      else first_index (\<lambda>e. in_use e \<and> ev_idx e = event_idx) (entries t))"

definition event_table_upsert :: "int \<Rightarrow> local_context \<Rightarrow> event_table \<Rightarrow> int \<times> event_table" where
  "event_table_upsert event_idx ctx t =
     (if event_idx \<le> ROBFLEX_EVENT_NONE then (- 1, t)
      else case find_entry t event_idx of
        Some i \<Rightarrow> (0, t\<lparr>entries := (entries t)[i := (entries t ! i)\<lparr>ev_ctx := ctx\<rparr>]\<rparr>)
      | None \<Rightarrow>
          (case first_index (\<lambda>e. \<not> in_use e) (entries t) of
             Some i \<Rightarrow> (0, t\<lparr>
               entries := (entries t)[i := \<lparr>ev_idx = event_idx, in_use = True, ev_ctx = ctx\<rparr>],
               entry_count := entry_count t + 1\<rparr>)
           | None \<Rightarrow> (- 1, t)))"

definition event_table_erase :: "int \<Rightarrow> event_table \<Rightarrow> int \<times> event_table" where
  "event_table_erase event_idx t = (case find_entry t event_idx of
     None \<Rightarrow> (- 1, t)
   | Some i \<Rightarrow> (0, t\<lparr>
       entries := (entries t)[i := (entries t ! i)\<lparr>in_use := False, ev_idx := ROBFLEX_EVENT_NONE\<rparr>],
       entry_count := (if 0 < entry_count t then entry_count t - 1 else entry_count t)\<rparr>))"

definition event_table_get_ctx :: "event_table \<Rightarrow> int \<Rightarrow> local_context option" where
  "event_table_get_ctx t event_idx =
     map_option (\<lambda>i. ev_ctx (entries t ! i)) (find_entry t event_idx)"

subsection \<open>Searching and updating entries\<close>

lemma first_index_None [simp]: "first_index P xs = None \<longleftrightarrow> (\<forall>x \<in> set xs. \<not> P x)"
  by (induction xs) auto

lemma first_index_SomeD: "first_index P xs = Some i \<Longrightarrow> i < length xs \<and> P (xs ! i)"
  by (induction xs arbitrary: i) (auto split: if_splits)

lemma length_filter_update:
  assumes "i < length xs"
  shows "length (filter P (xs[i := x])) + (if P (xs ! i) then 1 else 0) =
    length (filter P xs) + (if P x then 1 else 0)"
  using assms
proof (induction xs arbitrary: i)
  case (Cons a xs)
  then show ?case using Cons.IH [of "i - 1"] by (cases i) (auto split: if_splits)
qed simp

definition unique_events :: "event_entry list \<Rightarrow> bool" where
  "unique_events es \<longleftrightarrow> (\<forall>i < length es. \<forall>j < length es.
     in_use (es ! i) \<and> in_use (es ! j) \<and> ev_idx (es ! i) = ev_idx (es ! j) \<longrightarrow> i = j)"

definition table_ok :: "event_table \<Rightarrow> bool" where
  "table_ok t \<longleftrightarrow> length (entries t) = ROBFLEX_MAX_LOCAL_EVENT_CTX \<and> unique_events (entries t) \<and>
     entry_count t = int (length (filter in_use (entries t))) \<and>
     (\<forall>e \<in> set (entries t). if in_use e then ROBFLEX_EVENT_NONE < ev_idx e \<and> ev_idx e < MAX_EVENT_NUM
        else ev_idx e = ROBFLEX_EVENT_NONE)"

lemma unique_eventsD:
  "unique_events es \<Longrightarrow> i < length es \<Longrightarrow> j < length es \<Longrightarrow> in_use (es ! i) \<Longrightarrow> in_use (es ! j) \<Longrightarrow>
   ev_idx (es ! i) = ev_idx (es ! j) \<Longrightarrow> i = j"
  by (simp add: unique_events_def)

lemma find_entry_SomeD:
  assumes "find_entry t e = Some i"
  shows "i < length (entries t)" "in_use (entries t ! i)" "ev_idx (entries t ! i) = e"
    "ROBFLEX_EVENT_NONE < e"
  using assms first_index_SomeD by (fastforce simp: find_entry_def split: if_splits)+

lemma find_entry_None:
  "ROBFLEX_EVENT_NONE < e \<Longrightarrow> find_entry t e = None \<longleftrightarrow>
     (\<forall>x \<in> set (entries t). in_use x \<longrightarrow> ev_idx x \<noteq> e)"
  by (auto simp: find_entry_def)

lemma find_entry_Some:
  assumes "unique_events (entries t)" "ROBFLEX_EVENT_NONE < e"
  shows "find_entry t e = Some i \<longleftrightarrow>
    i < length (entries t) \<and> in_use (entries t ! i) \<and> ev_idx (entries t ! i) = e"
proof
  assume "i < length (entries t) \<and> in_use (entries t ! i) \<and> ev_idx (entries t ! i) = e"
  moreover then obtain j where "find_entry t e = Some j"
    using find_entry_None [OF assms(2), of t] by (metis not_None_eq nth_mem)
  ultimately show "find_entry t e = Some i"
    using find_entry_SomeD [of t e j] unique_eventsD [OF assms(1)] by metis
qed (use find_entry_SomeD in blast)

lemma get_ctx_Some:
  assumes "unique_events (entries t)" "ROBFLEX_EVENT_NONE < e"
  shows "event_table_get_ctx t e = Some c \<longleftrightarrow>
    (\<exists>i < length (entries t). in_use (entries t ! i) \<and> ev_idx (entries t ! i) = e \<and>
       ev_ctx (entries t ! i) = c)"
  using find_entry_Some [OF assms] by (auto simp: event_table_get_ctx_def)

lemma get_ctx_bad [simp]: "e \<le> ROBFLEX_EVENT_NONE \<Longrightarrow> event_table_get_ctx t e = None"
  by (simp add: event_table_get_ctx_def find_entry_def)

subsection \<open>The table is a map of bounded size\<close>

text \<open>
  What the functions that use the table rely on, independently of how it is stored.
\<close>

locale bounded_map =
  fixes inv :: "'t \<Rightarrow> bool"
    and lookup :: "'t \<Rightarrow> int \<Rightarrow> 'c option"
    and insert_at :: "int \<Rightarrow> 'c \<Rightarrow> 't \<Rightarrow> int \<times> 't"
    and remove_at :: "int \<Rightarrow> 't \<Rightarrow> int \<times> 't"
    and valid :: "int \<Rightarrow> bool"
    and capacity :: nat
  assumes insert_inv: "inv t \<Longrightarrow> valid e \<Longrightarrow> inv (snd (insert_at e c t))"
    and insert_lookup: "inv t \<Longrightarrow> valid e \<Longrightarrow> lookup (snd (insert_at e c t)) =
      (if fst (insert_at e c t) = 0 then (lookup t)(e \<mapsto> c) else lookup t)"
    and insert_status: "inv t \<Longrightarrow> valid e \<Longrightarrow> fst (insert_at e c t) =
      (if lookup t e \<noteq> None \<or> card (dom (lookup t)) < capacity then 0 else - 1)"
    and remove_inv: "inv t \<Longrightarrow> valid e \<Longrightarrow> inv (snd (remove_at e t))"
    and remove_lookup: "inv t \<Longrightarrow> valid e \<Longrightarrow> lookup (snd (remove_at e t)) = (lookup t)(e := None)"
    and remove_status: "inv t \<Longrightarrow> valid e \<Longrightarrow> fst (remove_at e t) =
      (if lookup t e = None then - 1 else 0)"

text \<open>The specification: a finite map that takes at most \<open>cap\<close> keys.\<close>

datatype 'c map_op = Upsert int 'c | Erase int

fun op_key :: "'c map_op \<Rightarrow> int" where
  "op_key (Upsert e c) = e"
| "op_key (Erase e) = e"

fun spec_op :: "nat \<Rightarrow> 'c map_op \<Rightarrow> (int \<rightharpoonup> 'c) \<Rightarrow> int \<times> (int \<rightharpoonup> 'c)" where
  "spec_op cap (Upsert e c) m =
     (if m e \<noteq> None \<or> card (dom m) < cap then (0, m(e \<mapsto> c)) else (- 1, m))"
| "spec_op cap (Erase e) m = (if m e = None then (- 1, m) else (0, m(e := None)))"

fun run_ops :: "('c map_op \<Rightarrow> 't \<Rightarrow> int \<times> 't) \<Rightarrow> 'c map_op list \<Rightarrow> 't \<Rightarrow> int list \<times> 't" where
  "run_ops step [] t = ([], t)"
| "run_ops step (x # xs) t =
     (let (r, t1) = step x t; (rs, t2) = run_ops step xs t1 in (r # rs, t2))"

context bounded_map
begin

fun op_step :: "'c map_op \<Rightarrow> 't \<Rightarrow> int \<times> 't" where
  "op_step (Upsert e c) t = insert_at e c t"
| "op_step (Erase e) t = remove_at e t"

lemma op_step_inv: "inv t \<Longrightarrow> valid (op_key x) \<Longrightarrow> inv (snd (op_step x t))"
  by (cases x) (simp_all add: insert_inv remove_inv)

lemma op_step_spec:
  "inv t \<Longrightarrow> valid (op_key x) \<Longrightarrow>
   spec_op capacity x (lookup t) = (fst (op_step x t), lookup (snd (op_step x t)))"
  by (cases x) (auto simp: insert_lookup insert_status remove_lookup remove_status)

lemma run_ops_spec:
  "inv t \<Longrightarrow> list_all (valid \<circ> op_key) xs \<Longrightarrow>
   inv (snd (run_ops op_step xs t)) \<and>
   run_ops (spec_op capacity) xs (lookup t) =
     (fst (run_ops op_step xs t), lookup (snd (run_ops op_step xs t)))"
proof (induction xs arbitrary: t)
  case (Cons x xs)
  then show ?case using op_step_inv [of t x] op_step_spec [of t x] Cons.IH [of "snd (op_step x t)"]
    by (auto simp: case_prod_beta Let_def)
qed simp

end

subsection \<open>The array implements it\<close>

definition valid_event :: "int \<Rightarrow> bool" where
  "valid_event e \<longleftrightarrow> ROBFLEX_EVENT_NONE < e \<and> e < MAX_EVENT_NUM"

definition slot :: "int \<Rightarrow> local_context \<Rightarrow> event_entry" where
  "slot e c = \<lparr>ev_idx = e, in_use = True, ev_ctx = c\<rparr>"

lemma slot_simps [simp]: "ev_idx (slot e c) = e" "in_use (slot e c)" "ev_ctx (slot e c) = c"
  by (simp_all add: slot_def)

lemma same_slot: "in_use x \<Longrightarrow> ev_idx x = e \<Longrightarrow> x\<lparr>ev_ctx := c\<rparr> = slot e c"
  by (simp add: slot_def)

lemma card_dom_ctx:
  assumes "table_ok t"
  shows "card (dom (event_table_get_ctx t)) = length (filter in_use (entries t))"
proof -
  let ?I = "{i. i < length (entries t) \<and> in_use (entries t ! i)}"
  have u: "unique_events (entries t)"
    and r: "\<And>i. i \<in> ?I \<Longrightarrow> ROBFLEX_EVENT_NONE < ev_idx (entries t ! i)"
    using assms by (auto simp: table_ok_def)
  have "dom (event_table_get_ctx t) = (\<lambda>i. ev_idx (entries t ! i)) ` ?I"
  proof (rule set_eqI)
    fix e
    show "e \<in> dom (event_table_get_ctx t) \<longleftrightarrow> e \<in> (\<lambda>i. ev_idx (entries t ! i)) ` ?I"
      using r get_ctx_Some [OF u, of e] by (cases "ROBFLEX_EVENT_NONE < e") (auto simp: image_iff dom_def)
  qed
  moreover have "inj_on (\<lambda>i. ev_idx (entries t ! i)) ?I"
    using unique_eventsD [OF u] by (auto simp: inj_on_def)
  ultimately have "card (dom (event_table_get_ctx t)) = card ?I" by (simp add: card_image)
  then show ?thesis by (simp add: length_filter_conv_card)
qed

lemma option_ext: "(\<And>d. x = Some d \<longleftrightarrow> y = Some d) \<Longrightarrow> x = y"
  by (cases x; cases y) auto

lemma ctx_mapI:
  assumes "unique_events (entries t)" "unique_events (entries t')" "\<And>x. x \<le> ROBFLEX_EVENT_NONE \<Longrightarrow> m x = None"
    and "\<And>x d. ROBFLEX_EVENT_NONE < x \<Longrightarrow>
      (\<exists>i < length (entries t'). in_use (entries t' ! i) \<and> ev_idx (entries t' ! i) = x \<and> ev_ctx (entries t' ! i) = d)
      \<longleftrightarrow> m x = Some d"
  shows "event_table_get_ctx t' = m"
proof
  fix x
  show "event_table_get_ctx t' x = m x"
  proof (cases "ROBFLEX_EVENT_NONE < x")
    case True
    show ?thesis by (rule option_ext) (simp add: get_ctx_Some [OF assms(2) True] assms(4) [OF True])
  qed (simp add: assms(3))
qed

lemma write_slot:
  assumes ok: "table_ok t" and e: "valid_event e" and i: "i < length (entries t)"
    and c: "in_use (entries t ! i) \<and> ev_idx (entries t ! i) = e \<or>
      \<not> in_use (entries t ! i) \<and> find_entry t e = None"
    and t': "entries t' = (entries t)[i := slot e c]"
      "entry_count t' = entry_count t + (if in_use (entries t ! i) then 0 else 1)"
  shows "table_ok t'" and "event_table_get_ctx t' = (event_table_get_ctx t)(e \<mapsto> c)"
proof -
  have e0: "ROBFLEX_EVENT_NONE < e" using e by (simp add: valid_event_def)
  have u: "unique_events (entries t)" using ok by (simp add: table_ok_def)
  have other: "ev_idx (entries t ! j) \<noteq> e" if "j < length (entries t)" "in_use (entries t ! j)" "j \<noteq> i" for j
    using c that i unique_eventsD [OF u] find_entry_None [OF e0, of t] by (metis nth_mem)
  have u': "unique_events (entries t')"
    using u other i unfolding unique_events_def t' by (auto simp: nth_list_update)
  show "table_ok t'"
    using ok u' e i length_filter_update [OF i, of in_use "slot e c"] set_update_subset_insert [of "entries t" i "slot e c"]
    by (auto simp: table_ok_def t' valid_event_def split: if_splits)
  show "event_table_get_ctx t' = (event_table_get_ctx t)(e \<mapsto> c)"
  proof (rule ctx_mapI [OF u u'])
    fix x d
    assume x: "ROBFLEX_EVENT_NONE < x"
    show "(\<exists>k < length (entries t'). in_use (entries t' ! k) \<and> ev_idx (entries t' ! k) = x \<and>
        ev_ctx (entries t' ! k) = d) \<longleftrightarrow> ((event_table_get_ctx t)(e \<mapsto> c)) x = Some d"
    proof (cases "x = e")
      case True
      then show ?thesis using i other by (auto simp: t' nth_list_update)
    next
      case False
      have "in_use (entries t ! i) \<Longrightarrow> ev_idx (entries t ! i) \<noteq> x" using c False by auto
      then have "(in_use (entries t ! k) \<and> ev_idx (entries t ! k) = x) \<longrightarrow> k \<noteq> i" for k by auto
      then have "(\<exists>k < length (entries t'). in_use (entries t' ! k) \<and> ev_idx (entries t' ! k) = x \<and>
          ev_ctx (entries t' ! k) = d) \<longleftrightarrow> event_table_get_ctx t x = Some d"
        unfolding get_ctx_Some [OF u x] t' length_list_update
        using False i by (intro ex_cong1) (auto simp: nth_list_update)
      then show ?thesis using False by simp
    qed
  qed (use e0 in simp)
qed

lemma free_slot:
  assumes "table_ok t"
  shows "first_index (\<lambda>e. \<not> in_use e) (entries t) = None \<longleftrightarrow>
    card (dom (event_table_get_ctx t)) \<ge> ROBFLEX_MAX_LOCAL_EVENT_CTX"
proof -
  have "length (entries t) = ROBFLEX_MAX_LOCAL_EVENT_CTX" using assms by (simp add: table_ok_def)
  moreover have "length (filter in_use (entries t)) = length (entries t) \<longleftrightarrow> (\<forall>x \<in> set (entries t). in_use x)"
    by (metis filter_True length_filter_less less_irrefl)
  ultimately show ?thesis
    using card_dom_ctx [OF assms] length_filter_le [of in_use "entries t"] by simp linarith
qed

lemma upsert_laws:
  fixes c :: local_context
  assumes ok: "table_ok t" and e: "valid_event e"
  defines "r \<equiv> event_table_upsert e c t"
  shows "table_ok (snd r) \<and>
    fst r = (if event_table_get_ctx t e \<noteq> None \<or>
      card (dom (event_table_get_ctx t)) < ROBFLEX_MAX_LOCAL_EVENT_CTX then 0 else - 1) \<and>
    event_table_get_ctx (snd r) =
      (if fst r = 0 then (event_table_get_ctx t)(e \<mapsto> c) else event_table_get_ctx t)"
proof -
  have e0: "\<not> e \<le> ROBFLEX_EVENT_NONE" using e by (simp add: valid_event_def)
  show ?thesis
  proof (cases "find_entry t e")
    case (Some i)
    note f = find_entry_SomeD [OF Some]
    let ?t = "t\<lparr>entries := (entries t)[i := slot e c]\<rparr>"
    have "r = (0, ?t)" using Some e0 same_slot [OF f(2,3)] by (simp add: r_def event_table_upsert_def)
    moreover have "event_table_get_ctx t e \<noteq> None" using Some by (simp add: event_table_get_ctx_def)
    ultimately show ?thesis using write_slot [OF ok e f(1), of ?t c] f(2,3) by simp
  next
    case None
    then have g: "event_table_get_ctx t e = None" by (simp add: event_table_get_ctx_def)
    show ?thesis
    proof (cases "first_index (\<lambda>x. \<not> in_use x) (entries t)")
      case full: None
      have "r = (- 1, t)" using None e0 by (simp add: r_def event_table_upsert_def full del: first_index_None)
      then show ?thesis using ok g full free_slot [OF ok] by simp
    next
      case free: (Some i)
      note f = first_index_SomeD [OF free]
      let ?t = "t\<lparr>entries := (entries t)[i := slot e c], entry_count := entry_count t + 1\<rparr>"
      have "r = (0, ?t)" using None free e0 by (simp add: r_def event_table_upsert_def slot_def)
      moreover have "card (dom (event_table_get_ctx t)) < ROBFLEX_MAX_LOCAL_EVENT_CTX"
        using free free_slot [OF ok] by force
      ultimately show ?thesis using write_slot [OF ok e, of i ?t c] f None by simp
    qed
  qed
qed

lemma erase_laws:
  assumes ok: "table_ok t" and e: "valid_event e"
  defines "r \<equiv> event_table_erase e t"
  shows "table_ok (snd r) \<and> fst r = (if event_table_get_ctx t e = None then - 1 else 0) \<and>
    event_table_get_ctx (snd r) = (event_table_get_ctx t)(e := None)"
proof (cases "find_entry t e")
  case None
  then have g: "event_table_get_ctx t e = None" by (simp add: event_table_get_ctx_def)
  moreover from this have "(event_table_get_ctx t)(e := None) = event_table_get_ctx t" by auto
  ultimately show ?thesis using None ok by (simp add: r_def event_table_erase_def)
next
  case (Some i)
  note f = find_entry_SomeD [OF Some]
  let ?x = "(entries t ! i)\<lparr>in_use := False, ev_idx := ROBFLEX_EVENT_NONE\<rparr>"
  let ?t = "t\<lparr>entries := (entries t)[i := ?x], entry_count := entry_count t - 1\<rparr>"
  have u: "unique_events (entries t)" using ok by (simp add: table_ok_def)
  have "entries t ! i \<in> set (filter in_use (entries t))" using f by simp
  then have "0 < length (filter in_use (entries t))" by (cases "filter in_use (entries t)") auto
  then have r: "r = (0, ?t)" using Some ok by (simp add: r_def event_table_erase_def table_ok_def)
  have u': "unique_events (entries ?t)"
    using u f(1) unfolding unique_events_def by (auto simp: nth_list_update)
  have "table_ok ?t"
    using ok u' f length_filter_update [OF f(1), of in_use ?x] set_update_subset_insert [of "entries t" i ?x]
    by (auto simp: table_ok_def)
  moreover have "event_table_get_ctx ?t = (event_table_get_ctx t)(e := None)"
  proof (rule ctx_mapI [OF u u'])
    fix x d
    assume x: "ROBFLEX_EVENT_NONE < x"
    show "(\<exists>k < length (entries ?t). in_use (entries ?t ! k) \<and> ev_idx (entries ?t ! k) = x \<and>
        ev_ctx (entries ?t ! k) = d) \<longleftrightarrow> ((event_table_get_ctx t)(e := None)) x = Some d"
    proof (cases "x = e")
      case True
      then show ?thesis using f(1) unique_eventsD [OF u _ f(1) _ f(2)] f(3) by (auto simp: nth_list_update)
    next
      case False
      then have "(\<exists>k < length (entries ?t). in_use (entries ?t ! k) \<and> ev_idx (entries ?t ! k) = x \<and>
          ev_ctx (entries ?t ! k) = d) \<longleftrightarrow> event_table_get_ctx t x = Some d"
        unfolding get_ctx_Some [OF u x]
        using f(1,3) by (intro ex_cong1) (auto simp: nth_list_update)
      then show ?thesis using False by simp
    qed
  qed simp
  moreover have "event_table_get_ctx t e \<noteq> None" using Some by (simp add: event_table_get_ctx_def)
  ultimately show ?thesis using r by simp
qed

interpretation ctxs: bounded_map table_ok event_table_get_ctx event_table_upsert event_table_erase
  valid_event ROBFLEX_MAX_LOCAL_EVENT_CTX
  using upsert_laws erase_laws by unfold_locales simp_all

fun table_step :: "local_context map_op \<Rightarrow> event_table \<Rightarrow> int \<times> event_table" where
  "table_step (Upsert e c) t = event_table_upsert e c t"
| "table_step (Erase e) t = event_table_erase e t"

lemma table_step_op_step: "table_step = ctxs.op_step"
proof (intro ext)
  fix x t
  show "table_step x t = ctxs.op_step x t" by (cases x) simp_all
qed

lemma init_ok:
  assumes "length (entries t) = ROBFLEX_MAX_LOCAL_EVENT_CTX"
  shows "table_ok (event_table_init t)" "event_table_get_ctx (event_table_init t) = Map.empty"
proof -
  have f: "\<not> in_use e" if "e \<in> set (entries (event_table_init t))" for e
    using that by (auto simp: event_table_init_def)
  have g: "filter in_use (entries (event_table_init t)) = []" using f by (simp add: filter_empty_conv)
  have u: "unique_events (entries (event_table_init t))"
    using f nth_mem by (fastforce simp: unique_events_def)
  have n: "entry_count (event_table_init t) = 0"
    "length (entries (event_table_init t)) = ROBFLEX_MAX_LOCAL_EVENT_CTX"
    using assms by (simp_all add: event_table_init_def)
  have "ev_idx e = ROBFLEX_EVENT_NONE" if "e \<in> set (entries (event_table_init t))" for e
    using that by (auto simp: event_table_init_def)
  then show "table_ok (event_table_init t)" unfolding table_ok_def using f g u n by simp
  show "event_table_get_ctx (event_table_init t) = Map.empty"
  proof (rule ext)
    fix x
    have "find_entry (event_table_init t) x \<noteq> Some i" for i
      using f find_entry_SomeD(1,2) [of "event_table_init t" x i] by auto
    then have "find_entry (event_table_init t) x = None" by (cases "find_entry (event_table_init t) x") auto
    then show "event_table_get_ctx (event_table_init t) x = Map.empty x"
      by (simp add: event_table_get_ctx_def)
  qed
qed

text \<open>
  C12: the event table is a map with eight places. After \<open>robflex_event_table_init\<close>, any
  sequence of insertions and removals of valid events answers with the statuses, and holds
  the contexts, of a finite map that refuses a new key when it holds eight; the entry
  count, the uniqueness of events and their range are kept throughout.
\<close>

theorem event_table_refines_map:
  assumes "length (entries t) = ROBFLEX_MAX_LOCAL_EVENT_CTX"
    and "list_all (valid_event \<circ> op_key) xs"
  shows "table_ok (snd (run_ops table_step xs (event_table_init t))) \<and>
    run_ops (spec_op ROBFLEX_MAX_LOCAL_EVENT_CTX) xs Map.empty =
      (fst (run_ops table_step xs (event_table_init t)),
       event_table_get_ctx (snd (run_ops table_step xs (event_table_init t))))"
  using ctxs.run_ops_spec [OF init_ok(1) [OF assms(1)] assms(2)] init_ok(2) [OF assms(1)]
  by (simp add: table_step_op_step)

theorem event_table_refines_map_witness:
  "fst (run_ops (spec_op 8) [Upsert 1 zero_context, Upsert 1 zero_context, Erase 2, Erase 1, Erase 1] Map.empty) =
     [0, 0, - 1, 0, - 1]"
proof -
  let ?t = "\<lparr>entry_count = 0, entries = replicate 8 \<lparr>ev_idx = 7, in_use = True, ev_ctx = zero_context\<rparr>\<rparr>"
  let ?xs = "[Upsert 1 zero_context, Upsert 1 zero_context, Erase 2, Erase 1, Erase 1]"
  have a: "fst (run_ops table_step ?xs (event_table_init ?t)) = [0, 0, - 1, 0, - 1]" by code_simp
  have l: "length (entries ?t) = ROBFLEX_MAX_LOCAL_EVENT_CTX" "list_all (valid_event \<circ> op_key) ?xs"
    by (code_simp, code_simp)
  have "ROBFLEX_MAX_LOCAL_EVENT_CTX = 8" by (simp add: ROBFLEX_MAX_LOCAL_EVENT_CTX_def)
  then show ?thesis using conjunct2 [OF event_table_refines_map [OF l]] a by (simp only: fst_conv)
qed

end
