(* ===== verification/TickHandler.thy ===== *)
theory TickHandler
  imports EventTable "HOL-Library.Monad_Syntax"
begin

text \<open>
  The tick handlers of the library (\<open>src/dym_hook.c\<close>): what a thread does when its cycle
  counter overflows. The state is the thread's (its own context, its event contexts, the
  critical-section flags, the clock variables); the operating system is a parameter, a record
  of the calls the handlers make. Dereferencing the shared memory before it is mapped is
  undefined behaviour: the result is then \<open>None\<close>.
\<close>

subsection \<open>The thread's state\<close>

record 'w platform =
  clock :: "'w \<Rightarrow> u64 \<times> 'w" \<comment> \<open>\<open>clock_gettime(CLOCK_MONOTONIC)\<close> in nanoseconds\<close>
  futex_wait :: "u64 \<Rightarrow> 'w \<Rightarrow> 'w" \<comment> \<open>its result is ignored by the callers\<close>
  sched_yield :: "'w \<Rightarrow> 'w"
  reset_counter :: "'w \<Rightarrow> 'w" \<comment> \<open>\<open>ioctl(PERF_EVENT_IOC_RESET)\<close>\<close>
  shared :: "'w \<Rightarrow> system_data" \<comment> \<open>what the mapping of the shared memory holds\<close>
  getenv :: "'w \<Rightarrow> string \<Rightarrow> string option"
  c_socket :: "'w \<Rightarrow> int \<times> 'w"
  c_sendto :: "int \<Rightarrow> string \<Rightarrow> string \<Rightarrow> 'w \<Rightarrow> int \<times> 'w"
  c_gettid :: "'w \<Rightarrow> int"

record 'w lib =
  loc_ctx :: local_context
  event_map :: event_table
  in_critical :: bool
  n_signal_pendings :: u32
  ptr_mapped :: bool \<comment> \<open>\<open>ptr_shmem\<close> of \<open>robflex_api.c\<close> is not NULL\<close>
  g_mapped :: bool \<comment> \<open>\<open>g_shmem_data\<close> of \<open>dym_hook.c\<close> is not NULL\<close>
  interrupt_count :: u32
  sleeped_time :: u64
  avg_cost :: u64 \<comment> \<open>the thread variable \<open>avg_timecost_ns\<close>, not the field of a context\<close>
  past :: u64
  now_ns :: u64
  diff_ns :: u64
  socket_fd :: int
  arrivals :: "nat list" \<comment> \<open>how many ticks arrive before each next statement of the thread\<close>
  contexts :: "nat \<Rightarrow> local_context option" \<comment> \<open>the contexts that callers own, by address\<close>
  kworld :: 'w

datatype ctx_ref = Own | Slot nat \<comment> \<open>what a \<open>LocalContext *\<close> points to in a handler\<close>

definition read_ctx :: "ctx_ref \<Rightarrow> 'w lib \<Rightarrow> local_context" where
  "read_ctx r s = (case r of Own \<Rightarrow> loc_ctx s | Slot i \<Rightarrow> ev_ctx (entries (event_map s) ! i))"

definition write_ctx :: "ctx_ref \<Rightarrow> local_context \<Rightarrow> 'w lib \<Rightarrow> 'w lib" where
  "write_ctx r c s = (case r of
     Own \<Rightarrow> s\<lparr>loc_ctx := c\<rparr>
   | Slot i \<Rightarrow> s\<lparr>event_map := (event_map s)\<lparr>entries :=
       (entries (event_map s))[i := (entries (event_map s) ! i)\<lparr>ev_ctx := c\<rparr>]\<rparr>\<rparr>)"

definition upd_aux :: "ctx_ref \<Rightarrow> (aux_data \<Rightarrow> aux_data) \<Rightarrow> 'w lib \<Rightarrow> 'w lib" where
  "upd_aux r f s = write_ctx r ((read_ctx r s)\<lparr>aux := f (aux (read_ctx r s))\<rparr>) s"

definition read_clock :: "'w platform \<Rightarrow> 'w lib \<Rightarrow> u64 \<times> 'w lib" where
  "read_clock P s = (let (t, w) = clock P (kworld s) in (t, s\<lparr>kworld := w\<rparr>))"

definition DEFUALT_PERIOD_CYCLES_NUM :: u64 where
  "DEFUALT_PERIOD_CYCLES_NUM = 1000 * 1000"

definition DEFUALT_PERIOD_TIME_IN_NS :: u64 where
  "DEFUALT_PERIOD_TIME_IN_NS = 1000 * 1000"

definition get_instr_slice :: "'w platform \<Rightarrow> 'w \<Rightarrow> u64" where
  "get_instr_slice P w = (case getenv P w ''ROBFLEX_CYCLES_NUM'' of
     Some e \<Rightarrow> umax 1000 (strtoull e)
   | None \<Rightarrow> DEFUALT_PERIOD_CYCLES_NUM)"

definition system_busy_degree :: "'w platform \<Rightarrow> 'w lib \<Rightarrow> busy_degree option" where
  "system_busy_degree P s = (if ptr_mapped s then Some (busy_degree (shared P (kworld s))) else None)"

definition test_event :: "'w platform \<Rightarrow> int \<Rightarrow> 'w lib \<Rightarrow> bool option" where
  \<comment> \<open>only -1 is guarded: another index outside the array is undefined behaviour\<close>
  "test_event P event_idx s =
     (if event_idx = - 1 then Some False
      else if \<not> ptr_mapped s \<or> event_idx < 0 \<or> MAX_EVENT_NUM \<le> event_idx then None
      else Some (event_bits (shared P (kworld s)) ! nat (event_idx div 64)
                   AND push_bit (nat (event_idx mod 64)) 1 \<noteq> 0))"

subsection \<open>The handlers\<close>

definition clamp_budgets :: "u64 \<Rightarrow> u64 \<Rightarrow> u64" where
  "clamp_budgets target b = smax (- target * 5) (smin (target * 5) b)"

definition handle_tick_vsleep :: "'w platform \<Rightarrow> ctx_ref \<Rightarrow> 'w lib \<Rightarrow> 'w lib" where
  "handle_tick_vsleep P r s =
     (let target = time_slice_ns (aux (read_ctx r s));
          budgets = time_budgets (aux (read_ctx r s));
          (now, s1) = read_clock P s;
          diff = now - past s1;
          s2 = s1\<lparr>now_ns := now, diff_ns := diff\<rparr>;
          budgets = budgets + (target - diff);
          s3 = (if 0 < sint budgets \<and> g_mapped s2
                then s2\<lparr>kworld := futex_wait P (umin budgets target) (kworld s2)\<rparr> else s2);
          (t, s4) = read_clock P s3;
          yield_time = t - now;
          s5 = s4\<lparr>past := t, sleeped_time := sleeped_time s4 + yield_time,
                 avg_cost := mix (9 / 10) (1 / 10) (avg_cost s4) diff\<rparr>
      in upd_aux r (set_time_budgets (clamp_budgets target (budgets - yield_time))) s5)"

definition handle_tick_yielding :: "'w platform \<Rightarrow> ctx_ref \<Rightarrow> 'w lib \<Rightarrow> 'w lib option" where
  \<comment> \<open>\<open>max(0, b + avg - target)\<close> is unsigned because \<open>target\<close> is\<close>
  "handle_tick_yielding P r s =
     (let target = time_slice_ns (aux (read_ctx r s)) in
      case system_busy_degree P s of
        None \<Rightarrow> None
      | Some busy \<Rightarrow>
          (let budgets = time_budgets (aux (read_ctx r s));
               (now, s1) = read_clock P s;
               diff = now - past s1;
               s2 = s1\<lparr>now_ns := now, diff_ns := diff\<rparr>;
               budgets = budgets + (target - diff);
               (s3, budgets) =
                 (if 0 < sint budgets then
                    (if busy = SYSTEM_HIGH \<or> busy = SYSTEM_MODERATE
                     then (s2\<lparr>kworld := sched_yield P (kworld s2)\<rparr>, budgets)
                     else (s2, umax 0 (budgets + avg_cost s2 - target)))
                  else (s2, budgets));
               (t, s4) = read_clock P s3;
               yield_time = t - now;
               s5 = s4\<lparr>past := t, avg_cost := mix (9 / 10) (1 / 10) (avg_cost s4) diff\<rparr>
           in Some (upd_aux r (set_time_budgets (clamp_budgets target (budgets - yield_time))) s5)))"

definition latency_target :: "aux_data \<Rightarrow> u64" where
  \<comment> \<open>\<open>target_lat > -lat_bias\<close> compares unsigned\<close>
  "latency_target a = (if target_lat a > - lat_bias a then target_lat a + lat_bias a else 0)"

definition latency_sleep :: "aux_data \<Rightarrow> u64 \<Rightarrow> u64 \<Rightarrow> u64 \<Rightarrow> u64 option" where
  \<comment> \<open>the length of the wait, if there is one; the product and the quotient are unsigned\<close>
  "latency_sleep a cyc now pass_ns =
     (let rest_ncycle = hist_ncycle a - used_ncycle a + cyc;
          rest_time = latency_target a - (now - start_time a)
      in if 0 < sint rest_ncycle then
           (let period_assume = rest_time * cyc div rest_ncycle - 1000000;
                sleep_ns = period_assume - pass_ns
            in if 1000000 < sint sleep_ns then Some sleep_ns else None)
         else None)"

definition handle_tick_latency_oriented :: "'w platform \<Rightarrow> ctx_ref \<Rightarrow> 'w lib \<Rightarrow> 'w lib option" where
  "handle_tick_latency_oriented P r s = (case system_busy_degree P s of
     None \<Rightarrow> None
   | Some _ \<Rightarrow>
       (let (t0, s1) = read_clock P s;
            s2 = s1\<lparr>now_ns := t0\<rparr>;
            ld = aux (read_ctx r s2);
            (now, s3) = read_clock P s2;
            cyc = get_instr_slice P (kworld s3);
            s4 = upd_aux r (\<lambda>a. a\<lparr>used_ncycle := used_ncycle a + cyc\<rparr>) s3;
            s5 = (case latency_sleep ld cyc now (now - past s4) of
                    Some ns \<Rightarrow> (if g_mapped s4 then s4\<lparr>kworld := futex_wait P ns (kworld s4)\<rparr> else s4)
                  | None \<Rightarrow> s4);
            (t, s6) = read_clock P s5
        in Some (s6\<lparr>past := t\<rparr>)))"

definition handle_tick_immediate :: "ctx_ref \<Rightarrow> 'w lib \<Rightarrow> 'w lib" where
  "handle_tick_immediate r s = s"

subsection \<open>The tick\<close>

fun select_ctx :: "'w platform \<Rightarrow> 'w lib \<Rightarrow> nat list \<Rightarrow> int \<Rightarrow> ctx_ref \<Rightarrow> ctx_ref option" where
  \<comment> \<open>the loop over the entries; \<open>highest\<close> and \<open>ctx\<close> are the loop's variables\<close>
  "select_ctx P s [] highest ctx = Some ctx"
| "select_ctx P s (i # is) highest ctx =
     (let e = entries (event_map s) ! i
      in if \<not> in_use e then select_ctx P s is highest ctx
         else case test_event P (ev_idx e) s of
           None \<Rightarrow> None
         | Some active \<Rightarrow>
             (if active \<and> highest < level (ev_ctx e)
              then select_ctx P s is (level (ev_ctx e)) (Slot i)
              else select_ctx P s is highest ctx))"

definition tick_ctx :: "'w platform \<Rightarrow> 'w lib \<Rightarrow> ctx_ref option" where
  "tick_ctx P s = select_ctx P s [0..<ROBFLEX_MAX_LOCAL_EVENT_CTX] (level (loc_ctx s)) Own"

definition dispatch_tick :: "'w platform \<Rightarrow> ctx_ref \<Rightarrow> 'w lib \<Rightarrow> 'w lib option" where
  \<comment> \<open>the \<open>switch\<close>: predetermined threads yield, yielding threads sleep\<close>
  "dispatch_tick P r s =
     (let p = policy (read_ctx r s)
      in if p = PREDETERMINED then handle_tick_yielding P r s
         else if p = YIELDING then Some (handle_tick_vsleep P r s)
         else if p = LATENCY_ORIENTED then handle_tick_latency_oriented P r s
         else if p = IMMEDIATE then Some (handle_tick_immediate r s)
         else Some s)"

definition handle_tick :: "'w platform \<Rightarrow> 'w lib \<Rightarrow> 'w lib option" where
  "handle_tick P s0 =
     (let s = s0\<lparr>interrupt_count := interrupt_count s0 + 1\<rparr>
      in do {
        r \<leftarrow> tick_ctx P s;
        s' \<leftarrow> dispatch_tick P r s;
        Some (s'\<lparr>kworld := reset_counter P (kworld s')\<rparr>) })"

definition instruction_interrupt_handler :: "'w platform \<Rightarrow> 'w lib \<Rightarrow> 'w lib option" where
  "instruction_interrupt_handler P s =
     (if in_critical s then Some (s\<lparr>n_signal_pendings := n_signal_pendings s + 1\<rparr>)
      else handle_tick P s)"

definition set_perf_ctrl_cpi_atomic :: "int \<Rightarrow> 'w lib \<Rightarrow> 'w lib" where
  \<comment> \<open>\<open>max(1, value_in_us) * 1000\<close> is an \<open>int\<close> that is then widened with its sign\<close>
  "set_perf_ctrl_cpi_atomic value_in_us =
     upd_aux Own (set_time_slice_ns (scast (word_of_int (max 1 value_in_us * 1000) :: u32)))"

subsection \<open>What a tick leaves alone\<close>

definition lasting :: "local_context \<Rightarrow> local_context" where
  \<comment> \<open>a context without the one cell that ticks account in: the budget of a yielding or
    predetermined context, the used cycles of a latency-oriented one\<close>
  "lasting c = c\<lparr>aux :=
     (if policy c = YIELDING \<or> policy c = PREDETERMINED then set_time_budgets 0 (aux c)
      else if policy c = LATENCY_ORIENTED then (aux c)\<lparr>used_ncycle := 0\<rparr>
      else aux c)\<rparr>"

lemma lasting_fields [simp]: "policy (lasting c) = policy c" "level (lasting c) = level c"
  by (simp_all add: lasting_def)

lemma lasting_budgets:
  "policy c = YIELDING \<or> policy c = PREDETERMINED \<Longrightarrow> lasting (c\<lparr>aux := set_time_budgets x (aux c)\<rparr>) = lasting c"
  by (auto simp: lasting_def set_time_budgets_def)

lemma lasting_used:
  "policy c = LATENCY_ORIENTED \<Longrightarrow> lasting (c\<lparr>aux := (aux c)\<lparr>used_ncycle := x\<rparr>\<rparr>) = lasting c"
  by (simp add: lasting_def policy_defs)

definition table_shape :: "event_table \<Rightarrow> int \<times> (int \<times> bool \<times> local_context) list" where
  "table_shape t = (entry_count t, map (\<lambda>e. (ev_idx e, in_use e, lasting (ev_ctx e))) (entries t))"

definition control :: "'w lib \<Rightarrow> (bool \<times> u32 \<times> bool \<times> bool) \<times> (int \<times> nat list \<times> (nat \<Rightarrow> local_context option)) \<times>
    local_context \<times> int \<times> (int \<times> bool \<times> local_context) list" where
  "control s = ((in_critical s, n_signal_pendings s, ptr_mapped s, g_mapped s),
     (socket_fd s, arrivals s, contexts s), lasting (loc_ctx s), table_shape (event_map s))"

lemma table_ok_shape:
  assumes "table_shape t = table_shape t'"
  shows "table_ok t \<longleftrightarrow> table_ok t'"
proof -
  let ?f = "\<lambda>e. (ev_idx e, in_use e, lasting (ev_ctx e))"
  have m: "map ?f (entries t) = map ?f (entries t')" and c: "entry_count t = entry_count t'"
    using assms by (simp_all add: table_shape_def)
  have l: "length (entries t) = length (entries t')" using map_eq_imp_length_eq [OF m] .
  have n: "?f (entries t ! i) = ?f (entries t' ! i)" if "i < length (entries t')" for i
    using arg_cong [OF m, of "\<lambda>xs. xs ! i"] that l by simp
  have u: "unique_events (entries t) \<longleftrightarrow> unique_events (entries t')"
    unfolding unique_events_def l using n by auto
  have g: "length (filter in_use (entries t)) = length (filter (\<lambda>x. fst (snd x)) (map ?f (entries t)))" for t
    by (simp add: filter_map comp_def)
  have r: "(\<forall>e \<in> set (entries t). if in_use e then ROBFLEX_EVENT_NONE < ev_idx e \<and> ev_idx e < MAX_EVENT_NUM
      else ev_idx e = ROBFLEX_EVENT_NONE) \<longleftrightarrow>
    (\<forall>x \<in> set (map ?f (entries t)). if fst (snd x) then ROBFLEX_EVENT_NONE < fst x \<and> fst x < MAX_EVENT_NUM
      else fst x = ROBFLEX_EVENT_NONE)" for t
    by simp
  show ?thesis unfolding table_ok_def l u c g r m ..
qed

lemma control_simps [simp]:
  "control (s\<lparr>kworld := w\<rparr>) = control s"
  "control (s\<lparr>past := x\<rparr>) = control s"
  "control (s\<lparr>now_ns := x\<rparr>) = control s"
  "control (s\<lparr>diff_ns := x\<rparr>) = control s"
  "control (s\<lparr>avg_cost := x\<rparr>) = control s"
  "control (s\<lparr>sleeped_time := x\<rparr>) = control s"
  "control (s\<lparr>interrupt_count := n\<rparr>) = control s"
  by (simp_all add: control_def)

lemma read_ctx_frame [simp]:
  "read_ctx r (s\<lparr>kworld := w\<rparr>) = read_ctx r s"
  "read_ctx r (s\<lparr>past := x\<rparr>) = read_ctx r s"
  "read_ctx r (s\<lparr>now_ns := x\<rparr>) = read_ctx r s"
  "read_ctx r (s\<lparr>diff_ns := x\<rparr>) = read_ctx r s"
  "read_ctx r (s\<lparr>avg_cost := x\<rparr>) = read_ctx r s"
  "read_ctx r (s\<lparr>sleeped_time := x\<rparr>) = read_ctx r s"
  "read_ctx r (s\<lparr>interrupt_count := n\<rparr>) = read_ctx r s"
  by (simp_all add: read_ctx_def split: ctx_ref.split)

lemma control_upd_aux:
  assumes a: "lasting ((read_ctx r s)\<lparr>aux := f (aux (read_ctx r s))\<rparr>) = lasting (read_ctx r s)"
  shows "control (upd_aux r f s) = control s"
proof (cases r)
  case Own
  then show ?thesis using a by (simp add: control_def upd_aux_def write_ctx_def read_ctx_def)
next
  case (Slot i)
  let ?es = "entries (event_map s)"
  let ?g = "\<lambda>e. (ev_idx e, in_use e, lasting (ev_ctx e))"
  let ?e = "(?es ! i)\<lparr>ev_ctx := (ev_ctx (?es ! i))\<lparr>aux := f (aux (ev_ctx (?es ! i)))\<rparr>\<rparr>"
  have "map ?g (?es[i := ?e]) = map ?g ?es"
  proof (cases "i < length ?es")
    case True
    then show ?thesis using a Slot by (simp add: map_update list_update_same_conv read_ctx_def)
  qed (simp add: list_update_beyond)
  then show ?thesis
    using Slot by (simp add: control_def table_shape_def upd_aux_def write_ctx_def read_ctx_def)
qed

lemma control_clock: "read_clock P s = (t, s') \<Longrightarrow> control s' = control s"
  by (auto simp: read_clock_def case_prod_beta)

lemma control_budgets:
  "policy (read_ctx r s) = YIELDING \<or> policy (read_ctx r s) = PREDETERMINED \<Longrightarrow>
   control (upd_aux r (set_time_budgets x) s) = control s"
  by (rule control_upd_aux) (rule lasting_budgets)

lemma control_used:
  "policy (read_ctx r s) = LATENCY_ORIENTED \<Longrightarrow>
   control (upd_aux r (\<lambda>a. a\<lparr>used_ncycle := used_ncycle a + cyc\<rparr>) s) = control s"
  by (rule control_upd_aux) (rule lasting_used)

lemma control_vsleep:
  "policy (read_ctx r s) = YIELDING \<Longrightarrow> control (handle_tick_vsleep P r s) = control s"
  by (simp add: handle_tick_vsleep_def Let_def read_clock_def case_prod_beta control_budgets)

lemma control_yielding:
  assumes "policy (read_ctx r s) = PREDETERMINED" "handle_tick_yielding P r s = Some s'"
  shows "control s' = control s"
  using assms(2) by (auto simp: assms(1) handle_tick_yielding_def Let_def read_clock_def case_prod_beta control_budgets
      split: option.splits if_splits)

lemma control_latency:
  assumes "policy (read_ctx r s) = LATENCY_ORIENTED" "handle_tick_latency_oriented P r s = Some s'"
  shows "control s' = control s"
  using assms(2) by (auto simp: assms(1) handle_tick_latency_oriented_def Let_def read_clock_def case_prod_beta control_used
      split: option.splits if_splits)

lemma control_dispatch: "dispatch_tick P r s = Some s' \<Longrightarrow> control s' = control s"
  by (auto simp: dispatch_tick_def Let_def handle_tick_immediate_def control_vsleep split: if_splits
      dest: control_yielding control_latency)

lemma handle_tickE:
  assumes "handle_tick P s = Some s'"
  obtains r t where "tick_ctx P (s\<lparr>interrupt_count := interrupt_count s + 1\<rparr>) = Some r"
    and "dispatch_tick P r (s\<lparr>interrupt_count := interrupt_count s + 1\<rparr>) = Some t"
    and "s' = t\<lparr>kworld := reset_counter P (kworld t)\<rparr>"
  using assms unfolding handle_tick_def Let_def bind_eq_Some_conv by blast

lemma control_tick:
  assumes "handle_tick P s = Some s'"
  shows "control s' = control s"
proof -
  obtain r t where t: "dispatch_tick P r (s\<lparr>interrupt_count := interrupt_count s + 1\<rparr>) = Some t"
    and s': "s' = t\<lparr>kworld := reset_counter P (kworld t)\<rparr>"
    by (rule handle_tickE [OF assms])
  from control_dispatch [OF t] show ?thesis unfolding s' by simp
qed

lemma controlD:
  assumes "control s' = control s"
  shows "in_critical s' = in_critical s" "n_signal_pendings s' = n_signal_pendings s"
    "ptr_mapped s' = ptr_mapped s" "g_mapped s' = g_mapped s" "socket_fd s' = socket_fd s"
    "arrivals s' = arrivals s" "contexts s' = contexts s"
    "policy (loc_ctx s') = policy (loc_ctx s)" "level (loc_ctx s') = level (loc_ctx s)"
    "table_shape (event_map s') = table_shape (event_map s)"
    "table_ok (event_map s') = table_ok (event_map s)"
proof -
  have "lasting (loc_ctx s') = lasting (loc_ctx s)" using assms by (simp add: control_def)
  from arg_cong [OF this, of policy] arg_cong [OF this, of level]
  show "policy (loc_ctx s') = policy (loc_ctx s)" "level (loc_ctx s') = level (loc_ctx s)" by simp_all
  show t: "table_shape (event_map s') = table_shape (event_map s)"
    using assms by (simp add: control_def)
  show "table_ok (event_map s') = table_ok (event_map s)" using t by (rule table_ok_shape)
qed (use assms in \<open>simp_all add: control_def\<close>)

subsection \<open>A tick is always defined on mapped memory\<close>

definition ready :: "'w lib \<Rightarrow> bool" where
  "ready s \<longleftrightarrow> ptr_mapped s \<and> table_ok (event_map s)"

lemma ready_control: "control s' = control s \<Longrightarrow> ready s' = ready s"
  using controlD [of s' s] by (simp add: ready_def)

definition live_table :: "event_table \<Rightarrow> bool" where
  \<comment> \<open>what a tick needs of the table, also between the stores of an update\<close>
  "live_table t \<longleftrightarrow> length (entries t) = ROBFLEX_MAX_LOCAL_EVENT_CTX \<and>
     (\<forall>e \<in> set (entries t). 0 \<le> ev_idx e \<and> ev_idx e < MAX_EVENT_NUM)"

definition live :: "'w lib \<Rightarrow> bool" where
  "live s \<longleftrightarrow> ptr_mapped s \<and> live_table (event_map s)"

lemma table_ok_live: "table_ok t \<Longrightarrow> live_table t"
  by (auto simp: table_ok_def live_table_def ROBFLEX_EVENT_NONE_def MAX_EVENT_NUM_def split: if_splits)

lemma ready_live: "ready s \<Longrightarrow> live s"
  by (simp add: ready_def live_def table_ok_live)

lemma live_table_shape:
  assumes "table_shape t = table_shape t'"
  shows "live_table t \<longleftrightarrow> live_table t'"
proof -
  have m: "map ev_idx (entries t) = map ev_idx (entries t')"
    using arg_cong [OF assms, of "\<lambda>x. map fst (snd x)"] by (simp add: table_shape_def comp_def)
  have l: "live_table u \<longleftrightarrow> length (map ev_idx (entries u)) = ROBFLEX_MAX_LOCAL_EVENT_CTX \<and>
      (\<forall>x \<in> set (map ev_idx (entries u)). 0 \<le> x \<and> x < MAX_EVENT_NUM)" for u
    by (simp add: live_table_def)
  show ?thesis unfolding l m ..
qed

lemma live_control:
  assumes "control s' = control s"
  shows "live s' = live s"
  unfolding live_def controlD(3) [OF assms] live_table_shape [OF controlD(10) [OF assms]] ..

lemma dispatch_ready: "ptr_mapped s \<Longrightarrow> dispatch_tick P r s \<noteq> None"
  by (simp add: dispatch_tick_def handle_tick_yielding_def handle_tick_latency_oriented_def
      system_busy_degree_def Let_def case_prod_beta)

lemma select_live:
  assumes "live s" "set is \<subseteq> {..<length (entries (event_map s))}"
  shows "select_ctx P s is h c \<noteq> None"
  using assms(2)
proof (induction "is" arbitrary: h c)
  case (Cons i "is")
  let ?e = "entries (event_map s) ! i"
  have "0 \<le> ev_idx ?e \<and> ev_idx ?e < MAX_EVENT_NUM"
    using assms(1) Cons.prems by (auto simp: live_def live_table_def)
  then have "test_event P (ev_idx ?e) s \<noteq> None"
    using assms(1) by (auto simp: test_event_def live_def)
  then show ?case using Cons by (auto simp: Let_def)
qed simp

lemma tick_ctx_live: "live s \<Longrightarrow> tick_ctx P s \<noteq> None"
  unfolding tick_ctx_def by (rule select_live) (auto simp: live_def live_table_def)

lemmas tick_ctx_ready = tick_ctx_live [OF ready_live]

lemma handle_tick_live:
  assumes "live s"
  obtains s' where "handle_tick P s = Some s'"
proof -
  let ?s = "s\<lparr>interrupt_count := interrupt_count s + 1\<rparr>"
  have r: "live ?s" using assms by (simp add: live_control [of ?s s])
  then obtain c where "tick_ctx P ?s = Some c" using tick_ctx_live by fast
  moreover obtain t where "dispatch_tick P c ?s = Some t"
    using dispatch_ready [of ?s P c] r by (auto simp: live_def)
  ultimately show thesis using that by (simp add: handle_tick_def)
qed

lemmas handle_tick_ready = handle_tick_live [OF ready_live]

subsection \<open>Which context a tick serves\<close>

definition served :: "'w platform \<Rightarrow> 'w lib \<Rightarrow> nat \<Rightarrow> bool" where
  "served P s i \<longleftrightarrow> in_use (entries (event_map s) ! i) \<and>
     test_event P (ev_idx (entries (event_map s) ! i)) s = Some True"

definition slot_level :: "'w lib \<Rightarrow> nat \<Rightarrow> int" where
  "slot_level s i = level (ev_ctx (entries (event_map s) ! i))"

lemma select_highest:
  "select_ctx P s is h c = Some r \<Longrightarrow>
   (r = c \<and> (\<forall>i \<in> set is. served P s i \<longrightarrow> slot_level s i \<le> h)) \<or>
   (\<exists>xs i ys. is = xs @ i # ys \<and> r = Slot i \<and> served P s i \<and> h < slot_level s i \<and>
      (\<forall>j \<in> set xs. served P s j \<longrightarrow> slot_level s j < slot_level s i) \<and>
      (\<forall>j \<in> set ys. served P s j \<longrightarrow> slot_level s j \<le> slot_level s i))"
proof (induction "is" arbitrary: h c)
  case (Cons i "is")
  show ?case
  proof (cases "served P s i \<and> h < slot_level s i")
    case True
    then have "select_ctx P s is (slot_level s i) (Slot i) = Some r"
      using Cons.prems by (simp add: served_def slot_level_def Let_def)
    from Cons.IH [OF this] show ?thesis
    proof (elim disjE exE conjE)
      assume "r = Slot i" "\<forall>j \<in> set is. served P s j \<longrightarrow> slot_level s j \<le> slot_level s i"
      with True show ?thesis by (intro disjI2 exI [of _ "[]"] exI [of _ i] exI [of _ "is"]) simp
    next
      fix xs k ys
      assume "is = xs @ k # ys" "r = Slot k" "served P s k" "slot_level s i < slot_level s k"
        "\<forall>j \<in> set xs. served P s j \<longrightarrow> slot_level s j < slot_level s k"
        "\<forall>j \<in> set ys. served P s j \<longrightarrow> slot_level s j \<le> slot_level s k"
      with True show ?thesis
        by (intro disjI2 exI [of _ "i # xs"] exI [of _ k] exI [of _ ys]) simp
    qed
  next
    case False
    then have "select_ctx P s is h c = Some r"
      using Cons.prems by (auto simp: served_def slot_level_def Let_def split: if_splits option.splits)
    from Cons.IH [OF this] show ?thesis
    proof (elim disjE exE conjE)
      assume "r = c" "\<forall>j \<in> set is. served P s j \<longrightarrow> slot_level s j \<le> h"
      with False show ?thesis by (intro disjI1) auto
    next
      fix xs k ys
      assume "is = xs @ k # ys" "r = Slot k" "served P s k" "h < slot_level s k"
        "\<forall>j \<in> set xs. served P s j \<longrightarrow> slot_level s j < slot_level s k"
        "\<forall>j \<in> set ys. served P s j \<longrightarrow> slot_level s j \<le> slot_level s k"
      with False show ?thesis
        by (intro disjI2 exI [of _ "i # xs"] exI [of _ k] exI [of _ ys]) auto
    qed
  qed
qed simp

lemma upt_split: "[0..<n] = xs @ i # ys \<Longrightarrow> i < n \<and> set xs = {..<i} \<and> set ys = {i<..<n}"
proof -
  assume a: "[0..<n] = xs @ i # ys"
  have l: "length xs < n" using arg_cong [OF a, of length] by simp
  have "[0..<n] ! length xs = i" using a by simp
  then have i: "length xs = i" using l by simp
  have "xs = take i [0..<n]" "ys = drop (Suc i) [0..<n]" using a i by simp_all
  then show ?thesis using l i by auto
qed

lemma tick_ctx_highest:
  assumes "tick_ctx P s = Some r"
  shows "(r = Own \<and> (\<forall>i < ROBFLEX_MAX_LOCAL_EVENT_CTX. served P s i \<longrightarrow> slot_level s i \<le> level (loc_ctx s))) \<or>
    (\<exists>i < ROBFLEX_MAX_LOCAL_EVENT_CTX. r = Slot i \<and> served P s i \<and> level (loc_ctx s) < slot_level s i \<and>
      (\<forall>j < ROBFLEX_MAX_LOCAL_EVENT_CTX. served P s j \<longrightarrow> slot_level s j \<le> slot_level s i) \<and>
      (\<forall>j < i. served P s j \<longrightarrow> slot_level s j < slot_level s i))"
proof -
  consider "r = Own" "\<forall>i \<in> set [0..<ROBFLEX_MAX_LOCAL_EVENT_CTX]. served P s i \<longrightarrow> slot_level s i \<le> level (loc_ctx s)"
    | xs i ys where "[0..<ROBFLEX_MAX_LOCAL_EVENT_CTX] = xs @ i # ys" "r = Slot i" "served P s i"
      "level (loc_ctx s) < slot_level s i"
      "\<forall>j \<in> set xs. served P s j \<longrightarrow> slot_level s j < slot_level s i"
      "\<forall>j \<in> set ys. served P s j \<longrightarrow> slot_level s j \<le> slot_level s i"
    using select_highest [OF assms [unfolded tick_ctx_def]] by blast
  then show ?thesis
  proof cases
    case 1
    then show ?thesis by simp
  next
    case 2
    note u = upt_split [OF 2(1)]
    have "slot_level s j \<le> slot_level s i" if "j < ROBFLEX_MAX_LOCAL_EVENT_CTX" "served P s j" for j
      using 2(5,6) u that by (cases j i rule: linorder_cases) (auto simp: less_le_not_le)
    then show ?thesis using 2 u by auto
  qed
qed

lemma select_count [simp]:
  "select_ctx P (s\<lparr>interrupt_count := n\<rparr>) is h c = select_ctx P s is h c"
  by (induction "is" arbitrary: h c) (simp_all add: Let_def test_event_def)

lemma tick_ctx_count [simp]: "tick_ctx P (s\<lparr>interrupt_count := n\<rparr>) = tick_ctx P s"
  by (simp add: tick_ctx_def)

subsection \<open>Budgets\<close>

lemma sint_word_of_int_range:
  assumes "- (2 ^ 63) \<le> k" "k < 2 ^ 63"
  shows "sint (word_of_int k :: u64) = k"
proof -
  have "sint (word_of_int k :: u64) = signed_take_bit 63 k" by (simp add: signed_of_int)
  also have "\<dots> = k" using assms by (intro signed_take_bit_int_eq_self) simp_all
  finally show ?thesis .
qed

lemma sint_five_times:
  assumes "0 \<le> k" "k \<le> 2 ^ 60"
  shows "sint (word_of_int (5 * k) :: u64) = 5 * k" "sint (word_of_int (- 5 * k) :: u64) = - 5 * k"
  by (rule sint_word_of_int_range; use assms in simp)+

lemma clamp_bounds:
  assumes "uint target \<le> 2 ^ 60"
  shows "\<bar>sint (clamp_budgets target b)\<bar> \<le> 5 * uint target"
proof -
  have "target * 5 = word_of_int (5 * uint target)" "- target * 5 = word_of_int (- 5 * uint target)"
    by (simp_all add: wi_hom_syms)
  moreover have z: "0 \<le> uint target" by simp
  moreover have "sint (word_of_int (5 * uint target) :: u64) = 5 * uint target"
    "sint (word_of_int (- 5 * uint target) :: u64) = - 5 * uint target"
    by (rule sint_five_times [OF z assms])+
  ultimately have "sint (target * 5) = 5 * uint target" "sint (- target * 5) = - 5 * uint target"
    by (simp_all only:)
  then show ?thesis using z
    unfolding clamp_budgets_def sint_smin sint_smax by (simp add: abs_le_iff)
qed

lemma read_upd_aux:
  "r = Own \<or> (\<exists>i < length (entries (event_map s)). r = Slot i) \<Longrightarrow>
   aux (read_ctx r (upd_aux r f s)) = f (aux (read_ctx r s))"
  by (auto simp: upd_aux_def write_ctx_def read_ctx_def)

definition in_thread :: "ctx_ref \<Rightarrow> 'w lib \<Rightarrow> bool" where
  "in_thread r s \<longleftrightarrow> r = Own \<or> (\<exists>i < length (entries (event_map s)). r = Slot i)"

definition slice_of :: "ctx_ref \<Rightarrow> 'w lib \<Rightarrow> u64" where
  "slice_of r s = time_slice_ns (aux (read_ctx r s))"

definition budgets_of :: "ctx_ref \<Rightarrow> 'w lib \<Rightarrow> u64" where
  "budgets_of r s = time_budgets (aux (read_ctx r s))"

definition charge :: "ctx_ref \<Rightarrow> u64 \<Rightarrow> 'w lib \<Rightarrow> 'w lib \<Rightarrow> 'w lib" where
  \<comment> \<open>\<open>s\<close> with the budget \<open>b\<close> stored in the context, and the statistics, the clock variables
    and the outside world of \<open>s'\<close>\<close>
  "charge r b s s' = (upd_aux r (set_time_budgets b) s)\<lparr>sleeped_time := sleeped_time s', avg_cost := avg_cost s',
     past := past s', now_ns := now_ns s', diff_ns := diff_ns s', kworld := kworld s'\<rparr>"

definition clamped_write :: "ctx_ref \<Rightarrow> 'w lib \<Rightarrow> 'w lib \<Rightarrow> bool" where
  \<comment> \<open>\<open>s'\<close> is the state after a handler stored a clamped budget\<close>
  "clamped_write r s s' \<longleftrightarrow> (\<exists>b. s' = charge r (clamp_budgets (slice_of r s) b) s s')"

lemma write_ctx_frame:
  "write_ctx r c (s\<lparr>kworld := w\<rparr>) = (write_ctx r c s)\<lparr>kworld := w\<rparr>"
  "write_ctx r c (s\<lparr>past := x\<rparr>) = (write_ctx r c s)\<lparr>past := x\<rparr>"
  "write_ctx r c (s\<lparr>now_ns := x\<rparr>) = (write_ctx r c s)\<lparr>now_ns := x\<rparr>"
  "write_ctx r c (s\<lparr>diff_ns := x\<rparr>) = (write_ctx r c s)\<lparr>diff_ns := x\<rparr>"
  "write_ctx r c (s\<lparr>avg_cost := x\<rparr>) = (write_ctx r c s)\<lparr>avg_cost := x\<rparr>"
  "write_ctx r c (s\<lparr>sleeped_time := x\<rparr>) = (write_ctx r c s)\<lparr>sleeped_time := x\<rparr>"
  "write_ctx r c (s\<lparr>interrupt_count := n\<rparr>) = (write_ctx r c s)\<lparr>interrupt_count := n\<rparr>"
  by (simp_all add: write_ctx_def split: ctx_ref.split)

lemma upd_aux_frame:
  "upd_aux r f (s\<lparr>kworld := w\<rparr>) = (upd_aux r f s)\<lparr>kworld := w\<rparr>"
  "upd_aux r f (s\<lparr>past := x\<rparr>) = (upd_aux r f s)\<lparr>past := x\<rparr>"
  "upd_aux r f (s\<lparr>now_ns := x\<rparr>) = (upd_aux r f s)\<lparr>now_ns := x\<rparr>"
  "upd_aux r f (s\<lparr>diff_ns := x\<rparr>) = (upd_aux r f s)\<lparr>diff_ns := x\<rparr>"
  "upd_aux r f (s\<lparr>avg_cost := x\<rparr>) = (upd_aux r f s)\<lparr>avg_cost := x\<rparr>"
  "upd_aux r f (s\<lparr>sleeped_time := x\<rparr>) = (upd_aux r f s)\<lparr>sleeped_time := x\<rparr>"
  "upd_aux r f (s\<lparr>interrupt_count := n\<rparr>) = (upd_aux r f s)\<lparr>interrupt_count := n\<rparr>"
  by (simp_all add: upd_aux_def write_ctx_frame)

lemma upd_aux_fields:
  "sleeped_time (upd_aux r f s) = sleeped_time s"
  "avg_cost (upd_aux r f s) = avg_cost s" "past (upd_aux r f s) = past s" "now_ns (upd_aux r f s) = now_ns s"
  "diff_ns (upd_aux r f s) = diff_ns s" "kworld (upd_aux r f s) = kworld s" "g_mapped (upd_aux r f s) = g_mapped s"
  by (simp_all add: upd_aux_def write_ctx_def split: ctx_ref.split)

lemmas charge_simps = charge_def upd_aux_frame upd_aux_fields

lemma clamped_writeI:
  assumes "t = s\<lparr>sleeped_time := sleeped_time t, avg_cost := avg_cost t, past := past t, now_ns := now_ns t,
      diff_ns := diff_ns t, kworld := kworld t\<rparr>"
  shows "clamped_write r s (upd_aux r (set_time_budgets (clamp_budgets (time_slice_ns (aux (read_ctx r s))) b)) t)"
proof -
  have "upd_aux r f t = (upd_aux r f s)\<lparr>sleeped_time := sleeped_time t, avg_cost := avg_cost t, past := past t,
      now_ns := now_ns t, diff_ns := diff_ns t, kworld := kworld t\<rparr>" for f
    by (subst assms) (simp add: upd_aux_frame)
  then show ?thesis unfolding clamped_write_def slice_of_def charge_def upd_aux_fields by blast
qed

lemma vsleep_clamped: "clamped_write r s (handle_tick_vsleep P r s)"
  unfolding handle_tick_vsleep_def Let_def case_prod_beta read_clock_def
  by (rule clamped_writeI) simp

lemma yielding_clamped:
  assumes h: "handle_tick_yielding P r s = Some s'"
  shows "clamped_write r s s'"
proof -
  obtain busy where b: "system_busy_degree P s = Some busy"
    using h by (auto simp: handle_tick_yielding_def Let_def split: option.splits)
  note h' = h [unfolded handle_tick_yielding_def Let_def case_prod_beta read_clock_def b
      option.case option.inject, symmetric]
  show ?thesis unfolding h' by (rule clamped_writeI) simp
qed

lemma clamped_write_bounds:
  assumes "clamped_write r s s'" "uint (slice_of r s) \<le> 2 ^ 60"
  obtains b where "s' = charge r b s s'" "\<bar>sint b\<bar> \<le> 5 * uint (slice_of r s)"
  using assms clamp_bounds [OF assms(2)] by (auto simp: clamped_write_def)

lemma tick_ctx_in_thread: "ready s \<Longrightarrow> tick_ctx P s = Some r \<Longrightarrow> in_thread r s"
  using tick_ctx_highest [of P s r] by (auto simp: in_thread_def ready_def table_ok_def)

subsection \<open>Properties\<close>

definition example_context :: "int \<Rightarrow> int \<Rightarrow> local_context" where
  "example_context p lv = zero_context\<lparr>policy := p, level := lv,
     aux := set_time_slice_ns DEFUALT_PERIOD_TIME_IN_NS zero_aux\<rparr>"

definition example_table :: event_table where
  "example_table = snd (event_table_upsert 3 (example_context PREDETERMINED 2)
     (event_table_init \<lparr>entry_count = 0,
        entries = replicate 8 \<lparr>ev_idx = 0, in_use = False, ev_ctx = zero_context\<rparr>\<rparr>))"

definition example_platform :: "u64 platform" where
  \<comment> \<open>a clock that advances 2 ms at each reading, and the event number 3 raised\<close>
  "example_platform = \<lparr>clock = (\<lambda>w. (w, w + 2000000)), futex_wait = (\<lambda>ns w. w + ns),
     sched_yield = (\<lambda>w. w + 5000), reset_counter = (\<lambda>w. w),
     shared = (\<lambda>w. \<lparr>busy_degree = SYSTEM_HIGH, futex_wake_seq = 0, event_bits = 8 # replicate 15 0\<rparr>),
     getenv = (\<lambda>w n. None), c_socket = (\<lambda>w. (3, w)),
     c_sendto = (\<lambda>fd m path w. (int (length m), w)), c_gettid = (\<lambda>w. 77)\<rparr>"

definition example_lib :: "u64 lib" where
  "example_lib = \<lparr>loc_ctx = example_context YIELDING 0, event_map = example_table, in_critical = False,
     n_signal_pendings = 0, ptr_mapped = True, g_mapped = True, interrupt_count = 0, sleeped_time = 0,
     avg_cost = 1000000, past = 0, now_ns = 0, diff_ns = 0, socket_fd = 0, arrivals = [],
     contexts = Map.empty, kworld = 1\<rparr>"

lemma example_ready: "ready example_lib"
proof -
  let ?raw = "\<lparr>entry_count = 0,
    entries = replicate 8 \<lparr>ev_idx = 0, in_use = False, ev_ctx = zero_context\<rparr>\<rparr>"
  have "table_ok (event_table_init ?raw)"
    by (rule init_ok) (simp add: ROBFLEX_MAX_LOCAL_EVENT_CTX_def)
  moreover have "valid_event 3" by (simp add: valid_event_def ROBFLEX_EVENT_NONE_def MAX_EVENT_NUM_def)
  ultimately have "table_ok example_table" unfolding example_table_def by (rule ctxs.insert_inv)
  then show ?thesis by (simp add: ready_def example_lib_def)
qed

text \<open>
  C16: a tick serves the context of the highest level. On mapped memory there is always a
  context to serve; it is the thread's own one when no raised event that has a context is
  of a higher level, and otherwise the context of a raised event that is of a higher level
  than the thread's own and of the highest level of all, the first such in the table.
\<close>

theorem tick_serves_highest:
  assumes "ready s"
  shows "\<exists>r. tick_ctx P s = Some r \<and>
    (case r of
       Own \<Rightarrow> \<forall>i < ROBFLEX_MAX_LOCAL_EVENT_CTX. served P s i \<longrightarrow> slot_level s i \<le> level (loc_ctx s)
     | Slot i \<Rightarrow> i < ROBFLEX_MAX_LOCAL_EVENT_CTX \<and> served P s i \<and> level (loc_ctx s) < slot_level s i \<and>
         (\<forall>j < ROBFLEX_MAX_LOCAL_EVENT_CTX. served P s j \<longrightarrow> slot_level s j \<le> slot_level s i) \<and>
         (\<forall>j < i. served P s j \<longrightarrow> slot_level s j < slot_level s i))"
proof -
  obtain r where r: "tick_ctx P s = Some r" using tick_ctx_ready [OF assms] by blast
  from tick_ctx_highest [OF r] show ?thesis by (intro exI [of _ r]) (auto simp: r)
qed

theorem tick_serves_highest_witness:
  "tick_ctx example_platform example_lib = Some (Slot 0) \<and> 0 < slot_level example_lib 0"
proof -
  have "tick_ctx example_platform example_lib = Some (Slot 0)" by code_simp
  then show ?thesis
    using tick_serves_highest [OF example_ready, of example_platform]
    by (auto simp: example_lib_def example_context_def zero_context_def)
qed

text \<open>
  C17: a tick keeps the time budget bounded. When it serves a yielding or predetermined
  context whose slice is at most \<open>2 ^ 60\<close> ns, whatever the clock, the average and the load,
  the tick succeeds, the budget it stores in that context is within five slices of zero, and
  the state after it is the state before with this budget, other statistics (the number of
  ticks, the time slept, the average), other clock variables and another outside world:
  every other cell of the served context, all other contexts and all flags are unchanged.
\<close>

theorem tick_budgets_bounded:
  assumes "ready s" and "tick_ctx P s = Some r"
    and "policy (read_ctx r s) \<in> {YIELDING, PREDETERMINED}" and "uint (slice_of r s) \<le> 2 ^ 60"
  shows "\<exists>s' b. handle_tick P s = Some s' \<and> \<bar>sint b\<bar> \<le> 5 * uint (slice_of r s) \<and>
    budgets_of r s' = b \<and>
    s' = (upd_aux r (set_time_budgets b) s)\<lparr>interrupt_count := interrupt_count s + 1,
      sleeped_time := sleeped_time s', avg_cost := avg_cost s', past := past s', now_ns := now_ns s',
      diff_ns := diff_ns s', kworld := kworld s'\<rparr>"
proof -
  let ?s = "s\<lparr>interrupt_count := interrupt_count s + 1\<rparr>"
  obtain s' where s': "handle_tick P s = Some s'" using handle_tick_ready [OF assms(1)] .
  obtain t where t: "dispatch_tick P r ?s = Some t" and e: "s' = t\<lparr>kworld := reset_counter P (kworld t)\<rparr>"
    by (rule handle_tickE [OF s']) (use assms(2) that in auto)
  have sl: "slice_of r ?s = slice_of r s" by (simp add: slice_of_def)
  have "clamped_write r ?s t"
    using t assms(3) vsleep_clamped [of r ?s P]
    by (auto simp: dispatch_tick_def Let_def policy_defs dest: yielding_clamped)
  then obtain b where b: "t = charge r b ?s t" "\<bar>sint b\<bar> \<le> 5 * uint (slice_of r s)"
    by (rule clamped_write_bounds) (use assms(4) sl in simp_all)
  have "in_thread r ?s" using tick_ctx_in_thread [OF assms(1,2)] by (simp add: in_thread_def)
  then have v: "budgets_of r s' = b"
    unfolding e budgets_of_def read_ctx_frame
    by (subst b(1)) (simp add: charge_def in_thread_def read_upd_aux time_budgets_def set_time_budgets_def)
  have "s' = (upd_aux r (set_time_budgets b) s)\<lparr>interrupt_count := interrupt_count s + 1,
      sleeped_time := sleeped_time s', avg_cost := avg_cost s', past := past s', now_ns := now_ns s',
      diff_ns := diff_ns s', kworld := kworld s'\<rparr>"
    unfolding e by (subst b(1)) (simp add: charge_simps)
  then show ?thesis using s' b(2) v by blast
qed

theorem tick_budgets_bounded_witness:
  "\<exists>s' b. handle_tick example_platform example_lib = Some s' \<and> \<bar>sint b\<bar> \<le> 5000000 \<and>
     budgets_of (Slot 0) s' = b \<and> loc_ctx s' = loc_ctx example_lib"
proof -
  have "tick_ctx example_platform example_lib = Some (Slot 0)"
    and "policy (read_ctx (Slot 0) example_lib) = PREDETERMINED"
    and u: "uint (slice_of (Slot 0) example_lib) = 1000000"
    by (code_simp, code_simp, code_simp)
  then obtain s' b where s': "handle_tick example_platform example_lib = Some s'" "\<bar>sint b\<bar> \<le> 5000000"
    "budgets_of (Slot 0) s' = b"
    and e: "s' = (upd_aux (Slot 0) (set_time_budgets b) example_lib)\<lparr>interrupt_count := interrupt_count example_lib + 1,
      sleeped_time := sleeped_time s', avg_cost := avg_cost s', past := past s', now_ns := now_ns s',
      diff_ns := diff_ns s', kworld := kworld s'\<rparr>"
    using tick_budgets_bounded [OF example_ready, of example_platform "Slot 0"] by auto
  have "loc_ctx s' = loc_ctx example_lib"
    by (subst e) (simp add: upd_aux_def write_ctx_def)
  then show ?thesis using s' by blast
qed

end
