(* ===== verification/LatencyTick.thy ===== *)
theory LatencyTick
  imports TickHandler
begin

text \<open>
  How long the handler of a latency-oriented context waits (\<open>handle_tick_latency_oriented\<close> of
  \<open>src/dym_hook.c\<close>), in integers: the target with its bias, the wait of a thread that is
  on time and that of one that is late.
\<close>

subsection \<open>The latency handler\<close>

lemma uint_of_int_range:
  "0 \<le> k \<Longrightarrow> k < 2 ^ 64 \<Longrightarrow> uint (word_of_int k :: u64) = k"
  by (simp add: unsigned_of_int take_bit_int_eq_self)

lemma uint_of_int_negative:
  "- (2 ^ 64) \<le> k \<Longrightarrow> k < 0 \<Longrightarrow> uint (word_of_int k :: u64) = 2 ^ 64 + k"
proof -
  assume k: "- (2 ^ 64) \<le> k" "k < 0"
  have "word_of_int (2 ^ 64 + k) = (word_of_int k :: u64)"
    by (simp only: word_of_int_eq_iff take_bit_eq_mod) simp
  moreover have "uint (word_of_int (2 ^ 64 + k) :: u64) = 2 ^ 64 + k"
    by (rule uint_of_int_range) (use k in simp_all)
  ultimately show ?thesis by (simp only:)
qed

lemma sint_of_large:
  assumes "2 ^ 63 \<le> uint (x :: u64)"
  shows "sint x = uint x - 2 ^ 64"
proof -
  have "uint x < 2 ^ 64" using uint_lt2p [of x] by simp
  then have "sint (word_of_int (uint x - 2 ^ 64) :: u64) = uint x - 2 ^ 64"
    using assms by (intro sint_word_of_int_range) simp_all
  moreover have "word_of_int (uint x - 2 ^ 64) = (word_of_int (uint x) :: u64)"
    by (simp only: word_of_int_eq_iff take_bit_eq_mod) simp
  ultimately show ?thesis by (simp only: word_of_int_uint)
qed

text \<open>
  What the latency handler takes as its target. A negative bias (the chain is late) moves
  the target forward, not below zero; a positive one (the chain is early) does not move it
  back but makes it zero, because the comparison with the negated bias is unsigned.
\<close>

theorem latency_target_value:
  assumes "uint (target_lat a) < 2 ^ 63" "- (2 ^ 63) < sint (lat_bias a)"
  shows "uint (latency_target a) =
    (if 0 < sint (lat_bias a) then 0 else max 0 (uint (target_lat a) + sint (lat_bias a)))"
proof -
  let ?T = "uint (target_lat a)" and ?b = "sint (lat_bias a)"
  have b: "lat_bias a = word_of_int ?b" by simp
  have m: "- lat_bias a = word_of_int (- ?b)" by (subst b) (simp only: wi_hom_neg)
  have r: "?b < 2 ^ 63" using sint_lt [of "lat_bias a"] by simp
  show ?thesis
  proof (cases "0 < ?b")
    case True
    then have "uint (- lat_bias a) = 2 ^ 64 - ?b" unfolding m
      using uint_of_int_negative [of "- ?b"] r by simp
    then have "\<not> target_lat a > - lat_bias a" using assms(1) r by (simp add: word_less_def)
    then show ?thesis using True by (simp add: latency_target_def)
  next
    case False
    then have u: "uint (- lat_bias a) = - ?b" unfolding m
      using uint_of_int_range [of "- ?b"] assms(2) by simp
    have "target_lat a + lat_bias a = word_of_int (?T + ?b)" by (subst b) (simp flip: wi_hom_add)
    moreover have "0 \<le> ?T" by simp
    ultimately have "?T + ?b > 0 \<Longrightarrow> uint (target_lat a + lat_bias a) = ?T + ?b"
      using False assms(1) by (simp only:) (rule uint_of_int_range; simp)
    then show ?thesis using False u by (auto simp: latency_target_def word_less_def)
  qed
qed

lemma latency_sleep_value:
  assumes r: "hist_ncycle a - used_ncycle a + cyc = word_of_int R" "0 < R" "R < 2 ^ 63"
    and d: "(latency_target a - (now - start_time a)) * cyc = word_of_int D" "0 \<le> D" "D < 2 ^ 64"
    and k: "k = D div R - 1000000 - uint pass_ns" "- (2 ^ 63) \<le> k" "k < 2 ^ 63"
  shows "latency_sleep a cyc now pass_ns = (if 1000000 < k then Some (word_of_int k) else None)"
proof -
  have "sint (word_of_int R :: u64) = R" using r by (intro sint_word_of_int_range) simp_all
  moreover have "word_of_int D div word_of_int R = (word_of_int (D div R) :: u64)"
    using r d uint_of_int_range [of D] uint_of_int_range [of R] by (simp add: word_div_def)
  moreover have "word_of_int (D div R) - 1000000 - pass_ns = (word_of_int k :: u64)"
    by (simp add: k(1) flip: wi_hom_sub)
  moreover have "sint (word_of_int k :: u64) = k" using k by (intro sint_word_of_int_range) simp_all
  ultimately show ?thesis using r(2) by (simp add: latency_sleep_def r(1) d(1) Let_def)
qed

theorem latency_target_value_witness:
  "uint (latency_target (zero_aux\<lparr>target_lat := 20000000, lat_bias := 1\<rparr>)) = 0 \<and>
   uint (latency_target (zero_aux\<lparr>target_lat := 20000000, lat_bias := - 5000000\<rparr>)) = 15000000"
proof -
  have "sint (- 5000000 :: u64) = - 5000000" "sint (1 :: u64) = 1" "uint (20000000 :: u64) = 20000000"
    by code_simp+
  then show ?thesis
    using latency_target_value [of "zero_aux\<lparr>target_lat := 20000000, lat_bias := 1\<rparr>"]
      latency_target_value [of "zero_aux\<lparr>target_lat := 20000000, lat_bias := - 5000000\<rparr>"] by simp
qed

definition rest_cycles :: "aux_data \<Rightarrow> u64 \<Rightarrow> int" where
  "rest_cycles a cyc = uint (hist_ncycle a) - uint (used_ncycle a) + uint cyc"

lemma rest_cycles_word: "hist_ncycle a - used_ncycle a + cyc = word_of_int (rest_cycles a cyc)"
  by (simp add: rest_cycles_def flip: wi_hom_syms)

lemma rest_time_word:
  assumes "lat_bias a = 0"
  shows "(latency_target a - (now - start_time a)) * cyc =
    word_of_int ((uint (target_lat a) - uint (now - start_time a)) * uint cyc)"
proof -
  have "latency_target a = target_lat a" using assms by (auto simp: latency_target_def word_gt_0)
  then show ?thesis
    by (simp only: wi_hom_sub [symmetric] wi_hom_mult [symmetric] word_of_int_uint)
qed

lemma zero_aux_simps: "lat_bias zero_aux = 0" "start_time zero_aux = 0" "used_ncycle zero_aux = 0"
  by (simp_all add: zero_aux_def)

text \<open>
  How long a thread that is on time waits at a tick. With no bias, while the target is
  not passed, the wait is the remaining time's share of one tick's cycles in the remaining
  cycles, less a millisecond and less the time since the last tick, when that is more than
  a millisecond; the unsigned arithmetic is then exact.
\<close>

theorem latency_on_time:
  assumes "lat_bias a = 0" and "uint (now - start_time a) \<le> uint (target_lat a)"
    and "0 < rest_cycles a cyc" "rest_cycles a cyc < 2 ^ 63"
    and "(uint (target_lat a) - uint (now - start_time a)) * uint cyc < 2 ^ 63" "uint pass_ns < 2 ^ 62"
  defines "k \<equiv> (uint (target_lat a) - uint (now - start_time a)) * uint cyc div rest_cycles a cyc
      - 1000000 - uint pass_ns"
  shows "latency_sleep a cyc now pass_ns = (if 1000000 < k then Some (word_of_int k) else None)"
proof (rule latency_sleep_value [OF rest_cycles_word assms(3,4) rest_time_word [OF assms(1)]])
  let ?D = "(uint (target_lat a) - uint (now - start_time a)) * uint cyc"
  show "0 \<le> ?D" using assms(2) by simp
  show "?D < 2 ^ 64" using assms(5) by simp
  show "k = ?D div rest_cycles a cyc - 1000000 - uint pass_ns" by (simp add: k_def)
  have "0 \<le> ?D div rest_cycles a cyc" "?D div rest_cycles a cyc \<le> ?D"
    using assms(3) \<open>0 \<le> ?D\<close> zdiv_mono2 [of ?D 1 "rest_cycles a cyc"]
    by (simp_all add: pos_imp_zdiv_nonneg_iff)
  moreover have "0 \<le> uint pass_ns" by simp
  ultimately have "k \<le> ?D" "- uint pass_ns - 1000000 \<le> k" unfolding k_def by linarith+
  then show "- (2 ^ 63) \<le> k" "k < 2 ^ 63" using assms(5,6) by simp_all
qed

theorem latency_on_time_witness:
  "latency_sleep (zero_aux\<lparr>target_lat := 20000000, hist_ncycle := 9000000\<rparr>) 1000000 10000000 0 = None \<and>
   latency_sleep (zero_aux\<lparr>target_lat := 200000000, hist_ncycle := 9000000\<rparr>) 1000000 10000000 0
     = Some 18000000"
proof -
  let ?a = "\<lambda>t. zero_aux\<lparr>target_lat := t, hist_ncycle := 9000000\<rparr>"
  have r: "rest_cycles (?a t) 1000000 = 10000000" for t by (simp add: rest_cycles_def zero_aux_def)
  show ?thesis
    using latency_on_time [of "?a 20000000" 10000000 1000000 0]
      latency_on_time [of "?a 200000000" 10000000 1000000 0]
    by (simp add: r zero_aux_simps)
qed

text \<open>When the target is passed, the negative remaining time is divided as an unsigned number.\<close>

lemma late_sleep_length:
  assumes "lat_bias a = 0" and d: "d = uint (now - start_time a) - uint (target_lat a)" "0 < d"
    and "0 < uint cyc" "d * uint cyc \<le> 2 ^ 63"
    and "2 \<le> rest_cycles a cyc" "rest_cycles a cyc \<le> 2 ^ 30" "uint pass_ns < 2 ^ 31"
  shows "\<exists>ns. latency_sleep a cyc now pass_ns = Some ns \<and> 6000000000 \<le> uint ns"
proof -
  let ?D = "2 ^ 64 - d * uint cyc" and ?R = "rest_cycles a cyc"
  let ?k = "?D div ?R - 1000000 - uint pass_ns"
  have "(uint (target_lat a) - uint (now - start_time a)) * uint cyc = - (d * uint cyc)"
  proof -
    have "uint (target_lat a) - uint (now - start_time a) = - d" using d(1) by simp
    then show ?thesis by simp
  qed
  moreover have "word_of_int (- (d * uint cyc)) = (word_of_int ?D :: u64)"
    by (simp only: word_of_int_eq_iff take_bit_eq_mod) (simp add: mod_diff_left_eq [symmetric])
  ultimately have D: "(latency_target a - (now - start_time a)) * cyc = word_of_int ?D"
    using rest_time_word [OF assms(1), of now cyc] by (simp only:)
  have p: "0 < d * uint cyc" using d(2) assms(4) by simp
  have "2 ^ 33 * ?R \<le> 2 ^ 33 * 2 ^ 30" using assms(7) by simp
  then have "2 ^ 33 * ?R \<le> ?D" using assms(5) by simp
  then have "2 ^ 33 * ?R div ?R \<le> ?D div ?R" using assms(6) by (intro zdiv_mono1) simp_all
  then have lo: "2 ^ 33 \<le> ?D div ?R" using assms(6) by simp
  have "?D div ?R \<le> ?D div 2" using assms(5,6) by (intro zdiv_mono2) simp_all
  moreover have "?D div 2 < 2 ^ 63" using p by simp
  ultimately have hi: "?D div ?R < 2 ^ 63" by simp
  have "0 \<le> uint pass_ns" by simp
  then have u: "?k \<le> ?D div ?R" by linarith
  have "latency_sleep a cyc now pass_ns = (if 1000000 < ?k then Some (word_of_int ?k) else None)"
    by (rule latency_sleep_value [OF rest_cycles_word _ _ D _ _ refl])
      (use assms(5,6,7,8) p lo hi u in simp_all)
  moreover have k: "6000000000 \<le> ?k" "?k < 2 ^ 64" using lo hi u assms(8) by simp_all
  moreover from k have "uint (word_of_int ?k :: u64) = ?k" by (intro uint_of_int_range) simp_all
  ultimately show ?thesis by simp
qed

text \<open>
  C34: a thread that has missed its target asks to sleep for seconds. Let a tick be served by
  the handler for a latency demand without bias, with both mappings there, when the target
  is passed by \<open>d\<close> ns (\<open>d\<close> times the cycles of a tick is at most \<open>2 ^ 63\<close>), between 2 and
  \<open>2 ^ 30\<close> cycles remain by the history, and the last tick was less than \<open>2 ^ 31\<close> ns ago. The
  handler then calls \<open>futex\<close> with a wait of at least six seconds (which the daemon's waker may
  cut short), and takes the time after it as that of the tick.
\<close>

theorem late_task_sleeps:
  assumes "clock P (kworld s) = (t0, w1)" "clock P w1 = (now, w2)" "ptr_mapped s" "g_mapped s"
    and "a = aux (read_ctx r s)" "cyc = get_instr_slice P w2"
    and "lat_bias a = 0" and d: "d = uint (now - start_time a) - uint (target_lat a)" "0 < d"
    and "0 < uint cyc" "d * uint cyc \<le> 2 ^ 63"
    and "2 \<le> rest_cycles a cyc" "rest_cycles a cyc \<le> 2 ^ 30" "uint (now - past s) < 2 ^ 31"
  shows "\<exists>ns s'. handle_tick_latency_oriented P r s = Some s' \<and> 6000000000 \<le> uint ns \<and>
    clock P (futex_wait P ns w2) = (past s', kworld s')"
proof -
  obtain ns where ns: "latency_sleep a cyc now (now - past s) = Some ns" "6000000000 \<le> uint ns"
    using late_sleep_length [OF assms(7-14)] by blast
  let ?s = "upd_aux r (\<lambda>x. x\<lparr>used_ncycle := used_ncycle x + cyc\<rparr>) (s\<lparr>now_ns := t0, kworld := w2\<rparr>)"
  let ?t = "clock P (futex_wait P ns w2)"
  have "handle_tick_latency_oriented P r s = Some (?s\<lparr>kworld := snd ?t, past := fst ?t\<rparr>)"
    using assms(1-4) ns(1)
    by (simp add: handle_tick_latency_oriented_def system_busy_degree_def read_clock_def Let_def case_prod_beta
        assms(5,6) upd_aux_fields)
  then show ?thesis using ns(2) by auto
qed

definition late_lib :: "u64 lib" where
  "late_lib = example_lib\<lparr>kworld := 28000000, past := 30000000,
     loc_ctx := (loc_ctx example_lib)\<lparr>policy := LATENCY_ORIENTED,
       aux := zero_aux\<lparr>target_lat := 20000000, hist_ncycle := 9000000\<rparr>\<rparr>\<rparr>"

theorem late_task_sleeps_witness:
  "\<exists>ns s'. handle_tick_latency_oriented example_platform Own late_lib = Some s' \<and> 6000000000 \<le> uint ns \<and>
    clock example_platform (futex_wait example_platform ns 32000000) = (past s', kworld s')"
proof (rule late_task_sleeps [where now = 30000000 and d = 10000000, OF _ _ _ _ refl refl])
  show "clock example_platform (kworld late_lib) = (28000000, 30000000)"
    "clock example_platform 30000000 = (30000000, 32000000)"
    by (simp_all add: late_lib_def example_platform_def)
  have "get_instr_slice example_platform 32000000 = 1000000" by code_simp
  moreover have "aux (read_ctx Own late_lib) = zero_aux\<lparr>target_lat := 20000000, hist_ncycle := 9000000\<rparr>"
    by (simp add: late_lib_def read_ctx_def)
  ultimately show "lat_bias (aux (read_ctx Own late_lib)) = 0"
    "10000000 = uint (30000000 - start_time (aux (read_ctx Own late_lib))) - uint (target_lat (aux (read_ctx Own late_lib)))"
    "0 < uint (get_instr_slice example_platform 32000000)"
    "10000000 * uint (get_instr_slice example_platform 32000000) \<le> 2 ^ 63"
    "2 \<le> rest_cycles (aux (read_ctx Own late_lib)) (get_instr_slice example_platform 32000000)"
    "rest_cycles (aux (read_ctx Own late_lib)) (get_instr_slice example_platform 32000000) \<le> 2 ^ 30"
    by (simp_all add: zero_aux_simps rest_cycles_def)
qed (simp_all add: late_lib_def example_lib_def)

end
