(* ===== verification/Json.thy ===== *)
theory Json
  imports PyStr
begin

text \<open>
  \<open>json.dumps\<close> on the payloads the client builds: a flat \<open>dict\<close> with string and integer
  values, \<open>separators=(',', ':')\<close>, ASCII output. A decoder of that format shows that
  nothing is lost on the wire; it also serves as a concrete parser in the witnesses.
\<close>

datatype jval = JStr string | JInt int

type_synonym payload = "(string \<times> jval) list"

subsection \<open>Encoding\<close>

definition hex_char :: "int \<Rightarrow> char" where
  "hex_char n = ''0123456789abcdef'' ! nat n"

definition esc_char :: "char \<Rightarrow> string" where
  "esc_char c =
     (if code c = 34 then [char_of (92 :: int), c]
      else if code c = 92 then [c, c]
      else if code c = 8 then [char_of (92 :: int), CHR ''b'']
      else if code c = 12 then [char_of (92 :: int), CHR ''f'']
      else if code c = 10 then [char_of (92 :: int), CHR ''n'']
      else if code c = 13 then [char_of (92 :: int), CHR ''r'']
      else if code c = 9 then [char_of (92 :: int), CHR ''t'']
      else if 32 \<le> code c \<and> code c \<le> 126 then [c]
      else [char_of (92 :: int), CHR ''u'', CHR ''0'', CHR ''0'',
            hex_char (code c div 16), hex_char (code c mod 16)])"

definition quote :: char where
  "quote = char_of (34 :: int)"

definition json_string :: "string \<Rightarrow> string" where
  "json_string s = quote # concat (map esc_char s) @ [quote]"

fun json_value :: "jval \<Rightarrow> string" where
  "json_value (JStr s) = json_string s"
| "json_value (JInt n) = show_int n"

definition json_pair :: "string \<times> jval \<Rightarrow> string" where
  "json_pair p = json_string (fst p) @ '':'' @ json_value (snd p)"

definition json_dumps :: "payload \<Rightarrow> string" where
  "json_dumps d = ''{'' @ py_join '','' (map json_pair d) @ ''}''"

definition is_ascii :: "char \<Rightarrow> bool" where
  "is_ascii c \<longleftrightarrow> 32 \<le> code c \<and> code c \<le> 126"

definition utf8 :: "string \<Rightarrow> string" where
  \<comment> \<open>\<open>s.encode('utf-8')\<close>: two bytes for a code point between 128 and 255\<close>
  "utf8 s = concat (map (\<lambda>c. if code c < 128 then [c]
     else [char_of (192 + code c div 64), char_of (128 + code c mod 64)]) s)"

subsection \<open>Decoding\<close>

definition unesc :: "char \<Rightarrow> char option" where
  "unesc e =
     (if e = CHR ''b'' then Some (char_of (8 :: int))
      else if e = CHR ''f'' then Some (char_of (12 :: int))
      else if e = CHR ''n'' then Some (char_of (10 :: int))
      else if e = CHR ''r'' then Some (char_of (13 :: int))
      else if e = CHR ''t'' then Some (char_of (9 :: int))
      else if code e = 34 \<or> code e = 92 \<or> code e = 47 then Some e else None)"

fun dec_char :: "string \<Rightarrow> (char \<times> string) option" where
  "dec_char [] = None"
| "dec_char (c # cs) =
     (if code c = 34 then None
      else if code c = 92 then
        (case cs of [] \<Rightarrow> None
         | e # r \<Rightarrow>
             (if e = CHR ''u'' then
                (case r of h1 # h2 # h3 # h4 # t \<Rightarrow>
                   Some (char_of (hex_val h3 * 16 + hex_val h4), t)
                 | _ \<Rightarrow> None)
              else map_option (\<lambda>x. (x, r)) (unesc e)))
      else Some (c, cs))"

function (sequential) dec_chars :: "string \<Rightarrow> (string \<times> string) option" where
  "dec_chars [] = None"
| "dec_chars (c # cs) =
     (if code c = 34 then Some ([], cs)
      else case dec_char (c # cs) of
             None \<Rightarrow> None
           | Some (x, t) \<Rightarrow> (if length t < length (c # cs)
               then map_option (\<lambda>(xs, r). (x # xs, r)) (dec_chars t) else None))"
  by pat_completeness auto
termination
  by (relation "measure length") auto

definition dec_int :: "string \<Rightarrow> (int \<times> string) option" where
  "dec_int s =
     (let m = takeWhile (\<lambda>c. c = CHR ''-'' \<or> is_decimal c) s
      in map_option (\<lambda>n. (n, drop (length m) s)) (py_int m))"

definition dec_value :: "string \<Rightarrow> (jval \<times> string) option" where
  "dec_value s = (case s of
     [] \<Rightarrow> None
   | c # cs \<Rightarrow> (if c = quote then map_option (\<lambda>(x, t). (JStr x, t)) (dec_chars cs)
               else map_option (\<lambda>(n, t). (JInt n, t)) (dec_int s)))"

definition dec_pair :: "string \<Rightarrow> ((string \<times> jval) \<times> string) option" where
  "dec_pair s = (case s of
     [] \<Rightarrow> None
   | c # cs \<Rightarrow>
       (if c \<noteq> quote then None
        else case dec_chars cs of
          None \<Rightarrow> None
        | Some (k, t) \<Rightarrow>
            (if t = [] \<or> hd t \<noteq> CHR '':'' then None
             else map_option (\<lambda>(v, r). ((k, v), r)) (dec_value (tl t)))))"

fun dec_pairs :: "nat \<Rightarrow> string \<Rightarrow> payload option" where
  "dec_pairs 0 s = None"
| "dec_pairs (Suc f) s = (case dec_pair s of
     None \<Rightarrow> None
   | Some (p, t) \<Rightarrow>
       (if t = ''}'' then Some [p]
        else if t = [] \<or> hd t \<noteq> CHR '','' then None
        else map_option (\<lambda>ps. p # ps) (dec_pairs f (tl t))))"

definition json_parse :: "string \<Rightarrow> payload option" where
  \<comment> \<open>at most one pair per character\<close>
  "json_parse s =
     (if s = ''{}'' then Some []
      else if startswith s ''{'' then dec_pairs (length s) (tl s) else None)"

subsection \<open>The round trip\<close>

lemma dec_esc_all: "\<forall>c. dec_char (esc_char c) = Some (c, []) \<and> list_all is_ascii (esc_char c)
    \<and> code (hd (esc_char c)) \<noteq> 34"
  by code_simp

lemma dec_char_append: "dec_char xs = Some (c, []) \<Longrightarrow> dec_char (xs @ t) = Some (c, t)"
  by (cases xs) (auto split: if_splits list.splits)

lemma dec_char_esc [simp]: "dec_char (esc_char c @ t) = Some (c, t)"
  using dec_esc_all by (auto intro: dec_char_append)

lemma esc_char_nonempty [simp]: "esc_char c \<noteq> []"
  using dec_esc_all [THEN spec, of c] by auto

lemma quote_simps [simp]: "code quote = 34" "quote = c \<longleftrightarrow> code c = 34" "c = quote \<longleftrightarrow> code c = 34"
proof -
  show 1: "code quote = 34" by code_simp
  show 2: "quote = c \<longleftrightarrow> code c = 34"
    by (metis 1 code_def of_char_eq_iff)
  show "c = quote \<longleftrightarrow> code c = 34"
    using 2 by auto
qed

lemma dec_chars_esc [simp]: "dec_chars (concat (map esc_char s) @ quote # t) = Some (s, t)"
proof (induction s)
  case Nil
  then show ?case by simp
next
  case (Cons c s)
  obtain d ds where e: "esc_char c = d # ds" by (meson esc_char_nonempty neq_Nil_conv)
  have h: "code d \<noteq> 34" using dec_esc_all [THEN spec, of c] e by simp
  let ?r = "concat (map esc_char s) @ quote # t"
  have "dec_char (d # ds @ ?r) = Some (c, ?r)" using dec_char_esc [of c ?r] e by simp
  then show ?case using Cons.IH h by (simp add: e del: dec_char.simps)
qed

lemma ascii_json_string: "list_all is_ascii (json_string s)"
proof -
  have "list_all is_ascii (concat (map esc_char s))"
    using dec_esc_all by (induction s) auto
  moreover have "is_ascii quote" by (simp add: is_ascii_def)
  ultimately show ?thesis by (simp add: json_string_def)
qed

lemma takeWhile_show_int:
  assumes "t = [] \<or> (hd t \<noteq> CHR ''-'' \<and> \<not> is_decimal (hd t))"
  shows "takeWhile (\<lambda>c. c = CHR ''-'' \<or> is_decimal c) (show_int n @ t) = show_int n"
  using assms show_int_chars [of _ n]
  by (subst takeWhile_append2) (auto, cases t, auto)

lemma dec_int_show_int [simp]:
  "t = [] \<or> (hd t \<noteq> CHR ''-'' \<and> \<not> is_decimal (hd t)) \<Longrightarrow>
   dec_int (show_int n @ t) = Some (n, t)"
  by (simp add: dec_int_def takeWhile_show_int)

definition delimiter :: "string \<Rightarrow> bool" where
  "delimiter t \<longleftrightarrow> (\<exists>r. t = CHR '','' # r \<or> t = CHR ''}'' # r)"

lemma dec_value_json [simp]:
  assumes "delimiter t"
  shows "dec_value (json_value v @ t) = Some (v, t)"
proof (cases v)
  case (JStr s)
  then show ?thesis by (simp add: dec_value_def json_string_def)
next
  case (JInt n)
  have "show_int n \<noteq> []" by (simp add: show_int_def)
  then obtain c cs where c: "show_int n = c # cs" by (cases "show_int n") auto
  then have "c = CHR ''-'' \<or> is_decimal c" using show_int_chars [of c n] by simp
  then have q: "code c \<noteq> 34" by (auto simp: is_decimal_def code_def)
  have "dec_int (show_int n @ t) = Some (n, t)"
    using assms by (intro dec_int_show_int) (auto simp: delimiter_def is_decimal_def)
  with JInt c q show ?thesis by (simp add: dec_value_def)
qed

lemma dec_pair_json [simp]: "delimiter t \<Longrightarrow> dec_pair (json_pair p @ t) = Some (p, t)"
  by (cases p) (simp add: dec_pair_def json_pair_def json_string_def)

lemma dec_pairs_json:
  "ps \<noteq> [] \<Longrightarrow> length ps \<le> f \<Longrightarrow>
   dec_pairs f (py_join '','' (map json_pair ps) @ ''}'') = Some ps"
proof (induction ps arbitrary: f)
  case Nil
  then show ?case by simp
next
  case (Cons p ps)
  then obtain g where f: "f = Suc g" by (cases f) auto
  show ?case
  proof (cases ps)
    case Nil
    then show ?thesis by (simp add: f delimiter_def)
  next
    case (Cons q qs)
    let ?t = "py_join '','' (map json_pair ps) @ ''}''"
    have "dec_pair (json_pair p @ CHR '','' # ?t) = Some (p, CHR '','' # ?t)"
      by (rule dec_pair_json) (simp add: delimiter_def)
    moreover have "dec_pairs g ?t = Some ps" using Cons.IH [of g] Cons.prems f Cons by simp
    ultimately show ?thesis by (simp add: f Cons)
  qed
qed

lemma length_join: "length (map json_pair ps) \<le> Suc (length (py_join '','' (map json_pair ps)))"
proof (induction ps)
  case (Cons p ps)
  then show ?case by (cases ps) (auto simp: json_pair_def)
qed simp

lemma json_parse_dumps [simp]: "json_parse (json_dumps d) = Some d"
proof (cases "d = []")
  case True
  then show ?thesis by (simp add: json_parse_def json_dumps_def)
next
  case False
  let ?j = "py_join '','' (map json_pair d)"
  obtain p ps where d: "d = p # ps" using False by (cases d) auto
  have "?j \<noteq> []" unfolding d by (cases ps) (simp_all add: json_pair_def json_string_def)
  moreover have "dec_pairs (Suc (Suc (length ?j))) (?j @ ''}'') = Some d"
    using False length_join [of d] by (intro dec_pairs_json) simp_all
  ultimately show ?thesis by (simp add: json_parse_def json_dumps_def)
qed

lemma json_dumps_inj: "json_dumps d = json_dumps d' \<Longrightarrow> d = d'"
  by (metis option.inject json_parse_dumps)

subsection \<open>The text is ASCII\<close>

lemma ascii_punctuation [simp]:
  "is_ascii CHR '':''" "is_ascii CHR '',''" "is_ascii CHR ''{''" "is_ascii CHR ''}''"
  by code_simp+

lemma ascii_show_int: "list_all is_ascii (show_int n)"
proof -
  have "is_ascii c" if "c \<in> set (show_int n)" for c
    using show_int_chars [OF that] by (auto simp: is_ascii_def is_decimal_def code_def)
  then show ?thesis by (simp add: list_all_iff)
qed

lemma ascii_json_value: "list_all is_ascii (json_value v)"
  by (cases v) (auto simp: ascii_json_string ascii_show_int)

lemma ascii_join: "list_all is_ascii sep \<Longrightarrow> list_all (list_all is_ascii) xs \<Longrightarrow>
    list_all is_ascii (py_join sep xs)"
  by (induction sep xs rule: py_join.induct) auto

lemma ascii_json_dumps: "list_all is_ascii (json_dumps d)"
proof -
  have p: "list_all is_ascii (json_pair p)" for p
    by (simp add: json_pair_def ascii_json_string ascii_json_value)
  have "list_all is_ascii (py_join '','' (map json_pair d))"
    by (rule ascii_join) (simp_all add: list_all_iff [of "list_all is_ascii"] p)
  then show ?thesis by (simp add: json_dumps_def)
qed

end
