(* ===== verification/RobflexClient.thy ===== *)
theory RobflexClient
  imports Json
begin

text \<open>
  The Python client of the scheduling daemon (\<open>src/python/robflex_api.py\<close>): a lazily created
  thread-local datagram socket, the JSON payload of each command, and the integer status
  each call returns. The operating system is a parameter, a record of the calls the module
  makes; the client's own state is the thread-local slot and what it printed.
\<close>

subsection \<open>The calls into the operating system\<close>

record 'w os =
  os_socket :: "'w \<Rightarrow> nat result \<times> 'w"
  os_settimeout :: "nat \<Rightarrow> 'w \<Rightarrow> unit result \<times> 'w"
  os_sendto :: "nat \<Rightarrow> string \<Rightarrow> string \<Rightarrow> 'w \<Rightarrow> int result \<times> 'w"
  os_close :: "nat \<Rightarrow> 'w \<Rightarrow> unit result \<times> 'w"
  os_gettid :: "'w \<Rightarrow> int"

record 'w client =
  local_sock :: "nat option" \<comment> \<open>\<open>_local.sock\<close>; a missing attribute and \<open>None\<close> are alike\<close>
  printed :: "string list"
  world :: 'w

definition SOCKET_PATH :: string where
  "SOCKET_PATH = ''/tmp/schedule_daemon.sock''"

definition MAX_JSON_SIZE :: nat where
  "MAX_JSON_SIZE = 4096"

definition MAX_LOG_SIZE :: nat where
  "MAX_LOG_SIZE = 1024"

subsection \<open>Socket and send\<close>

definition get_socket :: "'w os \<Rightarrow> 'w client \<Rightarrow> nat result \<times> 'w client" where
  "get_socket os c = (case local_sock c of
     Some s \<Rightarrow> (Inr s, c)
   | None \<Rightarrow>
       (case os_socket os (world c) of
          (Inl e, w) \<Rightarrow> (Inl (if e = OSError then RuntimeError else e), c\<lparr>world := w\<rparr>)
        | (Inr s, w) \<Rightarrow>
            (case os_settimeout os s w of
               (Inl e, w') \<Rightarrow>
                 (Inl (if e = OSError then RuntimeError else e),
                  c\<lparr>local_sock := Some s, world := w'\<rparr>)
             | (Inr _, w') \<Rightarrow> (Inr s, c\<lparr>local_sock := Some s, world := w'\<rparr>))))"

definition too_large_warning :: "nat \<Rightarrow> string" where
  "too_large_warning n =
     ''Warning: JSON payload too large ('' @ show_int (int n) @ '' > '' @
     show_int (int MAX_JSON_SIZE) @ '')''"

definition send_command_to_daemon :: "'w os \<Rightarrow> payload \<Rightarrow> 'w client \<Rightarrow> int \<times> 'w client" where
  \<comment> \<open>the \<open>try\<close> block catches every \<open>Exception\<close>, so there is always a status\<close>
  "send_command_to_daemon os cmd c = (case get_socket os c of
     (Inl e, c1) \<Rightarrow> (- 1, c1)
   | (Inr sock, c1) \<Rightarrow>
       (let cmd_json = json_dumps cmd;
            c2 = (if MAX_JSON_SIZE < length cmd_json
                  then c1\<lparr>printed := printed c1 @ [too_large_warning (length cmd_json)]\<rparr>
                  else c1)
        in case os_sendto os sock (utf8 cmd_json) SOCKET_PATH (world c2) of
             (Inl e, w) \<Rightarrow> (- 1, c2\<lparr>world := w\<rparr>)
           | (Inr num_bytes, w) \<Rightarrow> (if num_bytes < 0 then - 1 else 0, c2\<lparr>world := w\<rparr>)))"

subsection \<open>The commands\<close>

definition own_tid :: "'w os \<Rightarrow> int \<Rightarrow> 'w client \<Rightarrow> int" where
  \<comment> \<open>\<open>if tid == 0: tid = os.gettid()\<close>\<close>
  "own_tid os tid c = (if tid = 0 then os_gettid os (world c) else tid)"

definition set_scheduler_payload :: "int \<Rightarrow> int \<Rightarrow> int \<Rightarrow> payload" where
  "set_scheduler_payload tid policy priority =
     [(''cmd'', JStr ''sched_setscheduler''), (''tid'', JInt tid), (''policy'', JInt policy),
      (''priority'', JInt priority)]"

definition robflex_set_scheduler ::
    "'w os \<Rightarrow> int \<Rightarrow> int \<Rightarrow> int \<Rightarrow> 'w client \<Rightarrow> int \<times> 'w client" where
  "robflex_set_scheduler os tid policy priority c =
     send_command_to_daemon os (set_scheduler_payload (own_tid os tid c) policy priority) c"

definition set_priority_payload :: "int \<Rightarrow> int \<Rightarrow> payload" where
  "set_priority_payload tid priority =
     [(''cmd'', JStr ''set_priority''), (''tid'', JInt tid), (''priority'', JInt priority)]"

definition robflex_set_priority ::
    "'w os \<Rightarrow> int \<Rightarrow> int \<Rightarrow> 'w client \<Rightarrow> int \<times> 'w client" where
  "robflex_set_priority os tid priority c =
     send_command_to_daemon os (set_priority_payload (own_tid os tid c) priority) c"

text \<open>
  The message of \<open>robflex_log_message\<close> is formatted with the caller's objects, whose own
  conversion methods run, so \<open>message % args\<close> and \<open>message.format(*args)\<close> are parameters.
\<close>

record 'a formatter =
  percent :: "string \<Rightarrow> 'a list \<Rightarrow> string result"
  brace :: "string \<Rightarrow> 'a list \<Rightarrow> string result"

definition format_message :: "'a formatter \<Rightarrow> string \<Rightarrow> 'a list \<Rightarrow> string result" where
  "format_message f message args =
     (if args = [] then Inr message
      else case percent f message args of
             Inl TypeError \<Rightarrow> brace f message args
           | r \<Rightarrow> r)"

definition log_message_payload :: "int \<Rightarrow> string \<Rightarrow> payload" where
  "log_message_payload tid message =
     [(''cmd'', JStr ''log_message''), (''tid'', JInt tid), (''message'', JStr message)]"

definition robflex_log_message ::
    "'w os \<Rightarrow> 'a formatter \<Rightarrow> int \<Rightarrow> string \<Rightarrow> 'a list \<Rightarrow> 'w client \<Rightarrow> int result \<times> 'w client" where
  "robflex_log_message os f tid message args c = (case format_message f message args of
     Inl e \<Rightarrow> (Inl e, c)
   | Inr formatted \<Rightarrow>
       (let formatted' = (if MAX_LOG_SIZE < length formatted then take MAX_LOG_SIZE formatted
                          else formatted);
            (r, c') = send_command_to_daemon os (log_message_payload tid formatted') c
        in (Inr r, c')))"

definition update_ctrl_time_cost_payload :: "int \<Rightarrow> int \<Rightarrow> payload" where
  "update_ctrl_time_cost_payload tid value_in_us =
     [(''cmd'', JStr ''update_ctrl_time_cost''), (''tid'', JInt tid),
      (''value_in_us'', JInt value_in_us)]"

definition robflex_update_ctrl_time_cost ::
    "'w os \<Rightarrow> int \<Rightarrow> int \<Rightarrow> 'w client \<Rightarrow> int \<times> 'w client" where
  "robflex_update_ctrl_time_cost os tid value_in_us c =
     send_command_to_daemon os (update_ctrl_time_cost_payload (own_tid os tid c) value_in_us) c"

definition apply_event_payload :: "string \<Rightarrow> int \<Rightarrow> int \<Rightarrow> payload" where
  "apply_event_payload event_name timeout strength =
     [(''cmd'', JStr ''apply_event''), (''event_name'', JStr event_name),
      (''timeout'', JInt timeout), (''strength'', JInt strength)]"

definition robflex_apply_event ::
    "'w os \<Rightarrow> string \<Rightarrow> int \<Rightarrow> int \<Rightarrow> 'w client \<Rightarrow> int \<times> 'w client" where
  "robflex_apply_event os event_name timeout strength c =
     send_command_to_daemon os (apply_event_payload event_name timeout strength) c"

definition cancel_event_payload :: "string \<Rightarrow> int \<Rightarrow> payload" where
  "cancel_event_payload event_name strength =
     [(''cmd'', JStr ''cancel_event''), (''event_name'', JStr event_name),
      (''strength'', JInt strength)]"

definition robflex_cancel_event ::
    "'w os \<Rightarrow> string \<Rightarrow> int \<Rightarrow> 'w client \<Rightarrow> int \<times> 'w client" where
  "robflex_cancel_event os event_name strength c =
     send_command_to_daemon os (cancel_event_payload event_name strength) c"

definition robflex_cleanup :: "'w os \<Rightarrow> 'w client \<Rightarrow> 'w client" where
  \<comment> \<open>the bare \<open>except: pass\<close> discards what \<open>close\<close> raises\<close>
  "robflex_cleanup os c = (case local_sock c of
     None \<Rightarrow> c
   | Some s \<Rightarrow> c\<lparr>local_sock := None, world := snd (os_close os s (world c))\<rparr>)"

definition print_line :: "string \<Rightarrow> 'w client \<Rightarrow> 'w client" where
  "print_line l c = c\<lparr>printed := printed c @ [l]\<rparr>"

definition api_main :: "'w os \<Rightarrow> int formatter \<Rightarrow> 'w client \<Rightarrow> unit result \<times> 'w client" where
  \<comment> \<open>the example at the end of the module\<close>
  "api_main os f c0 =
     (let c = print_line (''Connecting to daemon at: '' @ SOCKET_PATH) c0
      in case robflex_log_message os f 0 ''Python test log: Hello from PID %d'' [0] c of
        (Inl e, c) \<Rightarrow> (Inl e, c)
      | (Inr ret, c) \<Rightarrow>
          (Inr (), robflex_cleanup os (print_line (''log_message result: '' @ show_int ret) c)))"

subsection \<open>Facts about the client\<close>

lemma api_main_releases:
  "fst (api_main os f c) = Inr () \<Longrightarrow> local_sock (snd (api_main os f c)) = None"
  by (auto simp: api_main_def robflex_cleanup_def Let_def split: prod.splits sum.splits option.splits)

lemma utf8_ascii: "list_all is_ascii s \<Longrightarrow> utf8 s = s"
  by (induction s) (auto simp: utf8_def is_ascii_def)

lemma utf8_json [simp]: "utf8 (json_dumps d) = json_dumps d"
  by (intro utf8_ascii ascii_json_dumps)

lemma get_socket_cached [simp]: "local_sock c = Some s \<Longrightarrow> get_socket os c = (Inr s, c)"
  by (simp add: get_socket_def)

lemma get_socket_Inr:
  "get_socket os c = (Inr s, c') \<Longrightarrow> local_sock c' = Some s \<and> printed c' = printed c"
  by (auto simp: get_socket_def split: option.splits prod.splits sum.splits)

lemma get_socket_keeps:
  "local_sock c = Some s \<Longrightarrow> local_sock (snd (get_socket os c)) = Some s"
  by simp

lemma send_keeps_socket:
  "local_sock c = Some s \<Longrightarrow> local_sock (snd (send_command_to_daemon os cmd c)) = Some s"
  by (auto simp: send_command_to_daemon_def Let_def split: sum.splits prod.splits)

fun send_all :: "'w os \<Rightarrow> payload list \<Rightarrow> 'w client \<Rightarrow> int list \<times> 'w client" where
  "send_all os [] c = ([], c)"
| "send_all os (p # ps) c =
     (let (r, c1) = send_command_to_daemon os p c; (rs, c2) = send_all os ps c1 in (r # rs, c2))"

lemma send_cached:
  "local_sock c = Some s \<Longrightarrow>
   send_command_to_daemon (os\<lparr>os_socket := X, os_settimeout := Y\<rparr>) cmd c =
   send_command_to_daemon os cmd c"
  by (simp add: send_command_to_daemon_def)

text \<open>
  C20: what a status means. A send returns 0 or -1 and nothing else; it returns 0 only when
  the operating system accepted one datagram carrying the whole JSON text of the payload,
  on the thread's socket and for the daemon's path, and the client's last interaction with
  the world is that call.
\<close>

theorem send_status:
  "fst (send_command_to_daemon os cmd c) \<in> {0, - 1} \<and>
   (fst (send_command_to_daemon os cmd c) = 0 \<longrightarrow>
     (\<exists>s n w. local_sock (snd (send_command_to_daemon os cmd c)) = Some s \<and> 0 \<le> n \<and>
        os_sendto os s (json_dumps cmd) SOCKET_PATH w
          = (Inr n, world (snd (send_command_to_daemon os cmd c)))))"
proof (cases "get_socket os c")
  case (Pair r c1)
  show ?thesis
  proof (cases r)
    case (Inl e)
    with Pair show ?thesis by (simp add: send_command_to_daemon_def)
  next
    case (Inr s)
    then have l: "local_sock c1 = Some s" using Pair get_socket_Inr by blast
    obtain x w where x: "os_sendto os s (json_dumps cmd) SOCKET_PATH (world c1) = (x, w)"
      by (cases "os_sendto os s (json_dumps cmd) SOCKET_PATH (world c1)")
    show ?thesis
    proof (cases x)
      case (Inl e)
      with Pair \<open>r = Inr s\<close> x show ?thesis
        by (cases "MAX_JSON_SIZE < length (json_dumps cmd)") (simp_all add: send_command_to_daemon_def Let_def)
    next
      case (Inr n)
      with Pair \<open>r = Inr s\<close> x l show ?thesis
        by (cases "MAX_JSON_SIZE < length (json_dumps cmd)")
          (auto simp: send_command_to_daemon_def Let_def intro!: exI [of _ n] exI [of _ "world c1"])
    qed
  qed
qed

definition recording_os :: "string list os" where
  \<comment> \<open>a system that accepts every datagram and keeps its bytes\<close>
  "recording_os = \<lparr>os_socket = (\<lambda>w. (Inr 3, w)), os_settimeout = (\<lambda>s w. (Inr (), w)),
     os_sendto = (\<lambda>s b p w. (Inr (int (length b)), w @ [b])),
     os_close = (\<lambda>s w. (Inr (), w)), os_gettid = (\<lambda>w. 1)\<rparr>"

theorem send_status_witness:
  "\<exists>w. world (snd (send_command_to_daemon recording_os [(''cmd'', JStr ''x'')]
      \<lparr>local_sock = None, printed = [], world = []\<rparr>)) = w @ [json_dumps [(''cmd'', JStr ''x'')]]"
proof -
  have "fst (send_command_to_daemon recording_os [(''cmd'', JStr ''x'')] \<lparr>local_sock = None, printed = [], world = []\<rparr>) = 0"
    by code_simp
  moreover have o: "os_sendto recording_os s b p w = (Inr (int (length b)), w @ [b])" for s b p w
    by (simp add: recording_os_def)
  ultimately show ?thesis
    using send_status [of recording_os "[(''cmd'', JStr ''x'')]" "\<lparr>local_sock = None, printed = [], world = []\<rparr>"]
    unfolding o prod.inject by metis
qed

text \<open>
  C21: one socket per thread. Once the thread has its socket, any number of commands reuse it:
  the run is the same whatever creating or configuring a socket would do, and the thread
  still has that socket at the end.
\<close>

theorem one_socket_per_thread:
  assumes "local_sock c = Some s"
  shows "send_all (os\<lparr>os_socket := X, os_settimeout := Y\<rparr>) ps c = send_all os ps c \<and>
    local_sock (snd (send_all os ps c)) = Some s"
  using assms
proof (induction ps arbitrary: c)
  case Nil
  then show ?case by simp
next
  case (Cons p ps)
  have "local_sock (snd (send_command_to_daemon os p c)) = Some s"
    using Cons.prems by (rule send_keeps_socket)
  with Cons show ?case by (simp add: send_cached case_prod_beta Let_def)
qed

theorem one_socket_per_thread_witness:
  "local_sock (snd (send_all \<lparr>os_socket = (\<lambda>w :: nat. (Inr 3, w)), os_settimeout = (\<lambda>s w. (Inr (), w)),
      os_sendto = (\<lambda>s b p w. (Inr 1, w)), os_close = (\<lambda>s w. (Inr (), w)), os_gettid = (\<lambda>w. 1)\<rparr>
    [[], []] \<lparr>local_sock = Some 7, printed = [], world = 0\<rparr>)) = Some 7"
  using one_socket_per_thread [where c = "\<lparr>local_sock = Some 7, printed = [], world = 0\<rparr>" and s = 7
      and os = "\<lparr>os_socket = (\<lambda>w :: nat. (Inr 3, w)), os_settimeout = (\<lambda>s w. (Inr (), w)),
      os_sendto = (\<lambda>s b p w. (Inr 1, w)), os_close = (\<lambda>s w. (Inr (), w)), os_gettid = (\<lambda>w. 1)\<rparr>"
      and ps = "[[], []]"]
  by simp

text \<open>
  C22: a log call raises exactly when the formatting of its arguments raises, and then nothing
  is sent; otherwise it returns a status, and the text sent is the formatted message cut to
  \<open>MAX_LOG_SIZE\<close> characters.
\<close>

theorem log_message_outcome:
  "case robflex_log_message os f tid message args c of
     (Inl e, c') \<Rightarrow> c' = c \<and> args \<noteq> [] \<and>
       (percent f message args = Inl e \<and> e \<noteq> TypeError \<or>
        percent f message args = Inl TypeError \<and> brace f message args = Inl e)
   | (Inr r, c') \<Rightarrow> r \<in> {0, - 1} \<and>
       (\<exists>m. (args = [] \<and> m = message \<or> percent f message args = Inr m \<or>
          percent f message args = Inl TypeError \<and> brace f message args = Inr m) \<and>
        (r, c') = send_command_to_daemon os (log_message_payload tid (take MAX_LOG_SIZE m)) c)"
proof (cases "format_message f message args")
  case (Inl e)
  then show ?thesis
    by (auto simp: robflex_log_message_def format_message_def split: if_splits sum.splits exn.splits)
next
  case (Inr m)
  have t: "args = [] \<and> m = message \<or> percent f message args = Inr m \<or>
      percent f message args = Inl TypeError \<and> brace f message args = Inr m"
    using Inr by (auto simp: format_message_def split: if_splits sum.splits exn.splits)
  let ?s = "send_command_to_daemon os (log_message_payload tid (take MAX_LOG_SIZE m)) c"
  have "robflex_log_message os f tid message args c = (Inr (fst ?s), snd ?s)"
    using Inr by (simp add: robflex_log_message_def Let_def case_prod_beta)
  moreover have "fst ?s \<in> {0, - 1}"
    by (auto simp: send_command_to_daemon_def Let_def split: sum.splits prod.splits)
  ultimately show ?thesis using t by auto
qed

end
