(* ===== verification/CApi.thy ===== *)
theory CApi
  imports LatencyTick RobflexClient
begin

text \<open>
  The C library behind the Python binding (\<open>src/robflex_api.c\<close>). Every function is a
  sequence of statements of the calling thread; before each of them the ticks that the
  state's \<open>arrivals\<close> announces are delivered to the signal handler, which defers them while
  the thread is in a critical section. A tick that is being handled is not interrupted by
  another one. \<open>None\<close> is undefined behaviour. A context pointer is an address in
  \<open>contexts\<close>; NULL is 0 and is never mapped.
\<close>

subsection \<open>Ticks between statements\<close>

fun signal_n :: "'w platform \<Rightarrow> nat \<Rightarrow> 'w lib \<Rightarrow> 'w lib option" where
  "signal_n P 0 s = Some s"
| "signal_n P (Suc n) s = instruction_interrupt_handler P s \<bind> signal_n P n"

definition deliver :: "'w platform \<Rightarrow> 'w lib \<Rightarrow> 'w lib option" where
  "deliver P s = (case arrivals s of
     [] \<Rightarrow> Some s
   | n # ns \<Rightarrow> signal_n P n (s\<lparr>arrivals := ns\<rparr>))"

definition stmt :: "'w platform \<Rightarrow> ('w lib \<Rightarrow> 'w lib) \<Rightarrow> 'w lib \<Rightarrow> 'w lib option" where
  "stmt P f s = map_option f (deliver P s)"

definition enter_critical :: "'w lib \<Rightarrow> 'w lib" where
  "enter_critical s = s\<lparr>in_critical := True\<rparr>"

definition leave_critical :: "'w lib \<Rightarrow> 'w lib" where
  "leave_critical s = s\<lparr>in_critical := False\<rparr>"

partial_function (option) drain :: "'w platform \<Rightarrow> 'w lib \<Rightarrow> 'w lib option" where
  \<comment> \<open>\<open>while (atomic_exchange(&n_signal_pendings, 0)) handle_tick();\<close>\<close>
  "drain P s = do {
     s1 \<leftarrow> deliver P s;
     (if n_signal_pendings s1 = 0 then Some s1
      else do { s2 \<leftarrow> handle_tick P (s1\<lparr>n_signal_pendings := 0\<rparr>); drain P s2 }) }"

definition own_aux :: "(aux_data \<Rightarrow> aux_data) \<Rightarrow> 'w lib \<Rightarrow> 'w lib" where
  "own_aux f = upd_aux Own f"

definition has_budget :: "'w lib \<Rightarrow> bool" where
  \<comment> \<open>the negation of \<open>policy != YIELDING && policy != PREDETERMINED\<close>\<close>
  "has_budget s \<longleftrightarrow> policy (loc_ctx s) = YIELDING \<or> policy (loc_ctx s) = PREDETERMINED"

definition set_policy :: "int \<Rightarrow> 'w lib \<Rightarrow> 'w lib" where
  "set_policy p s = s\<lparr>loc_ctx := (loc_ctx s)\<lparr>policy := p\<rparr>\<rparr>"

definition with_clock :: "'w platform \<Rightarrow> (u64 \<Rightarrow> 'w lib \<Rightarrow> 'w lib) \<Rightarrow> 'w lib \<Rightarrow> 'w lib" where
  "with_clock P f s = (let (t, s') = read_clock P s in f t s')"

definition set_start_time :: "'w platform \<Rightarrow> 'w lib \<Rightarrow> 'w lib" where
  "set_start_time P = with_clock P (\<lambda>t. own_aux (\<lambda>a. a\<lparr>start_time := t\<rparr>))"

subsection \<open>The local context\<close>

type_synonym 'w call = "'w lib \<Rightarrow> (int \<times> 'w lib) option"

definition robflex_init_local_context :: "'w platform \<Rightarrow> int \<Rightarrow> 'w call" where
  "robflex_init_local_context P mode s0 = do {
     s \<leftarrow> stmt P (\<lambda>s. s\<lparr>loc_ctx := (loc_ctx s)\<lparr>avg_timecost_ns := DEFUALT_PERIOD_TIME_IN_NS\<rparr>\<rparr>) s0;
     s \<leftarrow> stmt P (set_policy mode) s;
     s \<leftarrow> stmt P (own_aux (set_time_slice_ns DEFUALT_PERIOD_TIME_IN_NS)) s;
     s \<leftarrow> stmt P (own_aux (set_time_budgets 0)) s;
     s \<leftarrow> stmt P leave_critical s;
     s \<leftarrow> stmt P (\<lambda>s. s\<lparr>n_signal_pendings := 0\<rparr>) s;
     Some (0, s) }"

definition robflex_set_cycles_for_tick :: "'w platform \<Rightarrow> u64 \<Rightarrow> 'w call" where
  \<comment> \<open>the argument is not used\<close>
  "robflex_set_cycles_for_tick P cycles s0 = do {
     s \<leftarrow> stmt P enter_critical s0;
     s \<leftarrow> deliver P s;
     (if \<not> has_budget s then do {
        s \<leftarrow> stmt P leave_critical s;
        s \<leftarrow> drain P s;
        Some (- 1, s) }
      else do {
        s \<leftarrow> stmt P (own_aux (set_time_budgets 0)) s;
        s \<leftarrow> stmt P leave_critical s;
        s \<leftarrow> drain P s;
        Some (0, s) }) }"

definition robflex_clear_time_budget :: "'w platform \<Rightarrow> 'w call" where
  "robflex_clear_time_budget P s0 = do {
     s \<leftarrow> stmt P enter_critical s0;
     s \<leftarrow> stmt P (own_aux (set_time_budgets 0)) s;
     s \<leftarrow> stmt P leave_critical s;
     s \<leftarrow> drain P s;
     Some (0, s) }"

definition robflex_set_time_for_throttle :: "'w platform \<Rightarrow> u64 \<Rightarrow> 'w call" where
  "robflex_set_time_for_throttle P time_ns s0 = do {
     s \<leftarrow> stmt P enter_critical s0;
     s \<leftarrow> deliver P s;
     (if \<not> has_budget s then do {
        s \<leftarrow> stmt P leave_critical s;
        s \<leftarrow> drain P s;
        Some (- 1, s) }
      else do {
        s \<leftarrow> stmt P (own_aux (set_time_slice_ns time_ns)) s;
        s \<leftarrow> stmt P (own_aux (set_time_budgets 0)) s;
        s \<leftarrow> stmt P leave_critical s;
        s \<leftarrow> drain P s;
        Some (0, s) }) }"

definition robflex_set_as_immediate :: "'w platform \<Rightarrow> u64 \<Rightarrow> 'w call" where
  "robflex_set_as_immediate P prio s0 = do {
     s \<leftarrow> stmt P (set_policy IMMEDIATE) s0;
     Some (0, s) }"

definition robflex_set_as_latency_flick :: "'w platform \<Rightarrow> u64 \<Rightarrow> u64 \<Rightarrow> 'w call" where
  "robflex_set_as_latency_flick P lat_ns base_ns s0 = do {
     s \<leftarrow> stmt P enter_critical s0;
     s \<leftarrow> stmt P (set_policy LATENCY_ORIENTED) s;
     s \<leftarrow> stmt P (own_aux (\<lambda>a. a\<lparr>target_lat := lat_ns\<rparr>)) s;
     s \<leftarrow> stmt P (set_start_time P) s;
     s \<leftarrow> stmt P (own_aux (\<lambda>a. a\<lparr>hist_ncycle := base_ns\<rparr>)) s;
     s \<leftarrow> stmt P (own_aux (\<lambda>a. a\<lparr>total_latency := 0\<rparr>)) s;
     s \<leftarrow> stmt P (own_aux (\<lambda>a. a\<lparr>used_latency := 0\<rparr>)) s;
     s \<leftarrow> stmt P leave_critical s;
     s \<leftarrow> drain P s;
     Some (0, s) }"

definition robflex_add_runcycle :: "'w platform \<Rightarrow> u64 \<Rightarrow> 'w call" where
  "robflex_add_runcycle P runcycle s0 = do {
     s \<leftarrow> stmt P enter_critical s0;
     s \<leftarrow> stmt P (own_aux (\<lambda>a. a\<lparr>used_ncycle := used_ncycle a + runcycle\<rparr>)) s;
     s \<leftarrow> stmt P leave_critical s;
     s \<leftarrow> drain P s;
     Some (0, s) }"

subsection \<open>Latency chains\<close>

record chain_context =
  chain_total_latency :: u64
  chain_used_latency :: u64
  local_target_latency :: u64
  local_used_latency :: u64

definition no_chain :: chain_context where
  "no_chain = \<lparr>chain_total_latency = 0, chain_used_latency = 0, local_target_latency = 0,
     local_used_latency = 0\<rparr>"

definition chain_of :: "aux_data \<Rightarrow> u64 \<Rightarrow> chain_context" where
  "chain_of a pass_time = \<lparr>chain_total_latency = total_latency a + target_lat a,
     chain_used_latency = used_latency a + pass_time,
     local_target_latency = target_lat a, local_used_latency = pass_time\<rparr>"

definition robflex_shot_on_latency ::
    "'w platform \<Rightarrow> 'w lib \<Rightarrow> (chain_context \<times> 'w lib) option" where
  "robflex_shot_on_latency P s0 = do {
     s \<leftarrow> stmt P enter_critical s0;
     s \<leftarrow> deliver P s;
     (if policy (loc_ctx s) \<noteq> LATENCY_ORIENTED then do {
        s \<leftarrow> stmt P leave_critical s;
        s \<leftarrow> drain P s;
        Some (no_chain, s) }
      else do {
        s \<leftarrow> deliver P s;
        let (current_time, s) = read_clock P s;
        let pass_time = current_time - start_time (aux (loc_ctx s));
        s \<leftarrow> deliver P s;
        let chain_ctx = chain_of (aux (loc_ctx s)) pass_time;
        s \<leftarrow> stmt P (own_aux (\<lambda>a. a\<lparr>hist_ncycle := mix (1 / 2) (1 / 2) (hist_ncycle a) (used_ncycle a)\<rparr>)) s;
        s \<leftarrow> stmt P (own_aux (\<lambda>a. a\<lparr>used_ncycle := 0\<rparr>)) s;
        s \<leftarrow> stmt P leave_critical s;
        s \<leftarrow> drain P s;
        s \<leftarrow> stmt P (set_start_time P) s;
        s \<leftarrow> stmt P (own_aux (\<lambda>a. a\<lparr>total_latency := 0\<rparr>)) s;
        s \<leftarrow> stmt P (own_aux (\<lambda>a. a\<lparr>used_latency := 0\<rparr>)) s;
        Some (chain_ctx, s) }) }"

definition feedback_bias :: "chain_context \<Rightarrow> int \<Rightarrow> u64" where
  \<comment> \<open>the difference of two \<open>long long\<close>, scaled; the division truncates towards zero\<close>
  "feedback_bias chain_ctx pct =
     (let x = (local_target_latency chain_ctx - local_used_latency chain_ctx) * word_of_int pct
      in word_of_int (sgn (sint x) * (\<bar>sint x\<bar> div 100)))"

definition robflex_chained_from_latency :: "'w platform \<Rightarrow> chain_context \<Rightarrow> int \<Rightarrow> 'w call" where
  "robflex_chained_from_latency P chain_ctx pct s0 = do {
     s \<leftarrow> stmt P enter_critical s0;
     s \<leftarrow> stmt P (set_start_time P) s;
     s \<leftarrow> stmt P (own_aux (\<lambda>a. a\<lparr>total_latency := chain_total_latency chain_ctx\<rparr>)) s;
     s \<leftarrow> stmt P (own_aux (\<lambda>a. a\<lparr>used_latency := chain_used_latency chain_ctx\<rparr>)) s;
     s \<leftarrow> stmt P (own_aux (\<lambda>a. a\<lparr>lat_bias := feedback_bias chain_ctx pct\<rparr>)) s;
     s \<leftarrow> stmt P leave_critical s;
     s \<leftarrow> drain P s;
     Some (0, s) }"

subsection \<open>Switching contexts\<close>

definition load_ctx :: "nat \<Rightarrow> 'w lib \<Rightarrow> local_context option" where
  "load_ctx p s = contexts s p"

definition store_ctx :: "nat \<Rightarrow> local_context \<Rightarrow> 'w lib \<Rightarrow> 'w lib option" where
  "store_ctx p c s =
     (if contexts s p = None then None else Some (s\<lparr>contexts := (contexts s)(p \<mapsto> c)\<rparr>))"

definition save_back :: "nat \<Rightarrow> local_context \<Rightarrow> 'w lib \<Rightarrow> 'w lib option" where
  \<comment> \<open>\<open>if (saved_context != NULL) *saved_context = loc_ctx_backup\<close>\<close>
  "save_back saved_context backup s = (if saved_context = 0 then Some s else store_ctx saved_context backup s)"

definition robflex_switch_context :: "'w platform \<Rightarrow> nat \<Rightarrow> nat \<Rightarrow> 'w call" where
  "robflex_switch_context P new_context saved_context s0 = do {
     s \<leftarrow> stmt P enter_critical s0;
     s \<leftarrow> deliver P s;
     let loc_ctx_backup = loc_ctx s;
     s \<leftarrow> deliver P s;
     new \<leftarrow> load_ctx new_context s;
     let s = s\<lparr>loc_ctx := new\<rparr>;
     s \<leftarrow> stmt P leave_critical s;
     s \<leftarrow> drain P s;
     s \<leftarrow> deliver P s;
     s \<leftarrow> save_back saved_context loc_ctx_backup s;
     Some (0, s) }"

definition hold :: "'w lib \<Rightarrow> nat \<times> 'w lib" where
  \<comment> \<open>the ticks that arrive while \<open>PERF_SIGNAL\<close> is blocked are queued by the kernel\<close>
  "hold s = (case arrivals s of [] \<Rightarrow> (0, s) | n # ns \<Rightarrow> (n, s\<lparr>arrivals := ns\<rparr>))"

definition robflex_switch_context_block :: "'w platform \<Rightarrow> nat \<Rightarrow> nat \<Rightarrow> 'w call" where
  "robflex_switch_context_block P new_context saved_context s0 = do {
     s \<leftarrow> deliver P s0;
     let (n1, s) = hold s;
     let loc_ctx_backup = loc_ctx s;
     let (n2, s) = hold s;
     new \<leftarrow> load_ctx new_context s;
     let s = s\<lparr>loc_ctx := new\<rparr>;
     let (n3, s) = hold s;
     s \<leftarrow> signal_n P (n1 + n2 + n3) s;
     s \<leftarrow> deliver P s;
     s \<leftarrow> save_back saved_context loc_ctx_backup s;
     Some (0, s) }"

subsection \<open>Events\<close>

definition robflex_create_event :: "string option \<Rightarrow> 'w call" where
  "robflex_create_event event_name s = Some (0, s)"

definition robflex_delete_event :: "string option \<Rightarrow> 'w call" where
  "robflex_delete_event event_name s = Some (0, s)"

definition event_context :: "int \<Rightarrow> aux_data \<Rightarrow> u32 \<Rightarrow> local_context" where
  \<comment> \<open>the members that the initializer does not name are zero\<close>
  "event_context epolicy data lv =
     \<lparr>policy = epolicy, aux = data, level = sint lv, cycles_num = 0, avg_timecost_ns = 0\<rparr>"

text \<open>
  The table is changed by single stores, outside a critical section: ticks can come between
  them. \<open>None\<close> is the status -1.
\<close>

definition set_entry :: "nat \<Rightarrow> (event_entry \<Rightarrow> event_entry) \<Rightarrow> event_table \<Rightarrow> event_table" where
  "set_entry i f t = t\<lparr>entries := (entries t)[i := f (entries t ! i)]\<rparr>"

definition upsert_stores :: "int \<Rightarrow> local_context \<Rightarrow> event_table \<Rightarrow> (event_table \<Rightarrow> event_table) list option" where
  "upsert_stores event_idx ctx t =
     (if event_idx \<le> ROBFLEX_EVENT_NONE then None
      else case find_entry t event_idx of
        Some i \<Rightarrow> Some [set_entry i (\<lambda>e. e\<lparr>ev_ctx := ctx\<rparr>)]
      | None \<Rightarrow>
          (case first_index (\<lambda>e. \<not> in_use e) (entries t) of
             Some i \<Rightarrow> Some [set_entry i (\<lambda>e. e\<lparr>in_use := True\<rparr>), set_entry i (\<lambda>e. e\<lparr>ev_idx := event_idx\<rparr>),
               set_entry i (\<lambda>e. e\<lparr>ev_ctx := ctx\<rparr>), \<lambda>t. t\<lparr>entry_count := entry_count t + 1\<rparr>]
           | None \<Rightarrow> None))"

definition erase_stores :: "int \<Rightarrow> event_table \<Rightarrow> (event_table \<Rightarrow> event_table) list option" where
  "erase_stores event_idx t = (case find_entry t event_idx of
     None \<Rightarrow> None
   | Some i \<Rightarrow> Some [set_entry i (\<lambda>e. e\<lparr>in_use := False\<rparr>), set_entry i (\<lambda>e. e\<lparr>ev_idx := ROBFLEX_EVENT_NONE\<rparr>),
       \<lambda>t. t\<lparr>entry_count := (if 0 < entry_count t then entry_count t - 1 else entry_count t)\<rparr>])"

fun run_stores :: "'w platform \<Rightarrow> (event_table \<Rightarrow> event_table) list \<Rightarrow> 'w lib \<Rightarrow> 'w lib option" where
  "run_stores P [] s = Some s"
| "run_stores P (f # fs) s = stmt P (\<lambda>s. s\<lparr>event_map := f (event_map s)\<rparr>) s \<bind> run_stores P fs"

definition change_table :: "'w platform \<Rightarrow> (event_table \<Rightarrow> event_table) list option \<Rightarrow> 'w call" where
  "change_table P fs s = (case fs of None \<Rightarrow> Some (- 1, s) | Some fs \<Rightarrow> map_option (Pair 0) (run_stores P fs s))"

definition robflex_attach_context_for_event ::
    "'w platform \<Rightarrow> string option \<Rightarrow> int \<Rightarrow> aux_data \<Rightarrow> u32 \<Rightarrow> 'w call" where
  "robflex_attach_context_for_event P event_name epolicy data lv s0 = do {
     s \<leftarrow> deliver P s0;
     (let event_idx = robflex_get_event_idx event_name
      in if event_idx = ROBFLEX_EVENT_NONE then Some (- 1, s)
         else change_table P (upsert_stores event_idx (event_context epolicy data lv) (event_map s)) s) }"

definition robflex_dettach_context_for_event :: "'w platform \<Rightarrow> string option \<Rightarrow> 'w call" where
  "robflex_dettach_context_for_event P event_name s0 = do {
     s \<leftarrow> deliver P s0;
     (let event_idx = robflex_get_event_idx event_name
      in if event_idx = ROBFLEX_EVENT_NONE then Some (- 1, s)
         else change_table P (erase_stores event_idx (event_map s)) s) }"

definition robflex_get_policy_for_event :: "'w platform \<Rightarrow> string option \<Rightarrow> 'w call" where
  "robflex_get_policy_for_event P event_name s0 = do {
     s \<leftarrow> deliver P s0;
     (let event_idx = robflex_get_event_idx event_name
      in if event_idx = ROBFLEX_EVENT_NONE then Some (- 1, s)
         else case event_table_get_ctx (event_map s) event_idx of
           None \<Rightarrow> Some (- 1, s)
         | Some ctx \<Rightarrow> Some (policy ctx, s)) }"

definition robflex_test_event :: "'w platform \<Rightarrow> int \<Rightarrow> 'w lib \<Rightarrow> (bool \<times> 'w lib) option" where
  "robflex_test_event P event_idx s0 = do {
     s \<leftarrow> deliver P s0;
     b \<leftarrow> test_event P event_idx s;
     Some (b, s) }"

definition robflex_system_busy_degree ::
    "'w platform \<Rightarrow> 'w lib \<Rightarrow> (busy_degree \<times> 'w lib) option" where
  "robflex_system_busy_degree P s0 = do {
     s \<leftarrow> deliver P s0;
     b \<leftarrow> system_busy_degree P s;
     Some (b, s) }"

end
