(* ===== verification/CApiFacts.thy ===== *)
theory CApiFacts
  imports CApi
begin

text \<open>
  What the functions of \<open>src/robflex_api.c\<close> guarantee under any schedule of ticks: their
  critical sections take effect at once, no tick is lost, and any sequence of calls leaves
  the thread outside its critical section with nothing pending.
\<close>

subsection \<open>Ticks outside and inside a critical section\<close>

fun ticks :: "'w platform \<Rightarrow> nat \<Rightarrow> 'w lib \<Rightarrow> 'w lib option" where
  "ticks P 0 s = Some s"
| "ticks P (Suc n) s = handle_tick P s \<bind> ticks P n"

definition calm :: "'w lib \<Rightarrow> bool" where
  "calm s \<longleftrightarrow> \<not> in_critical s \<and> n_signal_pendings s = 0 \<and> ready s"

lemma calm_control: "control s' = control s \<Longrightarrow> calm s' = calm s"
  using controlD(1,2) [of s' s] ready_control [of s' s] by (simp add: calm_def)

lemma control_ticks: "ticks P n s = Some s' \<Longrightarrow> control s' = control s"
proof (induction n arbitrary: s)
  case (Suc n)
  then obtain t where "handle_tick P s = Some t" "ticks P n t = Some s'"
    by (auto simp: bind_eq_Some_conv)
  then show ?case using Suc.IH [of t] control_tick [of P s t] by simp
qed simp

lemma ticks_defined: "live s \<Longrightarrow> ticks P n s \<noteq> None"
proof (induction n arbitrary: s)
  case (Suc n)
  obtain t where t: "handle_tick P s = Some t" using handle_tick_live [OF Suc.prems] .
  then show ?case using Suc.IH [of t] Suc.prems live_control [OF control_tick [OF t]] by simp
qed simp

lemma signal_outside: "\<not> in_critical s \<Longrightarrow> signal_n P n s = ticks P n s"
proof (induction n arbitrary: s)
  case (Suc n)
  have "handle_tick P s \<bind> signal_n P n = handle_tick P s \<bind> ticks P n"
  proof (cases "handle_tick P s")
    case (Some t)
    then show ?thesis using Suc.IH [of t] Suc.prems controlD(1) [OF control_tick [OF Some]] by simp
  qed simp
  then show ?case using Suc.prems by (simp add: instruction_interrupt_handler_def)
qed simp

lemma signal_inside:
  "in_critical s \<Longrightarrow> signal_n P n s = Some (s\<lparr>n_signal_pendings := n_signal_pendings s + of_nat n\<rparr>)"
  by (induction n arbitrary: s) (simp_all add: instruction_interrupt_handler_def add.commute add.left_commute)

definition due :: "'w lib \<Rightarrow> nat" where
  "due s = (case arrivals s of [] \<Rightarrow> 0 | n # _ \<Rightarrow> n)"

lemma deliver_outside:
  "\<not> in_critical s \<Longrightarrow> deliver P s = ticks P (due s) (s\<lparr>arrivals := tl (arrivals s)\<rparr>)"
  by (cases "arrivals s") (simp_all add: deliver_def due_def signal_outside)

text \<open>Inside a critical section the ticks of \<open>k\<close> statements only add to the pending ones.\<close>

definition absorb :: "nat \<Rightarrow> 'w lib \<Rightarrow> 'w lib" where
  "absorb k s = s\<lparr>n_signal_pendings := n_signal_pendings s + of_nat (sum_list (take k (arrivals s))),
     arrivals := drop k (arrivals s)\<rparr>"

definition quiet :: "('w lib \<Rightarrow> 'w lib) \<Rightarrow> bool" where
  \<comment> \<open>a statement that neither reads nor writes what the ticks' bookkeeping uses\<close>
  "quiet f \<longleftrightarrow> (\<forall>s b n as. f (s\<lparr>in_critical := b, n_signal_pendings := n, arrivals := as\<rparr>) =
       (f s)\<lparr>in_critical := b, n_signal_pendings := n, arrivals := as\<rparr>)"

lemma quietD:
  "quiet f \<Longrightarrow> f (s\<lparr>in_critical := b, n_signal_pendings := n, arrivals := xs\<rparr>) =
     (f s)\<lparr>in_critical := b, n_signal_pendings := n, arrivals := xs\<rparr>"
  by (simp add: quiet_def)

lemma quiet_keeps:
  assumes "quiet f"
  shows "in_critical (f s) = in_critical s" "n_signal_pendings (f s) = n_signal_pendings s"
    "arrivals (f s) = arrivals s"
proof -
  have h: "f s = (f s)\<lparr>in_critical := in_critical s, n_signal_pendings := n_signal_pendings s,
      arrivals := arrivals s\<rparr>"
    using quietD [OF assms, where s = s and b = "in_critical s" and n = "n_signal_pendings s" and xs = "arrivals s"] by simp
  show "in_critical (f s) = in_critical s" "n_signal_pendings (f s) = n_signal_pendings s"
    "arrivals (f s) = arrivals s"
    using arg_cong [OF h, of in_critical] arg_cong [OF h, of n_signal_pendings]
      arg_cong [OF h, of arrivals] by simp_all
qed

lemma quiet_comp: "quiet f \<Longrightarrow> quiet g \<Longrightarrow> quiet (\<lambda>s. g (f s))"
  by (simp add: quiet_def)

lemma quiet_enter:
  assumes "quiet f"
  shows "f (s\<lparr>in_critical := b\<rparr>) = (f s)\<lparr>in_critical := b\<rparr>"
  using quietD [OF assms, where s = s and b = b and n = "n_signal_pendings s" and xs = "arrivals s"] quiet_keeps [OF assms, of s]
  by simp

lemma absorb_0 [simp]: "absorb 0 s = s"
  by (simp add: absorb_def)

lemma in_critical_absorb [simp]: "in_critical (absorb k s) = in_critical s"
  by (simp add: absorb_def)

lemma deliver_inside: "in_critical s \<Longrightarrow> deliver P (absorb k s) = Some (absorb (Suc k) s)"
proof (cases "drop k (arrivals s)")
  case Nil
  assume "in_critical s"
  with Nil show ?thesis by (simp add: deliver_def absorb_def)
next
  case (Cons n ns)
  assume c: "in_critical s"
  have "k < length (arrivals s)" using Cons by (metis drop_all list.discI not_le)
  moreover have "arrivals s ! k = n" "drop (Suc k) (arrivals s) = ns"
    using Cons by (metis \<open>k < length (arrivals s)\<close> Cons_nth_drop_Suc list.inject)+
  ultimately show ?thesis using Cons c
    by (simp add: deliver_def absorb_def signal_inside take_Suc_conv_app_nth add.assoc)
qed

lemma quiet_absorb:
  assumes "quiet f"
  shows "f (absorb k s) = absorb k (f s)"
  using quietD [OF assms, where s = s and b = "in_critical s"] quiet_keeps [OF assms, of s]
  by (simp add: absorb_def)

lemma stmt_inside:
  "in_critical s \<Longrightarrow> quiet f \<Longrightarrow> stmt P f (absorb k s) = Some (absorb (Suc k) (f s))"
  by (simp add: stmt_def deliver_inside quiet_absorb)

lemma stmt_leave:
  "in_critical s \<Longrightarrow> stmt P leave_critical (absorb k s) = Some (absorb (Suc k) (leave_critical s))"
  by (simp add: stmt_def deliver_inside) (simp add: leave_critical_def absorb_def)

subsection \<open>Leaving a critical section\<close>

definition settle :: "'w platform \<Rightarrow> 'w lib \<Rightarrow> 'w lib option" where
  \<comment> \<open>what the loop at the end of a critical section amounts to: one tick for all pending ones\<close>
  "settle P s = do {
     s \<leftarrow> deliver P s;
     (if n_signal_pendings s = 0 then Some s
      else handle_tick P (s\<lparr>n_signal_pendings := 0\<rparr>) \<bind> deliver P) }"

lemma control_deliver:
  assumes "\<not> in_critical s" "deliver P s = Some s'"
  shows "control s' = control (s\<lparr>arrivals := tl (arrivals s)\<rparr>)"
  using assms control_ticks by (simp add: deliver_outside)

lemma deliver_keeps:
  assumes "\<not> in_critical s" "deliver P s = Some s'"
  shows "\<not> in_critical s'" "n_signal_pendings s' = n_signal_pendings s" "ready s' = ready s"
    "policy (loc_ctx s') = policy (loc_ctx s)" "arrivals s' = tl (arrivals s)"
    "contexts s' = contexts s"
proof -
  note c = control_deliver [OF assms]
  show "\<not> in_critical s'" "n_signal_pendings s' = n_signal_pendings s"
    "policy (loc_ctx s') = policy (loc_ctx s)" "arrivals s' = tl (arrivals s)"
    "contexts s' = contexts s"
    using controlD [OF c] assms(1) by simp_all
  show "ready s' = ready s" using ready_control [OF c] by (simp add: ready_def)
qed

lemma deliver_live: "\<not> in_critical s \<Longrightarrow> live s \<Longrightarrow> deliver P s \<noteq> None"
  unfolding deliver_outside by (rule ticks_defined) (simp add: live_def)

lemma deliver_defined: "\<not> in_critical s \<Longrightarrow> ready s \<Longrightarrow> deliver P s \<noteq> None"
  using deliver_live ready_live by blast

lemma drain_settle:
  assumes "\<not> in_critical s"
  shows "drain P s = settle P s"
proof -
  have e: "drain P t = deliver P t" if "\<not> in_critical t" "n_signal_pendings t = 0" for t
    using deliver_keeps(2) [OF that(1), of P] that(2)
    by (subst drain.simps) (cases "deliver P t"; simp)
  have "drain P t = deliver P t" if "handle_tick P (u\<lparr>n_signal_pendings := 0\<rparr>) = Some t"
    "deliver P s = Some u" for t u
    using that controlD(1,2) [OF control_tick [OF that(1)]] deliver_keeps(1) [OF assms that(2)]
    by (intro e) simp_all
  then have "handle_tick P (u\<lparr>n_signal_pendings := 0\<rparr>) \<bind> drain P =
      handle_tick P (u\<lparr>n_signal_pendings := 0\<rparr>) \<bind> deliver P" if "deliver P s = Some u" for u
    using that by (cases "handle_tick P (u\<lparr>n_signal_pendings := 0\<rparr>)") simp_all
  then show ?thesis unfolding settle_def
    by (subst drain.simps) (cases "deliver P s"; simp)
qed

lemma settle_calm:
  assumes "\<not> in_critical s" "ready s"
  obtains s' where "settle P s = Some s'" "calm s'" "policy (loc_ctx s') = policy (loc_ctx s)"
    "contexts s' = contexts s"
proof -
  obtain u where u: "deliver P s = Some u" using deliver_defined [OF assms] by blast
  note k = deliver_keeps [OF assms(1) u]
  show thesis
  proof (cases "n_signal_pendings u = 0")
    case True
    then show thesis using that [of u] u k assms by (simp add: settle_def calm_def)
  next
    case False
    let ?u = "u\<lparr>n_signal_pendings := 0\<rparr>"
    have r: "ready ?u" using k assms by (simp add: ready_def)
    obtain t where t: "handle_tick P ?u = Some t" using handle_tick_ready [OF r] .
    note ct = control_tick [OF t]
    have tk: "\<not> in_critical t" "ready t" "n_signal_pendings t = 0"
      "policy (loc_ctx t) = policy (loc_ctx u)" "contexts t = contexts u"
      using controlD [OF ct] ready_control [OF ct] r k(1) by simp_all
    obtain v where v: "deliver P t = Some v" using deliver_defined [OF tk(1,2)] by blast
    note kv = deliver_keeps [OF tk(1) v]
    show thesis
      using that [of v] u t v False k kv tk by (simp add: settle_def calm_def)
  qed
qed

subsection \<open>A call is one step\<close>

definition atomic_call :: "'w platform \<Rightarrow> nat \<Rightarrow> ('w lib \<Rightarrow> 'w lib) \<Rightarrow> int \<Rightarrow> 'w call" where
  \<comment> \<open>ticks, then the update at once, then the ticks that came during the \<open>k\<close> statements\<close>
  "atomic_call P k f rc s = do {
     s \<leftarrow> deliver P s;
     s \<leftarrow> settle P (absorb k (f s));
     Some (rc, s) }"

lemma quiet_upd_aux [simp]: "quiet (upd_aux r f)"
  by (auto simp: quiet_def upd_aux_def write_ctx_def read_ctx_def split: ctx_ref.split)

lemma quiet_own_aux [simp]: "quiet (own_aux f)"
  by (unfold own_aux_def) (rule quiet_upd_aux)

lemma quiet_id [simp]: "quiet id" "quiet (set_policy p)"
  by (simp_all add: quiet_def set_policy_def)

lemma quiet_o [simp]: "quiet f \<Longrightarrow> quiet g \<Longrightarrow> quiet (g \<circ> f)"
  by (simp add: quiet_def)

lemma quiet_with_clock:
  assumes "\<And>t. quiet (f t)"
  shows "quiet (with_clock P f)"
  unfolding quiet_def
proof (intro allI)
  fix s :: "'a lib" and b n xs
  let ?t = "fst (clock P (kworld s))" and ?s = "s\<lparr>kworld := snd (clock P (kworld s))\<rparr>"
  have e: "s\<lparr>in_critical := b, n_signal_pendings := n, arrivals := xs, kworld := w\<rparr> =
      s\<lparr>kworld := w, in_critical := b, n_signal_pendings := n, arrivals := xs\<rparr>" for w by simp
  show "with_clock P f (s\<lparr>in_critical := b, n_signal_pendings := n, arrivals := xs\<rparr>) =
      (with_clock P f s)\<lparr>in_critical := b, n_signal_pendings := n, arrivals := xs\<rparr>"
    using quietD [OF assms, where s = ?s and b = b and n = n and xs = xs]
    by (simp add: with_clock_def read_clock_def case_prod_beta e)
qed

lemma quiet_start_time [simp]: "quiet (set_start_time P)"
  unfolding set_start_time_def by (rule quiet_with_clock) simp

lemma enter_stmt:
  "stmt P enter_critical s = map_option (\<lambda>s. absorb 0 (s\<lparr>in_critical := True\<rparr>)) (deliver P s)"
  by (cases "deliver P s") (simp_all add: stmt_def enter_critical_def)

lemma leave_enter:
  assumes "quiet f" "\<not> in_critical s"
  shows "leave_critical (f (s\<lparr>in_critical := True\<rparr>)) = f s"
proof -
  have "s\<lparr>in_critical := False\<rparr> = s" using assms(2) by (cases s) simp
  then show ?thesis
    using quiet_enter [OF assms(1), where s = s and b = True] quiet_enter [OF assms(1), where s = s and b = False]
    by (simp add: leave_critical_def)
qed

lemma run_block:
  \<comment> \<open>what follows the statements of a block once the lock is released\<close>
  assumes "quiet f" "\<not> in_critical s"
  shows "stmt P leave_critical (absorb k (f (s\<lparr>in_critical := True\<rparr>))) = Some (absorb (Suc k) (f s))"
    and "drain P (absorb (Suc k) (f s)) = settle P (absorb (Suc k) (f s))"
  using stmt_leave [of "f (s\<lparr>in_critical := True\<rparr>)"] leave_enter [OF assms] quiet_keeps(1) [OF assms(1)] assms(2)
  by (simp_all add: drain_settle)

definition clear_update :: "'w lib \<Rightarrow> 'w lib" where
  "clear_update = own_aux (set_time_budgets 0)"

definition throttle_update :: "u64 \<Rightarrow> 'w lib \<Rightarrow> 'w lib" where
  "throttle_update time_ns = own_aux (set_time_budgets 0) \<circ> own_aux (set_time_slice_ns time_ns)"

definition flick_update :: "'w platform \<Rightarrow> u64 \<Rightarrow> u64 \<Rightarrow> 'w lib \<Rightarrow> 'w lib" where
  "flick_update P lat_ns base_ns =
     own_aux (\<lambda>a. a\<lparr>used_latency := 0\<rparr>) \<circ> own_aux (\<lambda>a. a\<lparr>total_latency := 0\<rparr>) \<circ>
     own_aux (\<lambda>a. a\<lparr>hist_ncycle := base_ns\<rparr>) \<circ> set_start_time P \<circ>
     own_aux (\<lambda>a. a\<lparr>target_lat := lat_ns\<rparr>) \<circ> set_policy LATENCY_ORIENTED"

definition chain_update :: "'w platform \<Rightarrow> chain_context \<Rightarrow> int \<Rightarrow> 'w lib \<Rightarrow> 'w lib" where
  "chain_update P chain_ctx pct =
     own_aux (\<lambda>a. a\<lparr>lat_bias := feedback_bias chain_ctx pct\<rparr>) \<circ>
     own_aux (\<lambda>a. a\<lparr>used_latency := chain_used_latency chain_ctx\<rparr>) \<circ>
     own_aux (\<lambda>a. a\<lparr>total_latency := chain_total_latency chain_ctx\<rparr>) \<circ> set_start_time P"

definition runcycle_update :: "u64 \<Rightarrow> 'w lib \<Rightarrow> 'w lib" where
  "runcycle_update n = own_aux (\<lambda>a. a\<lparr>used_ncycle := used_ncycle a + n\<rparr>)"

lemmas update_defs =
  clear_update_def throttle_update_def flick_update_def chain_update_def runcycle_update_def

lemma quiet_updates:
  "quiet clear_update" "quiet (throttle_update t)" "quiet (flick_update P l b)"
  "quiet (chain_update P c x)" "quiet (runcycle_update n)"
  by (simp_all add: update_defs)

lemma has_budget_frame [simp]:
  "has_budget (absorb k s) = has_budget s" "has_budget (s\<lparr>in_critical := b\<rparr>) = has_budget s"
  by (simp_all add: has_budget_def absorb_def)

lemmas in_critical_stmts [simp] =
  quiet_keeps(1) [OF quiet_own_aux] quiet_keeps(1) [OF quiet_start_time]
  quiet_keeps(1) [OF quiet_id(2)]

lemma call_atomic:
  assumes c: "\<not> in_critical s" and f: "quiet f"
    and g: "\<And>u. has_budget u = has_budget s \<Longrightarrow> in_critical u \<Longrightarrow>
      g (absorb 0 u) = stmt P leave_critical (absorb k (f u)) \<bind>
        (\<lambda>s. drain P s \<bind> (\<lambda>s. Some (rc, s)))"
  shows "stmt P enter_critical s \<bind> g = atomic_call P (Suc k) f rc s"
proof (cases "deliver P s")
  case (Some u)
  have u: "\<not> in_critical u" using deliver_keeps(1) [OF c Some] .
  have "has_budget (u\<lparr>in_critical := True\<rparr>) = has_budget s"
    using deliver_keeps(4) [OF c Some] by (simp add: has_budget_def)
  then have "g (absorb 0 (u\<lparr>in_critical := True\<rparr>)) =
      settle P (absorb (Suc k) (f u)) \<bind> (\<lambda>s. Some (rc, s))"
    using g [of "u\<lparr>in_critical := True\<rparr>"] run_block [OF f u, of P k] by simp
  then show ?thesis using Some by (simp add: enter_stmt atomic_call_def del: absorb_0)
qed (simp add: enter_stmt atomic_call_def)

lemma calls_atomic:
  assumes c: "\<not> in_critical s"
  shows "robflex_clear_time_budget P s = atomic_call P (Suc 1) clear_update 0 s"
    and "robflex_add_runcycle P n s = atomic_call P (Suc 1) (runcycle_update n) 0 s"
    and "robflex_set_as_latency_flick P l b s = atomic_call P (Suc 6) (flick_update P l b) 0 s"
    and "robflex_chained_from_latency P ch x s = atomic_call P (Suc 4) (chain_update P ch x) 0 s"
  unfolding robflex_clear_time_budget_def robflex_add_runcycle_def robflex_set_as_latency_flick_def
    robflex_chained_from_latency_def
  by (rule call_atomic [OF c]; simp add: quiet_updates stmt_inside update_defs numeral_eq_Suc
      del: absorb_0)+

lemma guarded_calls_atomic:
  assumes c: "\<not> in_critical s"
  shows "robflex_set_cycles_for_tick P cy s =
      (if has_budget s then atomic_call P (Suc 2) clear_update 0 s else atomic_call P (Suc 1) id (- 1) s)"
    and "robflex_set_time_for_throttle P t s =
      (if has_budget s then atomic_call P (Suc 3) (throttle_update t) 0 s
       else atomic_call P (Suc 1) id (- 1) s)"
  unfolding robflex_set_cycles_for_tick_def robflex_set_time_for_throttle_def
  by (cases "has_budget s"; simp only: if_True if_False; rule call_atomic [OF c];
      simp add: quiet_updates stmt_inside deliver_inside update_defs numeral_eq_Suc del: absorb_0)+

end
