(* ===== verification/CApiTable.thy ===== *)
theory CApiTable
  imports CApiFacts
begin

text \<open>
  The table of event contexts is changed by single stores with ticks between them
  (\<open>upsert_stores\<close>, \<open>erase_stores\<close> in CApi). The ticks in between find a table that is live,
  though not well formed; they change nothing of its shape (the events and their contexts, up
  to the cell of a context that ticks account in), and the whole sequence amounts to the
  change at once that EventTable describes.
\<close>

subsection \<open>Stores and shapes\<close>

definition shape_fun :: "(event_table \<Rightarrow> event_table) \<Rightarrow> bool" where
  \<comment> \<open>what the store does to the shape depends on the shape only\<close>
  "shape_fun f \<longleftrightarrow> (\<forall>t t'. table_shape t = table_shape t' \<longrightarrow> table_shape (f t) = table_shape (f t'))"

fun stores_live :: "(event_table \<Rightarrow> event_table) list \<Rightarrow> event_table \<Rightarrow> bool" where
  "stores_live [] t = True"
| "stores_live (f # fs) t \<longleftrightarrow> live_table (f t) \<and> stores_live fs (f t)"

lemma shape_funD: "shape_fun f \<Longrightarrow> table_shape t = table_shape t' \<Longrightarrow> table_shape (f t) = table_shape (f t')"
  unfolding shape_fun_def by blast

lemma stores_live_shape:
  "list_all shape_fun fs \<Longrightarrow> table_shape t = table_shape t' \<Longrightarrow> stores_live fs t = stores_live fs t'"
proof (induction fs arbitrary: t t')
  case (Cons f fs)
  have sh: "table_shape (f t) = table_shape (f t')"
    by (rule shape_funD [OF _ Cons.prems(2)]) (use Cons.prems(1) in simp)
  have "stores_live fs (f t) = stores_live fs (f t')" using Cons.IH [OF _ sh] Cons.prems(1) by simp
  then show ?case using live_table_shape [OF sh] by simp
qed simp

lemma fold_shape:
  "list_all shape_fun fs \<Longrightarrow> table_shape t = table_shape t' \<Longrightarrow>
   table_shape (fold (\<lambda>f. f) fs t) = table_shape (fold (\<lambda>f. f) fs t')"
proof (induction fs arbitrary: t t')
  case (Cons f fs)
  have sh: "table_shape (f t) = table_shape (f t')"
    by (rule shape_funD [OF _ Cons.prems(2)]) (use Cons.prems(1) in simp)
  show ?case using Cons.IH [OF _ sh] Cons.prems(1) by simp
qed simp

definition outside :: "'w lib \<Rightarrow> bool" where
  "outside s \<longleftrightarrow> \<not> in_critical s \<and> n_signal_pendings s = 0 \<and> live s"

lemma run_stores_keeps:
  assumes "list_all shape_fun fs" "stores_live fs (event_map s)" "outside s"
  shows "\<exists>s'. run_stores P fs s = Some s' \<and> outside s' \<and> contexts s' = contexts s \<and>
    table_shape (event_map s') = table_shape (fold (\<lambda>f. f) fs (event_map s))"
  using assms
proof (induction fs arbitrary: s)
  case (Cons f fs)
  have o: "\<not> in_critical s" "live s" using Cons.prems(3) by (simp_all add: outside_def)
  obtain u where u: "deliver P s = Some u" using deliver_live [OF o] by blast
  note c = controlD [OF control_deliver [OF o(1) u]]
  let ?u = "u\<lparr>event_map := f (event_map u)\<rparr>"
  have sh: "table_shape (f (event_map u)) = table_shape (f (event_map s))"
    by (rule shape_funD) (use c(10) Cons.prems(1) in simp_all)
  have fs: "list_all shape_fun fs" using Cons.prems(1) by simp
  have l: "live_table (f (event_map u))" "stores_live fs (event_map ?u)"
    using Cons.prems(2) live_table_shape [OF sh] stores_live_shape [OF fs sh] by simp_all
  have "outside ?u" using l(1) c(1-3) Cons.prems(3) by (simp add: outside_def live_def)
  then obtain s' where "run_stores P fs ?u = Some s'" "outside s'" "contexts s' = contexts ?u"
    "table_shape (event_map s') = table_shape (fold (\<lambda>f. f) fs (f (event_map u)))"
    using Cons.IH [OF fs l(2)] by auto
  then show ?case
    using u c(7) fold_shape [OF fs sh] by (simp add: stmt_def)
qed simp

lemma shape_set_entry:
  assumes "\<And>e e'. ev_idx e = ev_idx e' \<Longrightarrow> in_use e = in_use e' \<Longrightarrow> lasting (ev_ctx e) = lasting (ev_ctx e') \<Longrightarrow>
    ev_idx (f e) = ev_idx (f e') \<and> in_use (f e) = in_use (f e') \<and> lasting (ev_ctx (f e)) = lasting (ev_ctx (f e'))"
  shows "shape_fun (set_entry i f)"
proof -
  let ?g = "\<lambda>e. (ev_idx e, in_use e, lasting (ev_ctx e))"
  have "table_shape (set_entry i f t) = table_shape (set_entry i f t')" if h: "table_shape t = table_shape t'" for t t'
  proof -
    have m: "map ?g (entries t) = map ?g (entries t')" and c: "entry_count t = entry_count t'"
      using h by (simp_all add: table_shape_def)
    have l: "length (entries t) = length (entries t')" using map_eq_imp_length_eq [OF m] .
    have "?g (f (entries t ! i)) = ?g (f (entries t' ! i))" if "i < length (entries t')"
      using arg_cong [OF m, of "\<lambda>xs. xs ! i"] that l assms [of "entries t ! i" "entries t' ! i"] by simp
    then have "map ?g ((entries t)[i := f (entries t ! i)]) = map ?g ((entries t')[i := f (entries t' ! i)])"
      using m l by (cases "i < length (entries t')") (simp_all add: map_update list_update_beyond)
    then show ?thesis using c by (simp add: table_shape_def set_entry_def)
  qed
  then show ?thesis unfolding shape_fun_def by blast
qed

lemma shape_count: "shape_fun (\<lambda>t. t\<lparr>entry_count := g (entry_count t)\<rparr>)"
  by (simp add: shape_fun_def table_shape_def)

lemma shape_entries [simp]:
  "shape_fun (set_entry i (\<lambda>e. e\<lparr>ev_ctx := c\<rparr>))" "shape_fun (set_entry i (\<lambda>e. e\<lparr>in_use := b\<rparr>))"
  "shape_fun (set_entry i (\<lambda>e. e\<lparr>ev_idx := x\<rparr>))"
  by (rule shape_set_entry, simp)+

lemma shape_stores:
  "upsert_stores e c t = Some fs \<Longrightarrow> list_all shape_fun fs"
  "erase_stores e t = Some fs \<Longrightarrow> list_all shape_fun fs"
  using shape_count [of "\<lambda>n. n + 1"] shape_count [of "\<lambda>n. if 0 < n then n - 1 else n"]
  by (auto simp: upsert_stores_def erase_stores_def split: option.splits if_splits)

lemma live_set_entry:
  assumes "live_table t" "\<And>e. 0 \<le> ev_idx e \<and> ev_idx e < MAX_EVENT_NUM \<Longrightarrow> 0 \<le> ev_idx (f e) \<and> ev_idx (f e) < MAX_EVENT_NUM"
  shows "live_table (set_entry i f t)"
proof (cases "i < length (entries t)")
  case True
  then show ?thesis
    using assms set_update_subset_insert [of "entries t" i "f (entries t ! i)"] nth_mem [OF True]
    by (fastforce simp: live_table_def set_entry_def)
next
  case False
  then show ?thesis using assms(1) by (simp add: set_entry_def list_update_beyond)
qed

lemma live_count [simp]: "live_table (t\<lparr>entry_count := n\<rparr>) = live_table t"
  by (simp add: live_table_def)

lemma live_entries [simp]:
  "live_table t \<Longrightarrow> live_table (set_entry i (\<lambda>e. e\<lparr>ev_ctx := c\<rparr>) t)"
  "live_table t \<Longrightarrow> live_table (set_entry i (\<lambda>e. e\<lparr>in_use := b\<rparr>) t)"
  "live_table t \<Longrightarrow> 0 \<le> x \<Longrightarrow> x < MAX_EVENT_NUM \<Longrightarrow> live_table (set_entry i (\<lambda>e. e\<lparr>ev_idx := x\<rparr>) t)"
  by (rule live_set_entry, simp_all)+

lemma live_stores:
  assumes "live_table t" "valid_event e"
  shows "upsert_stores e c t = Some fs \<Longrightarrow> stores_live fs t" "erase_stores e t = Some fs \<Longrightarrow> stores_live fs t"
  using assms
  by (auto simp: upsert_stores_def erase_stores_def valid_event_def ROBFLEX_EVENT_NONE_def MAX_EVENT_NUM_def
      split: option.splits if_splits)

lemma whole_entry: "e\<lparr>in_use := b, ev_idx := x, ev_ctx := c\<rparr> = \<lparr>ev_idx = x, in_use = b, ev_ctx = c\<rparr>"
  by (cases e) simp

lemma stores_update:
  "event_table_upsert e c t = (case upsert_stores e c t of None \<Rightarrow> (- 1, t) | Some fs \<Rightarrow> (0, fold (\<lambda>f. f) fs t))"
  "event_table_erase e t = (case erase_stores e t of None \<Rightarrow> (- 1, t) | Some fs \<Rightarrow> (0, fold (\<lambda>f. f) fs t))"
  by (auto simp: upsert_stores_def erase_stores_def event_table_upsert_def event_table_erase_def set_entry_def whole_entry
      dest!: first_index_SomeD find_entry_SomeD(1) split: option.splits)

text \<open>
  Under any schedule of ticks a change of the table has the status of the change at once, and
  leaves the table with the events and contexts of that, up to what ticks account.
\<close>

lemma change_table_shape:
  assumes "calm s" "list_all shape_fun (case fs of None \<Rightarrow> [] | Some fs \<Rightarrow> fs)"
    and "stores_live (case fs of None \<Rightarrow> [] | Some fs \<Rightarrow> fs) (event_map s)"
    and r: "r = (case fs of None \<Rightarrow> (- 1, event_map s) | Some fs \<Rightarrow> (0, fold (\<lambda>f. f) fs (event_map s)))"
    and "table_ok (snd r)"
  obtains s' where "change_table P fs s = Some (fst r, s')" "calm s'" "contexts s' = contexts s"
    "table_shape (event_map s') = table_shape (snd r)"
proof (cases fs)
  case None
  then show thesis using that [of s] assms(1) r by (simp add: change_table_def)
next
  case (Some gs)
  have "outside s" using assms(1) ready_live [of s] by (simp add: calm_def outside_def)
  then obtain s' where s': "run_stores P gs s = Some s'" "outside s'" "contexts s' = contexts s"
    "table_shape (event_map s') = table_shape (snd r)"
    using run_stores_keeps [of gs s P] assms(2,3) Some r by auto
  have "calm s'"
    using s'(2) assms(5) table_ok_shape [OF s'(4)] by (simp add: calm_def outside_def ready_def live_def)
  then show thesis using that [of s'] s' Some r by (simp add: change_table_def)
qed

lemma attach_shape:
  assumes "calm s" "valid_event e"
  obtains s' where "change_table P (upsert_stores e c (event_map s)) s = Some (fst (event_table_upsert e c (event_map s)), s')"
    "calm s'" "contexts s' = contexts s" "table_shape (event_map s') = table_shape (snd (event_table_upsert e c (event_map s)))"
proof (rule change_table_shape [OF assms(1), of "upsert_stores e c (event_map s)" "event_table_upsert e c (event_map s)" P])
  have ok: "table_ok (event_map s)" using assms(1) by (simp add: calm_def ready_def)
  show "table_ok (snd (event_table_upsert e c (event_map s)))" by (rule ctxs.insert_inv [OF ok assms(2)])
  show "list_all shape_fun (case upsert_stores e c (event_map s) of None \<Rightarrow> [] | Some fs \<Rightarrow> fs)"
    "stores_live (case upsert_stores e c (event_map s) of None \<Rightarrow> [] | Some fs \<Rightarrow> fs) (event_map s)"
    using shape_stores(1) live_stores(1) [OF table_ok_live [OF ok] assms(2)] by (auto split: option.split)
qed (use that stores_update(1) in simp_all)

lemma dettach_shape:
  assumes "calm s" "valid_event e"
  obtains s' where "change_table P (erase_stores e (event_map s)) s = Some (fst (event_table_erase e (event_map s)), s')"
    "calm s'" "contexts s' = contexts s" "table_shape (event_map s') = table_shape (snd (event_table_erase e (event_map s)))"
proof (rule change_table_shape [OF assms(1), of "erase_stores e (event_map s)" "event_table_erase e (event_map s)" P])
  have ok: "table_ok (event_map s)" using assms(1) by (simp add: calm_def ready_def)
  show "table_ok (snd (event_table_erase e (event_map s)))" by (rule ctxs.remove_inv [OF ok assms(2)])
  show "list_all shape_fun (case erase_stores e (event_map s) of None \<Rightarrow> [] | Some fs \<Rightarrow> fs)"
    "stores_live (case erase_stores e (event_map s) of None \<Rightarrow> [] | Some fs \<Rightarrow> fs) (event_map s)"
    using shape_stores(2) live_stores(2) [OF table_ok_live [OF ok] assms(2)] by (auto split: option.split)
qed (use that stores_update(2) in simp_all)

lemma first_index_map: "first_index P (map g xs) = first_index (P \<circ> g) xs"
  by (induction xs) simp_all

lemma first_index_shape:
  assumes "table_shape t = table_shape t'"
  shows "first_index (\<lambda>e. R (in_use e) (ev_idx e)) (entries t) = first_index (\<lambda>e. R (in_use e) (ev_idx e)) (entries t')"
proof -
  let ?g = "\<lambda>e. (ev_idx e, in_use e, lasting (ev_ctx e))"
  have "first_index (\<lambda>e. R (in_use e) (ev_idx e)) (entries u) =
      first_index (\<lambda>x. R (fst (snd x)) (fst x)) (snd (table_shape u))" for u
    by (simp add: table_shape_def first_index_map comp_def)
  then show ?thesis using assms by simp
qed

lemma upsert_stores_shape:
  assumes "table_shape t = table_shape t'"
  shows "upsert_stores e c t = upsert_stores e c t'"
proof -
  have a: "first_index (\<lambda>x. in_use x \<and> ev_idx x = e) (entries t) =
      first_index (\<lambda>x. in_use x \<and> ev_idx x = e) (entries t')"
    using first_index_shape [OF assms, of "\<lambda>u x. u \<and> x = e"] .
  have b: "first_index (\<lambda>x. \<not> in_use x) (entries t) = first_index (\<lambda>x. \<not> in_use x) (entries t')"
    using first_index_shape [OF assms, of "\<lambda>u x. \<not> u"] .
  show ?thesis unfolding upsert_stores_def find_entry_def a b ..
qed

lemma upsert_shape:
  assumes "table_shape t = table_shape t'"
  shows "fst (event_table_upsert e c t) = fst (event_table_upsert e c t')"
    "table_shape (snd (event_table_upsert e c t)) = table_shape (snd (event_table_upsert e c t'))"
proof -
  note u = upsert_stores_shape [OF assms, of e c]
  show "fst (event_table_upsert e c t) = fst (event_table_upsert e c t')"
    unfolding stores_update(1) u by (simp split: option.split)
  show "table_shape (snd (event_table_upsert e c t)) = table_shape (snd (event_table_upsert e c t'))"
  proof (cases "upsert_stores e c t'")
    case None
    then show ?thesis unfolding stores_update(1) u using assms by simp
  next
    case (Some fs)
    then show ?thesis unfolding stores_update(1) u using fold_shape [OF shape_stores(1) [OF Some] assms] by simp
  qed
qed

end
