(* ===== verification/CApiSafety.thy ===== *)
theory CApiSafety
  imports CApiTable
begin

text \<open>
  The calls of \<open>src/robflex_api.c\<close> as a client sees them: each critical section is atomic, and
  any sequence of calls with valid pointers runs to the end and leaves the thread outside
  its critical section, with no tick pending.
\<close>

subsection \<open>Critical sections are atomic\<close>


text \<open>
  C5: the critical sections are atomic. Whatever ticks arrive before and between the
  statements of a call that enters its critical section, the call does what the update
  done at once would do: the ticks before it are served first, those that arrive while the
  thread is inside are served after it, by one tick; and a call that the policy forbids
  returns -1 and updates nothing.
\<close>

theorem critical_sections_atomic:
  assumes "\<not> in_critical s"
  shows "robflex_clear_time_budget P s = atomic_call P 2 clear_update 0 s \<and>
    robflex_add_runcycle P n s = atomic_call P 2 (runcycle_update n) 0 s \<and>
    robflex_set_as_latency_flick P lat base s = atomic_call P 7 (flick_update P lat base) 0 s \<and>
    robflex_chained_from_latency P ch pct s = atomic_call P 5 (chain_update P ch pct) 0 s \<and>
    robflex_set_cycles_for_tick P cycles s =
      (if has_budget s then atomic_call P 3 clear_update 0 s else atomic_call P 2 id (- 1) s) \<and>
    robflex_set_time_for_throttle P t s =
      (if has_budget s then atomic_call P 4 (throttle_update t) 0 s else atomic_call P 2 id (- 1) s)"
  using calls_atomic [OF assms] guarded_calls_atomic [OF assms] by (simp add: numeral_eq_Suc)

theorem critical_sections_atomic_witness:
  "robflex_clear_time_budget example_platform (example_lib\<lparr>arrivals := [0, 2, 1]\<rparr>) =
   atomic_call example_platform 2 clear_update 0 (example_lib\<lparr>arrivals := [0, 2, 1]\<rparr>)"
  using critical_sections_atomic [of "example_lib\<lparr>arrivals := [0, 2, 1]\<rparr>" example_platform]
  by (simp add: example_lib_def)

subsection \<open>Any sequence of calls\<close>

datatype api_op =
    Init_local_context int
  | Set_cycles_for_tick u64
  | Clear_time_budget
  | Set_time_for_throttle u64
  | Set_as_immediate u64
  | Set_as_latency_flick u64 u64
  | Add_runcycle u64
  | Shot_on_latency
  | Chained_from_latency chain_context int
  | Switch_context nat nat
  | Switch_context_block nat nat
  | Attach_context "string option" int aux_data u32
  | Dettach_context "string option"
  | Get_policy "string option"
  | Test_event int
  | Busy_degree

fun exec :: "'w platform \<Rightarrow> api_op \<Rightarrow> 'w lib \<Rightarrow> 'w lib option" where
  "exec P (Init_local_context m) s = map_option snd (robflex_init_local_context P m s)"
| "exec P (Set_cycles_for_tick n) s = map_option snd (robflex_set_cycles_for_tick P n s)"
| "exec P Clear_time_budget s = map_option snd (robflex_clear_time_budget P s)"
| "exec P (Set_time_for_throttle t) s = map_option snd (robflex_set_time_for_throttle P t s)"
| "exec P (Set_as_immediate n) s = map_option snd (robflex_set_as_immediate P n s)"
| "exec P (Set_as_latency_flick l b) s = map_option snd (robflex_set_as_latency_flick P l b s)"
| "exec P (Add_runcycle n) s = map_option snd (robflex_add_runcycle P n s)"
| "exec P Shot_on_latency s = map_option snd (robflex_shot_on_latency P s)"
| "exec P (Chained_from_latency c x) s = map_option snd (robflex_chained_from_latency P c x s)"
| "exec P (Switch_context n v) s = map_option snd (robflex_switch_context P n v s)"
| "exec P (Switch_context_block n v) s = map_option snd (robflex_switch_context_block P n v s)"
| "exec P (Attach_context e p d l) s = map_option snd (robflex_attach_context_for_event P e p d l s)"
| "exec P (Dettach_context e) s = map_option snd (robflex_dettach_context_for_event P e s)"
| "exec P (Get_policy e) s = map_option snd (robflex_get_policy_for_event P e s)"
| "exec P (Test_event i) s = map_option snd (robflex_test_event P i s)"
| "exec P Busy_degree s = map_option snd (robflex_system_busy_degree P s)"

fun op_ok :: "nat set \<Rightarrow> api_op \<Rightarrow> bool" where
  \<comment> \<open>the caller's obligations: pointers to contexts it owns, event numbers in range\<close>
  "op_ok D (Switch_context n v) \<longleftrightarrow> n \<in> D \<and> (v = 0 \<or> v \<in> D)"
| "op_ok D (Switch_context_block n v) \<longleftrightarrow> n \<in> D \<and> (v = 0 \<or> v \<in> D)"
| "op_ok D (Test_event i) \<longleftrightarrow> - 1 \<le> i \<and> i < MAX_EVENT_NUM"
| "op_ok D _ \<longleftrightarrow> True"

definition safe_step :: "'w lib \<Rightarrow> 'w lib option \<Rightarrow> bool" where
  "safe_step s r \<longleftrightarrow> (\<exists>s'. r = Some s' \<and> calm s' \<and> dom (contexts s') = dom (contexts s))"

lemma ready_updates [simp]:
  "ready (own_aux f s) = ready s" "ready (set_policy p s) = ready s" "ready (set_start_time P s) = ready s"
  "ready (absorb k s) = ready s"
proof -
  show o: "ready (own_aux f s) = ready s" for f s
    by (simp add: own_aux_def upd_aux_def write_ctx_def ready_def)
  show "ready (set_start_time P s) = ready s"
    unfolding set_start_time_def with_clock_def read_clock_def case_prod_beta Let_def fst_conv snd_conv o
    by (rule ready_control) simp
qed (simp_all add: ready_def set_policy_def absorb_def)

lemma contexts_updates [simp]:
  "contexts (own_aux f s) = contexts s" "contexts (set_policy p s) = contexts s"
  "contexts (set_start_time P s) = contexts s" "contexts (absorb k s) = contexts s"
proof -
  show o: "contexts (own_aux f s) = contexts s" for f s
    by (simp add: own_aux_def upd_aux_def write_ctx_def)
  show "contexts (set_start_time P s) = contexts s"
    unfolding set_start_time_def with_clock_def read_clock_def case_prod_beta Let_def fst_conv snd_conv o
    by simp
qed (simp_all add: set_policy_def absorb_def)

lemma deliver_calm:
  assumes "calm s"
  obtains u where "deliver P s = Some u" "calm u" "contexts u = contexts s"
    "policy (loc_ctx u) = policy (loc_ctx s)" "arrivals u = tl (arrivals s)"
proof -
  have s: "\<not> in_critical s" "ready s" using assms by (simp_all add: calm_def)
  then obtain u where u: "deliver P s = Some u" using deliver_defined by blast
  show thesis using that [OF u] deliver_keeps [OF s(1) u] assms by (simp add: calm_def)
qed

lemma stmt_calm:
  assumes "calm s" and "\<And>u. calm u \<Longrightarrow> calm (f u) \<and> contexts (f u) = contexts u"
  obtains u where "stmt P f s = Some u" "calm u" "contexts u = contexts s"
proof -
  obtain v where "deliver P s = Some v" "calm v" "contexts v = contexts s"
    using deliver_calm [OF assms(1)] .
  then show thesis using that [of "f v"] assms(2) by (simp add: stmt_def)
qed

lemma atomic_call_safe:
  assumes "calm s" and "quiet f" and "\<And>u. ready (f u) = ready u" and "\<And>u. contexts (f u) = contexts u"
  shows "safe_step s (map_option snd (atomic_call P k f rc s))"
proof -
  obtain u where u: "deliver P s = Some u" "calm u" "contexts u = contexts s"
    using deliver_calm [OF assms(1)] .
  have "\<not> in_critical (absorb k (f u))" "ready (absorb k (f u))"
    using u(2) quiet_keeps(1) [OF assms(2)] assms(3) by (simp_all add: calm_def)
  then obtain s' where "settle P (absorb k (f u)) = Some s'" "calm s'"
    "contexts s' = contexts (absorb k (f u))" using settle_calm by metis
  then show ?thesis using u assms(4) by (simp add: safe_step_def atomic_call_def)
qed

lemma calm_updates [simp]:
  "calm (own_aux f s) = calm s" "calm (set_policy p s) = calm s" "calm (set_start_time P s) = calm s"
  using quiet_keeps [OF quiet_own_aux, of f s] quiet_keeps [OF quiet_id(2), of p s]
    quiet_keeps [OF quiet_start_time, of P s]
  by (simp_all add: calm_def)

lemma calm_fields [simp]:
  "calm (s\<lparr>loc_ctx := c\<rparr>) = calm s" "calm (s\<lparr>kworld := w\<rparr>) = calm s" "calm (s\<lparr>contexts := m\<rparr>) = calm s"
  by (simp_all add: calm_def ready_def)

lemma settle_block:
  assumes "calm u" "quiet f" "\<And>u. ready (f u) = ready u" "\<And>u. contexts (f u) = contexts u"
  obtains s' where "stmt P leave_critical (absorb k (f (u\<lparr>in_critical := True\<rparr>))) = Some (absorb (Suc k) (f u))"
    "drain P (absorb (Suc k) (f u)) = Some s'" "calm s'" "contexts s' = contexts u"
proof -
  have u: "\<not> in_critical u" "\<not> in_critical (f u)" "ready (f u)"
    using assms(1,3) quiet_keeps(1) [OF assms(2)] by (simp_all add: calm_def)
  obtain s' where "settle P (absorb (Suc k) (f u)) = Some s'" "calm s'" "contexts s' = contexts u"
    using settle_calm [of "absorb (Suc k) (f u)" P] u assms(4) by auto
  then show thesis using that run_block [OF assms(2) u(1), of P k] by simp
qed

lemma shot_runs:
  assumes "calm s" and "deliver P s = Some u"
  obtains s' where "robflex_shot_on_latency P s = Some
      (if policy (loc_ctx s) = LATENCY_ORIENTED
       then chain_of (aux (loc_ctx u)) (fst (clock P (kworld u)) - start_time (aux (loc_ctx u)))
       else no_chain, s')"
    "calm s'" "contexts s' = contexts s"
proof -
  have u: "deliver P s = Some u" "calm u" "contexts u = contexts s"
    and pu: "policy (loc_ctx u) = policy (loc_ctx s)"
    using deliver_calm [OF assms(1), of P] assms(2) by force+
  let ?v = "u\<lparr>in_critical := True\<rparr>"
  have e: "stmt P enter_critical s = Some (absorb 0 ?v)" "deliver P (absorb 0 ?v) = Some (absorb 1 ?v)"
    using u(1) deliver_inside [of ?v P 0] by (simp_all add: enter_stmt del: absorb_0)
  have l: "(policy (loc_ctx (absorb 1 ?v)) \<noteq> LATENCY_ORIENTED) \<longleftrightarrow> policy (loc_ctx u) \<noteq> LATENCY_ORIENTED"
    by (simp add: absorb_def)
  note run = robflex_shot_on_latency_def e l Option.bind.simps
  show thesis
  proof (cases "policy (loc_ctx u) = LATENCY_ORIENTED")
    case False
    obtain s' where s': "stmt P leave_critical (absorb 1 (id ?v)) = Some (absorb (Suc 1) (id u))"
      "drain P (absorb (Suc 1) (id u)) = Some s'" "calm s'" "contexts s' = contexts u"
      by (rule settle_block [OF u(2) quiet_id(1), where P = P and k = 1]) simp_all
    have "robflex_shot_on_latency P s = Some (no_chain, s')"
      using False by (simp only: run s'(1,2) [unfolded id_apply] not_False_eq_True if_True)
    then show thesis using that [of s'] s' u(3) False pu by simp
  next
    case True
    let ?t = "fst (clock P (kworld u))" and ?w = "snd (clock P (kworld u))"
    let ?u = "u\<lparr>kworld := ?w\<rparr>"
    let ?x = "?u\<lparr>in_critical := True\<rparr>"
    let ?g = "own_aux (\<lambda>a. a\<lparr>hist_ncycle := mix (1 / 2) (1 / 2) (hist_ncycle a) (used_ncycle a)\<rparr>)"
    let ?h = "own_aux (\<lambda>a. a\<lparr>used_ncycle := 0\<rparr>)"
    have c: "read_clock P (absorb 2 ?v) = (?t, absorb 2 ?x)"
      by (simp add: read_clock_def absorb_def case_prod_beta)
    have d: "deliver P (absorb 1 ?v) = Some (absorb 2 ?v)" "deliver P (absorb 2 ?x) = Some (absorb 3 ?x)"
      using deliver_inside [of ?v P 1] deliver_inside [of ?x P 2] by (simp_all add: numeral_eq_Suc)
    have f: "stmt P ?g (absorb 3 ?x) = Some (absorb 4 (?g ?x))"
      "stmt P ?h (absorb 4 (?g ?x)) = Some (absorb 5 ((?h \<circ> ?g) ?x))"
      using stmt_inside [of ?x ?g P 3] stmt_inside [of "?g ?x" ?h P 4] by simp_all
    obtain s1 where s1: "stmt P leave_critical (absorb 5 ((?h \<circ> ?g) ?x)) = Some (absorb (Suc 5) ((?h \<circ> ?g) ?u))"
      "drain P (absorb (Suc 5) ((?h \<circ> ?g) ?u)) = Some s1" "calm s1" "contexts s1 = contexts ?u"
      by (rule settle_block [where u = ?u and f = "?h \<circ> ?g" and P = P and k = 5]) (use u(2) in simp_all)
    obtain s2 where s2: "stmt P (set_start_time P) s1 = Some s2" "calm s2" "contexts s2 = contexts s1"
      by (rule stmt_calm [OF s1(3), where f = "set_start_time P" and P = P]) simp_all
    obtain s3 where s3: "stmt P (own_aux (\<lambda>a. a\<lparr>total_latency := 0\<rparr>)) s2 = Some s3" "calm s3"
      "contexts s3 = contexts s2"
      by (rule stmt_calm [OF s2(2), where f = "own_aux (\<lambda>a. a\<lparr>total_latency := 0\<rparr>)" and P = P]) simp_all
    obtain s4 where s4: "stmt P (own_aux (\<lambda>a. a\<lparr>used_latency := 0\<rparr>)) s3 = Some s4" "calm s4"
      "contexts s4 = contexts s3"
      by (rule stmt_calm [OF s3(2), where f = "own_aux (\<lambda>a. a\<lparr>used_latency := 0\<rparr>)" and P = P]) simp_all
    have x: "loc_ctx (absorb k ?x) = loc_ctx u" for k by (simp add: absorb_def)
    have "robflex_shot_on_latency P s =
        Some (chain_of (aux (loc_ctx u)) (?t - start_time (aux (loc_ctx u))), s4)"
      using True by (simp only: run simp_thms if_False d c x Let_def prod.case f s1(1,2) s2(1) s3(1) s4(1))
    then show thesis using that [of s4] s1 s2 s3 s4 u(3) True pu by simp
  qed
qed

lemma shot_safe:
  assumes "calm s"
  shows "safe_step s (map_option snd (robflex_shot_on_latency P s))"
proof -
  obtain u where "deliver P s = Some u" using deliver_calm [OF assms] .
  from shot_runs [OF assms this] show ?thesis by (fastforce simp: safe_step_def)
qed

lemma event_idx_valid:
  "robflex_get_event_idx n \<noteq> ROBFLEX_EVENT_NONE \<Longrightarrow> valid_event (robflex_get_event_idx n)"
proof (cases n)
  case (Some e)
  assume "robflex_get_event_idx n \<noteq> ROBFLEX_EVENT_NONE"
  with Some show ?thesis
    using robflex_get_event_idx_known [of e] robflex_get_event_idx_unknown [of e]
    by (cases "e \<in> set robflex_event_name_list") (auto simp: valid_event_def ROBFLEX_EVENT_NONE_def MAX_EVENT_NUM_def)
qed (simp add: robflex_get_event_idx_def)

lemma signal_calm:
  assumes "calm s"
  obtains u where "signal_n P n s = Some u" "calm u" "contexts u = contexts s"
proof -
  have s: "\<not> in_critical s" "ready s" using assms by (simp_all add: calm_def)
  obtain u where u: "ticks P n s = Some u" using ticks_defined [OF ready_live [OF s(2)]] by blast
  show thesis
    using that [of u] u signal_outside [OF s(1)] calm_control [OF control_ticks [OF u]]
      controlD(7) [OF control_ticks [OF u]] assms by simp
qed

lemma hold_calm:
  assumes "calm s" "hold s = (n, u)"
  shows "calm u" "contexts u = contexts s"
  using assms by (auto simp: hold_def calm_def ready_def split: list.splits)

lemma save_back_calm:
  assumes "calm s" "p = 0 \<or> p \<in> dom (contexts s)"
  obtains u where "save_back p c s = Some u" "calm u" "dom (contexts u) = dom (contexts s)"
proof (cases "p = 0")
  case True
  then show ?thesis using that [of s] assms(1) by (simp add: save_back_def)
next
  case False
  then have p: "p \<in> dom (contexts s)" using assms(2) by simp
  then have "dom ((contexts s)(p \<mapsto> c)) = dom (contexts s)" by (simp add: insert_absorb)
  then show ?thesis
    using that [of "s\<lparr>contexts := (contexts s)(p \<mapsto> c)\<rparr>"] assms(1) False p
    by (auto simp: save_back_def store_ctx_def)
qed

lemma switch_safe:
  assumes "calm s" "n \<in> dom (contexts s)" "v = 0 \<or> v \<in> dom (contexts s)"
  shows "safe_step s (map_option snd (robflex_switch_context P n v s))"
proof -
  obtain u where u: "deliver P s = Some u" "calm u" "contexts u = contexts s"
    using deliver_calm [OF assms(1)] .
  let ?v = "u\<lparr>in_critical := True\<rparr>"
  obtain new where new: "contexts u n = Some new" using assms(2) u(3) by auto
  have e: "stmt P enter_critical s = Some (absorb 0 ?v)"
    using u(1) by (simp add: enter_stmt)
  have d: "deliver P (absorb 0 ?v) = Some (absorb 1 ?v)" "deliver P (absorb 1 ?v) = Some (absorb 2 ?v)"
    using deliver_inside [of ?v P 0] deliver_inside [of ?v P 1] by (simp_all add: numeral_eq_Suc del: absorb_0)
  let ?f = "\<lambda>s. s\<lparr>loc_ctx := new\<rparr>"
  have f: "quiet ?f" by (simp add: quiet_def)
  have l: "load_ctx n (absorb 2 ?v) = Some new" using new by (simp add: load_ctx_def)
  have a: "(absorb 2 ?v)\<lparr>loc_ctx := new\<rparr> = absorb 2 (?f ?v)" by (simp add: absorb_def)
  obtain s1 where s1: "stmt P leave_critical (absorb 2 (?f ?v)) = Some (absorb (Suc 2) (?f u))"
    "drain P (absorb (Suc 2) (?f u)) = Some s1" "calm s1" "contexts s1 = contexts u"
    by (rule settle_block [OF u(2) f, where P = P and k = 2]) (simp_all add: ready_def)
  obtain s2 where s2: "deliver P s1 = Some s2" "calm s2" "contexts s2 = contexts s1"
    using deliver_calm [OF s1(3)] .
  obtain s3 where s3: "save_back v (loc_ctx (absorb 1 ?v)) s2 = Some s3" "calm s3" "dom (contexts s3) = dom (contexts s2)"
    by (rule save_back_calm [OF s2(2)]) (use assms(3) u(3) s1(4) s2(3) in auto)
  have "robflex_switch_context P n v s = Some (0, s3)"
    by (simp only: robflex_switch_context_def e d l a Let_def s1(1,2) s2(1) s3(1) Option.bind.simps)
  then show ?thesis using s3 s2 s1 u by (simp add: safe_step_def)
qed

lemma switch_block_safe:
  assumes "calm s" "n \<in> dom (contexts s)" "v = 0 \<or> v \<in> dom (contexts s)"
  shows "safe_step s (map_option snd (robflex_switch_context_block P n v s))"
proof -
  obtain u where u: "deliver P s = Some u" "calm u" "contexts u = contexts s"
    using deliver_calm [OF assms(1)] .
  obtain n1 u1 where h1: "hold u = (n1, u1)" by (cases "hold u")
  obtain n2 u2 where h2: "hold u1 = (n2, u2)" by (cases "hold u1")
  note c = hold_calm [OF u(2) h1] hold_calm [OF hold_calm(1) [OF u(2) h1] h2]
  obtain new where new: "load_ctx n u2 = Some new" using assms(2) u(3) c by (auto simp: load_ctx_def)
  obtain n3 u3 where h3: "hold (u2\<lparr>loc_ctx := new\<rparr>) = (n3, u3)" by (cases "hold (u2\<lparr>loc_ctx := new\<rparr>)")
  have c3: "calm u3" "contexts u3 = contexts u2"
    using hold_calm [OF _ h3] c by simp_all
  obtain s1 where s1: "signal_n P (n1 + n2 + n3) u3 = Some s1" "calm s1" "contexts s1 = contexts u3"
    using signal_calm [OF c3(1)] .
  obtain s2 where s2: "deliver P s1 = Some s2" "calm s2" "contexts s2 = contexts s1"
    using deliver_calm [OF s1(2)] .
  obtain s3 where s3: "save_back v (loc_ctx u1) s2 = Some s3" "calm s3" "dom (contexts s3) = dom (contexts s2)"
    by (rule save_back_calm [OF s2(2)]) (use assms(3) u c c3 s1 s2 in auto)
  have "robflex_switch_context_block P n v s = Some (0, s3)"
    by (simp only: robflex_switch_context_block_def u h1 h2 h3 new Let_def prod.case s1(1) s2(1) s3(1) Option.bind.simps)
  then show ?thesis using s3 s2 s1 u c c3 by (simp add: safe_step_def)
qed

lemma stmt_bind_safe:
  assumes "calm t" "contexts t = contexts s"
    and "\<And>u. calm u \<Longrightarrow> calm (f u) \<and> contexts (f u) = contexts u"
    and "\<And>u. calm u \<Longrightarrow> contexts u = contexts s \<Longrightarrow> safe_step s (map_option snd (g u))"
  shows "safe_step s (map_option snd (stmt P f t \<bind> g))"
proof -
  obtain u where "stmt P f t = Some u" "calm u" "contexts u = contexts t"
    using stmt_calm [OF assms(1,3)] .
  then show ?thesis using assms(2,4) by simp
qed

lemma init_safe:
  assumes "calm s"
  shows "safe_step s (map_option snd (robflex_init_local_context P m s))"
proof -
  have "calm (leave_critical u)" "contexts (leave_critical u) = contexts u"
    "calm (u\<lparr>n_signal_pendings := 0\<rparr>)" if "calm u" for u :: "'a lib"
    using that by (simp_all add: calm_def ready_def leave_critical_def)
  then show ?thesis
    unfolding robflex_init_local_context_def
    using assms by (intro stmt_bind_safe conjI) (simp_all add: safe_step_def)
qed

lemma event_calls_safe:
  assumes "calm s"
  shows "safe_step s (map_option snd (robflex_attach_context_for_event P e p d lv s))"
    "safe_step s (map_option snd (robflex_dettach_context_for_event P e s))"
    "safe_step s (map_option snd (robflex_get_policy_for_event P e s))"
proof -
  obtain u where u: "deliver P s = Some u" "calm u" "contexts u = contexts s"
    using deliver_calm [OF assms] .
  let ?i = "robflex_get_event_idx e"
  show "safe_step s (map_option snd (robflex_attach_context_for_event P e p d lv s))"
  proof (cases "?i = ROBFLEX_EVENT_NONE")
    case False
    from attach_shape [OF u(2) event_idx_valid [OF False], of P "event_context p d lv"] show ?thesis
      using u by (fastforce simp: robflex_attach_context_for_event_def safe_step_def Let_def False)
  qed (use u in \<open>simp add: robflex_attach_context_for_event_def safe_step_def Let_def\<close>)
  show "safe_step s (map_option snd (robflex_dettach_context_for_event P e s))"
  proof (cases "?i = ROBFLEX_EVENT_NONE")
    case False
    from dettach_shape [OF u(2) event_idx_valid [OF False], of P] show ?thesis
      using u by (fastforce simp: robflex_dettach_context_for_event_def safe_step_def Let_def False)
  qed (use u in \<open>simp add: robflex_dettach_context_for_event_def safe_step_def Let_def\<close>)
  show "safe_step s (map_option snd (robflex_get_policy_for_event P e s))"
    using u by (auto simp: robflex_get_policy_for_event_def safe_step_def Let_def split: option.split)
qed

lemma reads_safe:
  assumes "calm s"
  shows "- 1 \<le> i \<Longrightarrow> i < MAX_EVENT_NUM \<Longrightarrow> safe_step s (map_option snd (robflex_test_event P i s))"
    "safe_step s (map_option snd (robflex_system_busy_degree P s))"
    "safe_step s (map_option snd (robflex_set_as_immediate P n s))"
proof -
  obtain u where u: "deliver P s = Some u" "calm u" "contexts u = contexts s"
    using deliver_calm [OF assms] .
  have "ptr_mapped u" using u(2) by (simp add: calm_def ready_def)
  then show "- 1 \<le> i \<Longrightarrow> i < MAX_EVENT_NUM \<Longrightarrow> safe_step s (map_option snd (robflex_test_event P i s))"
    "safe_step s (map_option snd (robflex_system_busy_degree P s))"
    "safe_step s (map_option snd (robflex_set_as_immediate P n s))"
    using u by (auto simp: safe_step_def robflex_test_event_def test_event_def robflex_system_busy_degree_def
        system_busy_degree_def robflex_set_as_immediate_def stmt_def)
qed

lemma exec_safe:
  assumes "calm s" "op_ok (dom (contexts s)) x"
  shows "safe_step s (exec P x s)"
proof -
  have c: "\<not> in_critical s" using assms(1) by (simp add: calm_def)
  note a = atomic_call_safe [OF assms(1)]
  show ?thesis
    using assms(2)
    by (cases x; simp add: calls_atomic [OF c] guarded_calls_atomic [OF c] init_safe [OF assms(1)]
        event_calls_safe [OF assms(1)] reads_safe [OF assms(1)] shot_safe [OF assms(1)]
        switch_safe [OF assms(1)] switch_block_safe [OF assms(1)] split: if_split)
      (auto intro!: a simp: quiet_updates update_defs)
qed

end
