(* ===== verification/CApiCalls.thy ===== *)
theory CApiCalls
  imports CApiSafety
begin

text \<open>
  Sequences of calls of \<open>src/robflex_api.c\<close>: every run is safe; switching to a context and back
  is the identity; the latencies of a chain add up from stage to stage; and what clearing
  the time budget does to a thread whose data the union reads as a latency demand.
\<close>

subsection \<open>Every run is safe\<close>


fun run_api :: "'w platform \<Rightarrow> api_op list \<Rightarrow> 'w lib \<Rightarrow> 'w lib option" where
  "run_api P [] s = Some s"
| "run_api P (x # xs) s = exec P x s \<bind> run_api P xs"

lemma run_api_calm:
  assumes "calm s" and "list_all (op_ok (dom (contexts s))) xs"
  shows "\<exists>s'. run_api P xs s = Some s' \<and> calm s' \<and> dom (contexts s') = dom (contexts s)"
  using assms
proof (induction xs arbitrary: s)
  case (Cons x xs)
  then have "safe_step s (exec P x s)" by (intro exec_safe) simp_all
  then obtain t where "exec P x s = Some t" "calm t" "dom (contexts t) = dom (contexts s)"
    by (auto simp: safe_step_def)
  then show ?case using Cons.IH [of t] Cons.prems by simp
qed simp

text \<open>
  C4: any sequence of calls is safe under any schedule of ticks. From a state outside the
  critical section with nothing pending and the memory mapped, calls that switch to a context
  the caller owns, save the old one to such a context or not at all (NULL), and test event
  numbers in range all return (switching to NULL is undefined); the
  thread is again outside the critical section with nothing pending, the event table is
  well formed and the caller owns the same contexts.
\<close>

theorem api_runs_safely:
  assumes "calm s" and "list_all (op_ok (dom (contexts s))) xs"
  shows "\<exists>s'. run_api P xs s = Some s' \<and> calm s' \<and> dom (contexts s') = dom (contexts s)"
  using run_api_calm [OF assms] .

definition busy_lib :: "u64 lib" where
  "busy_lib = example_lib\<lparr>arrivals := [1, 0, 3, 2, 0, 1, 1], contexts := [64 \<mapsto> zero_context]\<rparr>"

theorem api_runs_safely_witness:
  "\<exists>s'. run_api example_platform
      [Init_local_context YIELDING, Set_time_for_throttle 2000000, Attach_context (Some ''interactive'') 3 zero_aux 5,
       Switch_context 64 64, Clear_time_budget, Test_event 3] busy_lib = Some s' \<and>
    calm s' \<and> dom (contexts s') = {64}"
proof -
  have "calm busy_lib" using example_ready by (simp add: calm_def busy_lib_def example_lib_def ready_def)
  then show ?thesis
    using api_runs_safely [of busy_lib
        "[Init_local_context YIELDING, Set_time_for_throttle 2000000, Attach_context (Some ''interactive'') 3 zero_aux 5,
          Switch_context 64 64, Clear_time_budget, Test_event 3]" example_platform]
    by (simp add: busy_lib_def MAX_EVENT_NUM_def)
qed

subsection \<open>Switching there and back\<close>

lemma quiet_time:
  assumes "calm s" "arrivals s = []"
  shows "deliver P s = Some s" "drain P s = Some s" "deliver P (s\<lparr>in_critical := b\<rparr>) = Some (s\<lparr>in_critical := b\<rparr>)"
  using assms by (simp_all add: deliver_def calm_def drain_settle settle_def)

lemma switch_quiet:
  assumes "calm s" "arrivals s = []" "contexts s n = Some c" "contexts s v \<noteq> None" "v \<noteq> 0"
  shows "robflex_switch_context P n v s = Some (0, s\<lparr>loc_ctx := c, contexts := (contexts s)(v \<mapsto> loc_ctx s)\<rparr>)"
proof -
  let ?t = "s\<lparr>loc_ctx := c\<rparr>"
  have t: "calm ?t" "arrivals ?t = []" using assms(1,2) by simp_all
  have r: "?t\<lparr>in_critical := False\<rparr> = ?t" using assms(1) by (cases s) (simp add: calm_def)
  have b: "s\<lparr>in_critical := True, loc_ctx := c\<rparr> = ?t\<lparr>in_critical := True\<rparr>" by simp
  show ?thesis
    using assms quiet_time [OF assms(1,2)] quiet_time [OF t]
    by (simp add: robflex_switch_context_def stmt_def enter_critical_def leave_critical_def load_ctx_def
        save_back_def store_ctx_def b r)
qed

text \<open>
  C32: switching to a context and back restores the thread. When no tick arrives,
  \<open>robflex_switch_context(new, saved)\<close> loads the new context and saves the old one, also
  when both pointers are the same; switching back with the two exchanged brings the
  thread's first context back and leaves the new context as it was.
\<close>

theorem switch_there_and_back:
  assumes "calm s" "arrivals s = []" and "contexts s new = Some c" "contexts s saved \<noteq> None"
    and "new \<noteq> 0" "saved \<noteq> 0"
  shows "\<exists>s1 s2. robflex_switch_context P new saved s = Some (0, s1) \<and> loc_ctx s1 = c \<and>
    contexts s1 saved = Some (loc_ctx s) \<and>
    robflex_switch_context P saved new s1 = Some (0, s2) \<and> loc_ctx s2 = loc_ctx s \<and>
    contexts s2 new = Some c"
proof -
  let ?s1 = "s\<lparr>loc_ctx := c, contexts := (contexts s)(saved \<mapsto> loc_ctx s)\<rparr>"
  have "calm ?s1" "arrivals ?s1 = []" "contexts ?s1 saved = Some (loc_ctx s)" "contexts ?s1 new \<noteq> None"
    using assms by simp_all
  from switch_quiet [OF this assms(5), of P] switch_quiet [OF assms(1-4,6), of P]
  show ?thesis by simp
qed

theorem switch_there_and_back_witness:
  "\<exists>s1 s2. robflex_switch_context example_platform 64 64 (busy_lib\<lparr>arrivals := []\<rparr>) = Some (0, s1) \<and>
    loc_ctx s1 = zero_context \<and> contexts s1 64 = Some (loc_ctx busy_lib) \<and>
    robflex_switch_context example_platform 64 64 s1 = Some (0, s2) \<and> loc_ctx s2 = loc_ctx busy_lib \<and>
    contexts s2 64 = Some zero_context"
proof -
  have "calm (busy_lib\<lparr>arrivals := []\<rparr>)"
    using example_ready by (simp add: calm_def busy_lib_def example_lib_def ready_def)
  then show ?thesis
    using switch_there_and_back [of "busy_lib\<lparr>arrivals := []\<rparr>" 64 zero_context 64 example_platform]
    by (simp add: busy_lib_def)
qed

subsection \<open>Measuring a latency chain\<close>

text \<open>
  A shot reports the latency of the current stage. Under any schedule of ticks, a
  latency-oriented thread gets the totals of the chain so far with this stage's target and
  the time that passed from its start to the moment the lock was taken added; any other
  thread gets zeros; and the thread ends outside its critical section.
\<close>

theorem shot_reports_latency:
  assumes "calm s"
  shows "\<exists>u s'. deliver P s = Some u \<and> calm s' \<and> robflex_shot_on_latency P s = Some
      (if policy (loc_ctx s) = LATENCY_ORIENTED
       then chain_of (aux (loc_ctx u)) (fst (clock P (kworld u)) - start_time (aux (loc_ctx u)))
       else no_chain, s')"
proof -
  obtain u where u: "deliver P s = Some u" using deliver_calm [OF assms] .
  show ?thesis by (rule shot_runs [OF assms u]) (use u in blast)
qed

lemma busy_calm: "calm busy_lib" "calm (busy_lib\<lparr>arrivals := []\<rparr>)"
  using example_ready by (simp_all add: calm_def busy_lib_def example_lib_def ready_def)

theorem shot_reports_latency_witness:
  "\<exists>s'. robflex_shot_on_latency example_platform (set_policy IMMEDIATE busy_lib) = Some (no_chain, s')"
  using shot_reports_latency [of "set_policy IMMEDIATE busy_lib" example_platform] busy_calm(1)
  by (auto simp: set_policy_def policy_defs)

definition latency_lib :: "u64 lib" where
  "latency_lib = set_policy LATENCY_ORIENTED (busy_lib\<lparr>arrivals := []\<rparr>)"

lemma latency_lib_facts:
  "calm latency_lib" "arrivals latency_lib = []" "policy (loc_ctx latency_lib) = LATENCY_ORIENTED"
  "kworld latency_lib = 1"
  using busy_calm(2) by (simp_all add: latency_lib_def) (simp_all add: set_policy_def busy_lib_def example_lib_def)

lemma example_clock: "clock example_platform w = (w, w + 2000000)"
  by (simp add: example_platform_def)

lemma atomic_quiet:
  assumes "calm s" "arrivals s = []" "quiet f" "ready (f s) = ready s"
  shows "atomic_call P k f rc s = Some (rc, f s)" "calm (f s)" "arrivals (f s) = []"
proof -
  have a: "absorb k t = t" if "calm t" "arrivals t = []" for t :: "'a lib"
    using that by (cases t) (simp add: absorb_def calm_def)
  show q: "calm (f s)" "arrivals (f s) = []"
    using assms quiet_keeps [OF assms(3), of s] by (simp_all add: calm_def)
  then show "atomic_call P k f rc s = Some (rc, f s)"
    using assms(1,2) quiet_time(1) [OF assms(1,2)] quiet_time(2) [OF q]
    by (simp add: calm_def atomic_call_def a [OF q] drain_settle)
qed

lemma clear_quiet:
  assumes "calm s" "arrivals s = []"
  shows "robflex_clear_time_budget P s = Some (0, clear_update s)"
  using calls_atomic(1) [of s P] assms atomic_quiet(1) [OF assms quiet_updates(1)]
  by (simp add: calm_def clear_update_def)

lemma chained_quiet:
  assumes "calm s" "arrivals s = []"
  shows "robflex_chained_from_latency P ch pct s = Some (0, chain_update P ch pct s)"
  using calls_atomic(4) [of s P] assms atomic_quiet(1) [OF assms quiet_updates(4)]
  by (simp add: calm_def chain_update_def)

lemma loc_ctx_own [simp]: "loc_ctx (own_aux f s) = (loc_ctx s)\<lparr>aux := f (aux (loc_ctx s))\<rparr>"
  "kworld (own_aux f s) = kworld s"
  by (simp_all add: own_aux_def upd_aux_def write_ctx_def read_ctx_def)

lemma start_time_own [simp]:
  "loc_ctx (set_start_time P s) = (loc_ctx s)\<lparr>aux := (aux (loc_ctx s))\<lparr>start_time := fst (clock P (kworld s))\<rparr>\<rparr>"
  "kworld (set_start_time P s) = snd (clock P (kworld s))"
  by (simp_all add: set_start_time_def with_clock_def read_clock_def case_prod_beta)

text \<open>
  C31: the latency of a chain accumulates from stage to stage. When a latency-oriented
  thread takes over a chain and then shoots, with no tick between, the chain it hands on
  has the total latency it received plus its own target, and the used latency it received
  plus the time between the two calls.
\<close>

theorem chain_accumulates:
  assumes "calm s" "arrivals s = []" "policy (loc_ctx s) = LATENCY_ORIENTED"
    and "clock P (kworld s) = (t0, w)" "clock P w = (t1, w')"
  shows "\<exists>s1 ch2 s2. robflex_chained_from_latency P ch pct s = Some (0, s1) \<and>
    robflex_shot_on_latency P s1 = Some (ch2, s2) \<and>
    chain_total_latency ch2 = chain_total_latency ch + target_lat (aux (loc_ctx s)) \<and>
    chain_used_latency ch2 = chain_used_latency ch + (t1 - t0) \<and>
    local_target_latency ch2 = target_lat (aux (loc_ctx s)) \<and> local_used_latency ch2 = t1 - t0"
proof -
  let ?s1 = "chain_update P ch pct s"
  have q: "calm ?s1" "arrivals ?s1 = []"
    using atomic_quiet(2,3) [OF assms(1,2) quiet_updates(4)] by (simp_all add: chain_update_def)
  obtain s2 where "robflex_shot_on_latency P ?s1 = Some
      (if policy (loc_ctx ?s1) = LATENCY_ORIENTED
       then chain_of (aux (loc_ctx ?s1)) (fst (clock P (kworld ?s1)) - start_time (aux (loc_ctx ?s1)))
       else no_chain, s2)"
    by (rule shot_runs [OF q(1) quiet_time(1) [OF q]])
  then show ?thesis
    using chained_quiet [OF assms(1,2)] assms(3-5) by (simp add: chain_update_def chain_of_def)
qed

theorem chain_accumulates_witness:
  "\<exists>s1 ch2 s2. robflex_chained_from_latency example_platform
      \<lparr>chain_total_latency = 50, chain_used_latency = 40, local_target_latency = 50, local_used_latency = 40\<rparr>
      30 latency_lib = Some (0, s1) \<and>
    robflex_shot_on_latency example_platform s1 = Some (ch2, s2) \<and> chain_used_latency ch2 = 40 + 2000000"
  using chain_accumulates [of latency_lib example_platform 1 2000001 2000001
      4000001 "\<lparr>chain_total_latency = 50, chain_used_latency = 40, local_target_latency = 50, local_used_latency = 40\<rparr>" 30]
  by (auto simp: latency_lib_facts example_clock)

text \<open>
  Clearing the time budget of a latency-oriented thread loses its start time. Unlike
  the two other budget calls, which refuse such a thread with -1,
  \<open>robflex_clear_time_budget\<close> returns 0 and overwrites, through the union, the start of
  the stage: the next shot reports the whole clock as the time this stage used.
\<close>

theorem clear_budget_loses_start:
  assumes "calm s" "arrivals s = []" "policy (loc_ctx s) = LATENCY_ORIENTED"
  shows "\<exists>s1 ch s2. robflex_clear_time_budget P s = Some (0, s1) \<and>
    robflex_shot_on_latency P s1 = Some (ch, s2) \<and> local_used_latency ch = fst (clock P (kworld s)) \<and>
    robflex_set_cycles_for_tick P cycles s = Some (- 1, s) \<and>
    robflex_set_time_for_throttle P t s = Some (- 1, s)"
proof -
  have q: "calm (clear_update s)" "arrivals (clear_update s) = []"
    using atomic_quiet(2,3) [OF assms(1,2) quiet_updates(1)] by (simp_all add: clear_update_def)
  have nb: "\<not> has_budget s" using assms(3) by (simp add: has_budget_def policy_defs)
  have r: "robflex_set_cycles_for_tick P cycles s = Some (- 1, s)" "robflex_set_time_for_throttle P t s = Some (- 1, s)"
    using guarded_calls_atomic [of s P] assms(1) nb atomic_quiet(1) [OF assms(1,2) quiet_id(1)]
    by (simp_all add: calm_def)
  obtain s2 where "robflex_shot_on_latency P (clear_update s) = Some
      (if policy (loc_ctx (clear_update s)) = LATENCY_ORIENTED
       then chain_of (aux (loc_ctx (clear_update s)))
         (fst (clock P (kworld (clear_update s))) - start_time (aux (loc_ctx (clear_update s))))
       else no_chain, s2)"
    by (rule shot_runs [OF q(1) quiet_time(1) [OF q]])
  then show ?thesis
    using clear_quiet [OF assms(1,2)] assms(3) r
    by (simp add: clear_update_def chain_of_def set_time_budgets_def)
qed

theorem clear_budget_loses_start_witness:
  "\<exists>s1 ch s2. robflex_clear_time_budget example_platform latency_lib =
      Some (0, s1) \<and> robflex_shot_on_latency example_platform s1 = Some (ch, s2) \<and> local_used_latency ch = 1"
  using clear_budget_loses_start [of latency_lib example_platform 0 0]
  by (auto simp: latency_lib_facts example_clock)

subsection \<open>Attaching a context under ticks\<close>

text \<open>
  C6: a context is attached under any schedule of ticks. Although the entry is filled by
  four stores outside a critical section, with ticks between them, the call returns with the
  status of an insertion at once into the table it found, is calm, and leaves the table of
  that insertion: the same entries for the same events, in which every context has its
  policy, its level and all its data, except the one cell that ticks account in (the budget
  of a yielding or predetermined context, the used cycles of a latency-oriented one).
\<close>

theorem attach_under_ticks:
  fixes name p d lv
  defines "e \<equiv> robflex_get_event_idx (Some name)" and "c \<equiv> event_context p d lv"
  assumes "calm s" and "e \<noteq> ROBFLEX_EVENT_NONE"
  shows "\<exists>s'. robflex_attach_context_for_event P (Some name) p d lv s =
      Some (fst (event_table_upsert e c (event_map s)), s') \<and> calm s' \<and> contexts s' = contexts s \<and>
    table_shape (event_map s') = table_shape (snd (event_table_upsert e c (event_map s)))"
proof -
  obtain u where u: "deliver P s = Some u" "calm u" "contexts u = contexts s" using deliver_calm [OF assms(3)] .
  have "\<not> in_critical s" using assms(3) by (simp add: calm_def)
  from controlD(10) [OF control_deliver [OF this u(1)]]
  have sh: "table_shape (event_map u) = table_shape (event_map s)" by simp
  obtain s' where s': "change_table P (upsert_stores e c (event_map u)) u = Some (fst (event_table_upsert e c (event_map u)), s')"
    "calm s'" "contexts s' = contexts u" "table_shape (event_map s') = table_shape (snd (event_table_upsert e c (event_map u)))"
    using attach_shape [OF u(2) event_idx_valid [OF assms(4) [unfolded e_def], folded e_def]] .
  have "robflex_attach_context_for_event P (Some name) p d lv s = Some (fst (event_table_upsert e c (event_map s)), s')"
    using u(1) s'(1) assms(4) upsert_shape(1) [OF sh, of e c]
    by (simp add: robflex_attach_context_for_event_def Let_def e_def c_def)
  then show ?thesis using s' u(3) upsert_shape(2) [OF sh, of e c] by simp
qed

theorem attach_under_ticks_witness:
  "\<exists>s'. robflex_attach_context_for_event example_platform (Some ''high_speed'') IMMEDIATE zero_aux 5 busy_lib = Some (0, s') \<and>
    calm s'"
proof -
  have "robflex_get_event_idx (Some ''high_speed'') \<noteq> ROBFLEX_EVENT_NONE" by code_simp
  moreover have "fst (event_table_upsert (robflex_get_event_idx (Some ''high_speed''))
      (event_context IMMEDIATE zero_aux 5) (event_map busy_lib)) = 0" by code_simp
  ultimately show ?thesis
    using attach_under_ticks [of busy_lib "''high_speed''" example_platform IMMEDIATE zero_aux 5] busy_calm(1) by auto
qed

lemma stores_quiet:
  "arrivals s = [] \<Longrightarrow> run_stores P fs s = Some (s\<lparr>event_map := fold (\<lambda>f. f) fs (event_map s)\<rparr>)"
  by (induction fs arbitrary: s) (simp_all add: stmt_def deliver_def)

text \<open>
  C33: a tick in the middle of attaching serves a stale context. Let a valid raised event have
  no entry, and let the free entry it will get still hold a context of a level above the
  thread's own and all that are served. After the first two of the four stores, a tick
  chooses that entry and serves the old context, not the one that is being attached.
\<close>

theorem stale_context_served:
  assumes "calm s" "arrivals s = []" "valid_event e" "test_event P e s = Some True"
    and "find_entry (event_map s) e = None" "first_index (\<lambda>x. \<not> in_use x) (entries (event_map s)) = Some i"
    and "level (loc_ctx s) < slot_level s i" "\<And>k. k < ROBFLEX_MAX_LOCAL_EVENT_CTX \<Longrightarrow> served P s k \<Longrightarrow> slot_level s k < slot_level s i"
  shows "\<exists>fs s'. upsert_stores e c (event_map s) = Some fs \<and> length fs = 4 \<and>
    run_stores P (take 2 fs) s = Some s' \<and> tick_ctx P s' = Some (Slot i) \<and>
    read_ctx (Slot i) s' = ev_ctx (entries (event_map s) ! i)"
proof -
  have e: "\<not> e \<le> ROBFLEX_EVENT_NONE" using assms(3) by (simp add: valid_event_def)
  let ?t = "set_entry i (\<lambda>x. x\<lparr>ev_idx := e\<rparr>) (set_entry i (\<lambda>x. x\<lparr>in_use := True\<rparr>) (event_map s))"
  let ?s = "s\<lparr>event_map := ?t\<rparr>"
  obtain fs where fs: "upsert_stores e c (event_map s) = Some fs" "length fs = 4"
    "run_stores P (take 2 fs) s = Some ?s"
    using e assms(5,6) by (simp add: upsert_stores_def stores_quiet [OF assms(2)] numeral_2_eq_2 del: run_stores.simps)
  have i: "i < length (entries (event_map s))" using first_index_SomeD [OF assms(6)] by simp
  have l: "live ?s" using assms(1,3) table_ok_live [of "event_map s"]
    by (simp add: live_def calm_def ready_def valid_event_def ROBFLEX_EVENT_NONE_def)
  have i8: "i < ROBFLEX_MAX_LOCAL_EVENT_CTX" using i assms(1) by (simp add: calm_def ready_def table_ok_def)
  have te: "test_event P x ?s = test_event P x s" for x by (simp add: test_event_def)
  have sl: "slot_level ?s k = slot_level s k" for k
    using i by (cases "k = i") (simp_all add: slot_level_def set_entry_def)
  have sv: "served P ?s k \<longleftrightarrow> k = i \<or> served P s k" for k
    using i assms(4) te by (cases "k = i") (simp_all add: served_def set_entry_def)
  obtain r where r: "tick_ctx P ?s = Some r" using tick_ctx_live [OF l] by blast
  from tick_ctx_highest [OF r] have "r = Slot i"
    using sl sv i8 assms(7,8) by (auto simp: not_less [symmetric])
  moreover have "read_ctx (Slot i) ?s = ev_ctx (entries (event_map s) ! i)"
    using i by (simp add: read_ctx_def set_entry_def)
  ultimately show ?thesis using fs r by blast
qed


definition freed_lib :: "u64 lib" where
  \<comment> \<open>after the context of event 3 has been detached\<close>
  "freed_lib = example_lib\<lparr>event_map := snd (event_table_erase 3 example_table)\<rparr>"

lemma freed_calm: "calm freed_lib"
proof -
  have "table_ok example_table" using example_ready by (simp add: ready_def example_lib_def)
  then have "table_ok (snd (event_table_erase 3 example_table))"
    by (rule ctxs.remove_inv) (simp add: valid_event_def ROBFLEX_EVENT_NONE_def MAX_EVENT_NUM_def)
  then show ?thesis by (simp add: freed_lib_def calm_def ready_def example_lib_def)
qed

theorem stale_context_served_witness:
  "\<exists>fs s'. upsert_stores 3 (example_context IMMEDIATE 1) (event_map freed_lib) = Some fs \<and> length fs = 4 \<and>
    run_stores example_platform (take 2 fs) freed_lib = Some s' \<and> tick_ctx example_platform s' = Some (Slot 0) \<and>
    read_ctx (Slot 0) s' = ev_ctx (entries (event_map freed_lib) ! 0)"
proof (rule stale_context_served [OF freed_calm])
  show "arrivals freed_lib = []" by (simp add: freed_lib_def example_lib_def)
  show "valid_event 3" "test_event example_platform 3 freed_lib = Some True" "find_entry (event_map freed_lib) 3 = None"
    "first_index (\<lambda>x. \<not> in_use x) (entries (event_map freed_lib)) = Some 0"
    "level (loc_ctx freed_lib) < slot_level freed_lib 0"
    by (code_simp, code_simp, code_simp, code_simp, code_simp)
  have "list_all (\<lambda>x. \<not> in_use x) (entries (event_map freed_lib))"
    "length (entries (event_map freed_lib)) = ROBFLEX_MAX_LOCAL_EVENT_CTX" by (code_simp, code_simp)
  then show "slot_level freed_lib k < slot_level freed_lib 0"
    if "k < ROBFLEX_MAX_LOCAL_EVENT_CTX" "served example_platform freed_lib k" for k
    using that by (simp add: served_def list_all_length)
qed

end
