(* ===== verification/CSender.thy ===== *)
theory CSender
  imports CApiCalls
begin

text \<open>
  The daemon's client in C (the first half of \<open>src/robflex_api.c\<close>) and the signal handler that
  receives a new time cost (\<open>src/dym_hook.c\<close>). The printer of cJSON is a parameter: what
  \<open>cJSON_PrintPreallocated\<close> writes into the 1024 bytes of \<open>cmd_json\<close> for an object with the given
  members, if it fits. Of \<open>vsnprintf\<close> the conversions \<open>%d\<close>, \<open>%s\<close>, \<open>%llu\<close>, \<open>%lld\<close> and \<open>%%\<close> are modelled; a
  conversion without its argument, or another one, gives \<open>None\<close>.
\<close>

subsection \<open>Sending a command\<close>

datatype cval = C_string "string option" | C_number rat

type_synonym printer = "(string \<times> cval) list \<Rightarrow> string option"

definition send_text :: "'w platform \<Rightarrow> string \<Rightarrow> 'w call" where
  "send_text P cmd_json s0 = do {
     s \<leftarrow> deliver P s0;
     (let (num_bytes, w) = c_sendto P (socket_fd s) cmd_json SOCKET_PATH (kworld s)
      in Some (if num_bytes < 0 then - 1 else 0, s\<lparr>kworld := w\<rparr>)) }"

definition send_command_to_daemon_c :: "'w platform \<Rightarrow> string \<Rightarrow> 'w call" where
  "send_command_to_daemon_c P cmd_json s0 = do {
     s \<leftarrow> deliver P s0;
     (if socket_fd s = 0 then
        (let (fd, w) = c_socket P (kworld s);
             s' = s\<lparr>socket_fd := fd, kworld := w\<rparr>
         in if fd < 0 then Some (- 1, s') else send_text P cmd_json s')
      else send_text P cmd_json s) }"

definition print_and_send :: "'w platform \<Rightarrow> printer \<Rightarrow> (string \<times> cval) list \<Rightarrow> 'w call" where
  "print_and_send P pr obj s = (case pr obj of
     None \<Rightarrow> Some (- 1, s)
   | Some cmd_json \<Rightarrow> send_command_to_daemon_c P cmd_json s)"

definition tid_or_own :: "'w platform \<Rightarrow> int \<Rightarrow> 'w lib \<Rightarrow> int" where
  "tid_or_own P tid s = (if tid \<noteq> 0 then tid else c_gettid P (kworld s))"

definition c_int :: "int \<Rightarrow> cval" where
  "c_int n = C_number (of_int n)"

subsection \<open>The commands\<close>

definition robflex_set_scheduler_c :: "'w platform \<Rightarrow> printer \<Rightarrow> int \<Rightarrow> int \<Rightarrow> int \<Rightarrow> 'w call" where
  "robflex_set_scheduler_c P pr tid pol priority s =
     print_and_send P pr [(''cmd'', C_string (Some ''sched_setscheduler'')),
       (''tid'', c_int (tid_or_own P tid s)), (''policy'', c_int pol), (''priority'', c_int priority)] s"

definition robflex_set_priority_c :: "'w platform \<Rightarrow> printer \<Rightarrow> int \<Rightarrow> int \<Rightarrow> 'w call" where
  "robflex_set_priority_c P pr tid priority s =
     print_and_send P pr [(''cmd'', C_string (Some ''set_priority'')),
       (''tid'', c_int (tid_or_own P tid s)), (''priority'', c_int priority)] s"

datatype carg = Arg_int int | Arg_string string | Arg_llu u64 | Arg_lld u64

fun c_format :: "string \<Rightarrow> carg list \<Rightarrow> string option" where
  "c_format [] args = Some []"
| "c_format (c # cs) args =
     (if c \<noteq> CHR ''%'' then map_option (\<lambda>t. c # t) (c_format cs args)
      else case cs of
        [] \<Rightarrow> None
      | d # ds \<Rightarrow>
          (if d = CHR ''%'' then map_option (\<lambda>t. d # t) (c_format ds args)
           else case args of
             Arg_int n # xs \<Rightarrow>
               (if d = CHR ''d'' then map_option (\<lambda>t. show_int n @ t) (c_format ds xs) else None)
           | Arg_string x # xs \<Rightarrow>
               (if d = CHR ''s'' then map_option (\<lambda>t. x @ t) (c_format ds xs) else None)
           | Arg_llu x # xs \<Rightarrow>
               (if startswith cs ''llu'' then map_option (\<lambda>t. show_int (uint x) @ t) (c_format (drop 2 ds) xs) else None)
           | Arg_lld x # xs \<Rightarrow>
               (if startswith cs ''lld'' then map_option (\<lambda>t. show_int (sint x) @ t) (c_format (drop 2 ds) xs) else None)
           | [] \<Rightarrow> None))"

definition C_MAX_LOG_SIZE :: nat where
  "C_MAX_LOG_SIZE = 512"

definition vsnprintf :: "nat \<Rightarrow> string \<Rightarrow> carg list \<Rightarrow> string option" where
  "vsnprintf sz fmt args = map_option (take (sz - 1)) (c_format fmt args)"

definition robflex_log_message_c ::
    "'w platform \<Rightarrow> printer \<Rightarrow> int \<Rightarrow> string \<Rightarrow> carg list \<Rightarrow> 'w call" where
  "robflex_log_message_c P pr tid message args s = (case vsnprintf C_MAX_LOG_SIZE message args of
     None \<Rightarrow> None
   | Some formatted_message \<Rightarrow>
       print_and_send P pr [(''cmd'', C_string (Some ''log_message'')),
         (''tid'', c_int (tid_or_own P tid s)), (''message'', C_string (Some formatted_message))] s)"

definition robflex_update_ctrl_time_cost_c :: "'w platform \<Rightarrow> printer \<Rightarrow> int \<Rightarrow> int \<Rightarrow> 'w call" where
  "robflex_update_ctrl_time_cost_c P pr tid value_in_us s =
     print_and_send P pr [(''cmd'', C_string (Some ''update_ctrl_time_cost'')),
       (''tid'', c_int (tid_or_own P tid s)), (''value_in_us'', c_int value_in_us)] s"

definition robflex_apply_event_c ::
    "'w platform \<Rightarrow> printer \<Rightarrow> string option \<Rightarrow> u64 \<Rightarrow> int \<Rightarrow> 'w call" where
  \<comment> \<open>\<open>timeout\<close> is converted to \<open>double\<close>\<close>
  "robflex_apply_event_c P pr event_name timeout strength s =
     print_and_send P pr [(''cmd'', C_string (Some ''apply_event'')),
       (''event_name'', C_string event_name), (''timeout'', C_number (to_double timeout)),
       (''strength'', c_int strength)] s"

definition robflex_cancel_event_c :: "'w platform \<Rightarrow> printer \<Rightarrow> string option \<Rightarrow> int \<Rightarrow> 'w call" where
  "robflex_cancel_event_c P pr event_name strength s =
     print_and_send P pr [(''cmd'', C_string (Some ''cancel_event'')),
       (''event_name'', C_string event_name), (''strength'', c_int strength)] s"

subsection \<open>A new time cost\<close>

definition cpi_set_interrupt_handler ::
    "'w platform \<Rightarrow> printer \<Rightarrow> bool \<Rightarrow> int \<Rightarrow> 'w lib \<Rightarrow> 'w lib option" where
  \<comment> \<open>the third argument is \<open>signo == CPI_SET_SIGNAL\<close>\<close>
  "cpi_set_interrupt_handler P pr is_cpi_set new_cpi s0 =
     (if is_cpi_set then do {
        s \<leftarrow> stmt P (set_perf_ctrl_cpi_atomic new_cpi) s0;
        (r, s) \<leftarrow> robflex_log_message_c P pr (c_gettid P (kworld s))
           ''Updated CPI control to %d million instructions'' [Arg_int new_cpi] s;
        Some s }
      else Some s0)"

subsection \<open>Sending keeps the thread calm\<close>

lemma calm_socket [simp]: "calm (s\<lparr>socket_fd := fd\<rparr>) = calm s"
  by (simp add: calm_def ready_def)

definition quiet_call :: "'w lib \<Rightarrow> (int \<times> 'w lib) option \<Rightarrow> bool" where
  "quiet_call s r \<longleftrightarrow> (\<exists>n s'. r = Some (n, s') \<and> n \<in> {0, - 1} \<and> calm s' \<and> contexts s' = contexts s)"

lemma send_text_calm:
  assumes "calm s"
  shows "quiet_call s (send_text P cmd_json s)"
proof -
  obtain u where "deliver P s = Some u" "calm u" "contexts u = contexts s"
    using deliver_calm [OF assms] .
  then show ?thesis by (simp add: send_text_def quiet_call_def case_prod_beta)
qed

lemma send_calm:
  assumes "calm s"
  shows "quiet_call s (send_command_to_daemon_c P cmd_json s)"
proof -
  obtain u where u: "deliver P s = Some u" "calm u" "contexts u = contexts s"
    using deliver_calm [OF assms] .
  let ?u = "u\<lparr>socket_fd := fst (c_socket P (kworld u)), kworld := snd (c_socket P (kworld u))\<rparr>"
  have c: "calm ?u" "contexts ?u = contexts s" using u by simp_all
  show ?thesis
    using send_text_calm [OF c(1), of P cmd_json] send_text_calm [OF u(2), of P cmd_json] u c
    by (auto simp: send_command_to_daemon_c_def quiet_call_def case_prod_beta Let_def)
qed

lemma print_and_send_calm: "calm s \<Longrightarrow> quiet_call s (print_and_send P pr obj s)"
  using send_calm by (auto simp: print_and_send_def quiet_call_def split: option.split)

lemma commands_calm:
  assumes "calm s"
  shows "quiet_call s (robflex_set_scheduler_c P pr tid pol priority s)"
    "quiet_call s (robflex_set_priority_c P pr tid priority s)"
    "quiet_call s (robflex_update_ctrl_time_cost_c P pr tid v s)"
    "quiet_call s (robflex_apply_event_c P pr e timeout strength s)"
    "quiet_call s (robflex_cancel_event_c P pr e strength s)"
    "c_format message args = Some m \<Longrightarrow> quiet_call s (robflex_log_message_c P pr tid message args s)"
  using print_and_send_calm [OF assms]
  by (simp_all add: robflex_set_scheduler_c_def robflex_set_priority_c_def
      robflex_update_ctrl_time_cost_c_def robflex_apply_event_c_def robflex_cancel_event_c_def
      robflex_log_message_c_def vsnprintf_def)

subsection \<open>When no tick arrives\<close>

lemma deliver_none: "arrivals s = [] \<Longrightarrow> deliver P s = Some s"
  by (simp add: deliver_def)

lemma send_open:
  assumes "arrivals s = []" "socket_fd s \<noteq> 0"
  shows "send_command_to_daemon_c P cmd_json s =
    (let (n, w) = c_sendto P (socket_fd s) cmd_json SOCKET_PATH (kworld s)
     in Some (if n < 0 then - 1 else 0, s\<lparr>kworld := w\<rparr>))"
  using assms by (simp add: send_command_to_daemon_c_def send_text_def deliver_none)

lemma print_and_send_keeps:
  assumes "arrivals s = []" "print_and_send P pr obj s = Some (r, s')"
  shows "loc_ctx s' = loc_ctx s" "arrivals s' = []" "socket_fd s \<noteq> 0 \<Longrightarrow> socket_fd s' = socket_fd s"
  using assms by (auto simp: print_and_send_def send_command_to_daemon_c_def send_text_def deliver_none
      case_prod_beta Let_def split: option.splits if_splits)

lemma cost_signal_value:
  assumes "calm s" "arrivals s = []"
  shows "\<exists>s'. cpi_set_interrupt_handler P pr True v s = Some s' \<and> calm s' \<and>
    (v < 1 \<longrightarrow> uint (time_slice_ns (aux (loc_ctx s'))) = 1000) \<and>
    (1 \<le> v \<and> v \<le> 2147483 \<longrightarrow> uint (time_slice_ns (aux (loc_ctx s'))) = v * 1000) \<and>
    (2147483 < v \<and> v \<le> 4294967 \<longrightarrow>
       uint (time_slice_ns (aux (loc_ctx s'))) = 2 ^ 64 - 2 ^ 32 + v * 1000)"
proof -
  let ?x = "scast (word_of_int (max 1 v * 1000) :: u32) :: u64"
  let ?u = "set_perf_ctrl_cpi_atomic v s"
  have own: "?u = own_aux (set_time_slice_ns ?x) s" by (simp add: set_perf_ctrl_cpi_atomic_def own_aux_def)
  have q: "calm ?u" "arrivals ?u = []" "time_slice_ns (aux (loc_ctx ?u)) = ?x"
    using assms quiet_keeps(3) [OF quiet_own_aux, of "set_time_slice_ns ?x" s]
    by (simp_all add: own time_slice_ns_def set_time_slice_ns_def)
  obtain m where m: "c_format ''Updated CPI control to %d million instructions'' [Arg_int v] = Some m"
    by simp
  obtain r s' where s': "robflex_log_message_c P pr (c_gettid P (kworld ?u))
      ''Updated CPI control to %d million instructions'' [Arg_int v] ?u = Some (r, s')" "calm s'"
    using commands_calm(6) [OF q(1) m, of P pr "c_gettid P (kworld ?u)"] by (auto simp: quiet_call_def)
  have l: "loc_ctx s' = loc_ctx ?u"
    using s'(1) m print_and_send_keeps(1) [OF q(2)] by (simp add: robflex_log_message_c_def vsnprintf_def)
  have run: "cpi_set_interrupt_handler P pr True v s = Some s'"
    using s'(1) by (simp add: cpi_set_interrupt_handler_def stmt_def deliver_none [OF assms(2)])
  define m where "m = max 1 v * 1000"
  have v: "v < 1 \<Longrightarrow> m = 1000" "1 \<le> v \<Longrightarrow> m = v * 1000" "0 \<le> m" by (simp_all add: m_def)
  note w = widen_int_values [OF v(3), folded m_def]
  have "v < 1 \<longrightarrow> uint ?x = 1000" "1 \<le> v \<and> v \<le> 2147483 \<longrightarrow> uint ?x = v * 1000"
    "2147483 < v \<and> v \<le> 4294967 \<longrightarrow> uint ?x = 2 ^ 64 - 2 ^ 32 + v * 1000"
    unfolding m_def [symmetric] using w v by auto
  then show ?thesis using run s'(2) l q(3) by metis
qed

text \<open>
  C35: a time cost signal sets the slice in nanoseconds, and overflows. With no tick
  between, the handler succeeds and leaves a slice of 1000 ns for a value below one and of
  a thousand times the value up to 2147483 microseconds; above that, up to 4294967, the
  product leaves \<open>int\<close> and, extended with its sign, makes a slice of more than \<open>2 ^ 63\<close>.
\<close>

theorem cost_signal_sets_slice:
  assumes "calm s" "arrivals s = []"
  shows "\<exists>s'. cpi_set_interrupt_handler P pr True v s = Some s' \<and> calm s' \<and>
    (v < 1 \<longrightarrow> uint (time_slice_ns (aux (loc_ctx s'))) = 1000) \<and>
    (1 \<le> v \<and> v \<le> 2147483 \<longrightarrow> uint (time_slice_ns (aux (loc_ctx s'))) = v * 1000) \<and>
    (2147483 < v \<and> v \<le> 4294967 \<longrightarrow>
       uint (time_slice_ns (aux (loc_ctx s'))) = 2 ^ 64 - 2 ^ 32 + v * 1000)"
  using assms by (rule cost_signal_value)

definition print_members :: printer where
  \<comment> \<open>a printer for the witnesses: short texts only\<close>
  "print_members ms = (if length ms < 8 then Some (concat (map fst ms)) else None)"

theorem cost_signal_sets_slice_witness:
  "\<exists>s'. cpi_set_interrupt_handler example_platform print_members True 2147484 latency_lib = Some s' \<and>
    uint (time_slice_ns (aux (loc_ctx s'))) = 18446744071562068320"
  using cost_signal_sets_slice [OF latency_lib_facts(1,2), of example_platform print_members 2147484] by auto

end
