(* ===== verification/PmuDecl.thy ===== *)
theory PmuDecl
  imports CTypes
begin

text \<open>
  The declarations on the two sides of the Python binding: those that
  \<open>src/python/pmu_tick_api.py\<close> gives to \<open>ffi.cdef\<close>, and those of the C headers the library is
  built from (\<open>inc/robflex_def.h\<close>, \<open>inc/robflex_api.h\<close>). A call is defined only when both
  sides agree on the parameter and result types.
\<close>

record proto =
  result :: ctype
  params :: "ctype list"
  variadic :: bool

definition c_int_t :: ctype where "c_int_t = SInt 4"
definition c_enum :: ctype where "c_enum = UInt 4"
definition c_uint64 :: ctype where "c_uint64 = UInt 8"
definition c_text :: ctype where "c_text = Ptr (SInt 1)"

definition fn :: "ctype \<Rightarrow> ctype list \<Rightarrow> proto" where
  "fn r ps = \<lparr>result = r, params = ps, variadic = False\<rparr>"

subsection \<open>What Python declares\<close>

definition py_YieldDemand :: ctype where
  "py_YieldDemand = Struct [(''time_slice_ns'', UInt 8), (''time_budgets'', SInt 8)]"

definition py_LatencyDemand :: ctype where
  "py_LatencyDemand = Struct [(''target_lat'', c_uint64), (''start_time'', c_uint64),
     (''hist_ncycle'', c_uint64), (''used_ncycle'', c_uint64)]"

definition py_uAuxData :: ctype where
  "py_uAuxData = Union [(''norm'', py_YieldDemand), (''lat'', py_LatencyDemand)]"

definition py_LocalContext :: ctype where
  "py_LocalContext = Struct [(''in_critical'', c_int_t), (''n_signal_pendings'', c_int_t),
     (''policy'', c_enum), (''aux'', py_uAuxData), (''cycles_num'', c_uint64),
     (''avg_timecost_ns'', c_uint64)]"

definition cdef_enums :: "(string \<times> (string \<times> int) list) list" where
  "cdef_enums =
     [(''SystemBusyDegree'', [(''SYSTEM_IDLE'', 0), (''SYSTEM_MODERATE'', 1), (''SYSTEM_HIGH'', 2)]),
      (''RunPolicy'', [(''YIELDING'', 0), (''PREDETERMINED'', 1), (''IMMEDIATE'', 2),
        (''LATENCY_ORIENTED'', 3)])]"

definition cdef_protos :: "(string \<times> proto) list" where
  "cdef_protos =
     [(''robflex_set_scheduler'', fn c_int_t [c_int_t, c_int_t, c_int_t]),
      (''robflex_set_priority'', fn c_int_t [c_int_t, c_int_t]),
      (''robflex_log_message'', \<lparr>result = c_int_t, params = [c_int_t, c_text], variadic = True\<rparr>),
      (''robflex_update_ctrl_time_cost'', fn c_int_t [c_int_t, c_int_t]),
      (''robflex_create_event'', fn c_int_t [c_text]),
      (''robflex_delete_event'', fn c_int_t [c_text]),
      (''robflex_apply_event'', fn c_int_t [c_text, c_uint64, c_int_t]),
      (''robflex_cancel_event'', fn c_int_t [c_text, c_int_t]),
      (''robflex_attach_context_for_event'', fn c_int_t [c_text, c_enum, py_uAuxData, UInt 4]),
      (''robflex_dettach_context_for_event'', fn c_int_t [c_text]),
      (''robflex_get_policy_for_event'', fn c_int_t [c_text]),
      (''robflex_test_event'', fn Bool8 [c_int_t]),
      (''robflex_init_local_context'', fn c_int_t [c_enum]),
      (''robflex_set_cycles_for_tick'', fn c_int_t [c_uint64]),
      (''robflex_clear_time_budget'', fn c_int_t []),
      (''robflex_set_time_for_throttle'', fn c_int_t [c_uint64]),
      (''robflex_set_as_immediate'', fn c_int_t [c_uint64]),
      (''robflex_set_as_latency_flick'', fn c_int_t [c_uint64, c_uint64]),
      (''robflex_add_runcycle'', fn c_int_t [c_uint64]),
      (''robflex_shot_on_latency'', fn c_int_t []),
      (''robflex_switch_context'', fn c_int_t [Ptr py_LocalContext, Ptr py_LocalContext]),
      (''robflex_switch_context_block'', fn c_int_t [Ptr py_LocalContext, Ptr py_LocalContext]),
      (''robflex_system_busy_degree'', fn c_enum [])]"

subsection \<open>What the headers declare\<close>

definition c_YieldDemand :: ctype where
  "c_YieldDemand = Struct [(''time_slice_ns'', UInt 8), (''time_budgets'', SInt 8)]"

definition c_LatencyDemand :: ctype where
  "c_LatencyDemand = Struct [(''target_lat'', c_uint64), (''start_time'', c_uint64),
     (''hist_ncycle'', c_uint64), (''used_ncycle'', c_uint64), (''lat_bias'', SInt 8),
     (''total_latency'', c_uint64), (''used_latency'', c_uint64)]"

definition c_HandlerDemand :: ctype where
  "c_HandlerDemand = Struct [(''handler'', Fun_ptr), (''saved_arg'', Array 3 c_uint64)]"

definition c_uAuxData :: ctype where
  "c_uAuxData = Union [(''norm'', c_YieldDemand), (''lat'', c_LatencyDemand), (''hdf'', c_HandlerDemand)]"

definition c_LocalContext :: ctype where
  "c_LocalContext = Struct [(''policy'', c_enum), (''aux'', c_uAuxData), (''level'', c_int_t),
     (''cycles_num'', c_uint64), (''avg_timecost_ns'', c_uint64)]"

definition c_ChainContext :: ctype where
  "c_ChainContext = Struct [(''total_latency'', c_uint64), (''used_latency'', c_uint64),
     (''local_target_latency'', c_uint64), (''local_used_latency'', c_uint64)]"

definition header_protos :: "(string \<times> proto) list" where
  "header_protos =
     [(''handle_tick'', fn Void []),
      (''robflex_set_scheduler'', fn c_int_t [c_int_t, c_int_t, c_int_t]),
      (''robflex_set_priority'', fn c_int_t [c_int_t, c_int_t]),
      (''robflex_log_message'', \<lparr>result = c_int_t, params = [c_int_t, c_text], variadic = True\<rparr>),
      (''robflex_update_ctrl_time_cost'', fn c_int_t [c_int_t, c_int_t]),
      (''robflex_create_event'', fn c_int_t [c_text]),
      (''robflex_delete_event'', fn c_int_t [c_text]),
      (''robflex_apply_event'', fn c_int_t [c_text, c_uint64, c_int_t]),
      (''robflex_cancel_event'', fn c_int_t [c_text, c_int_t]),
      (''robflex_attach_context_for_event'', fn c_int_t [c_text, c_enum, c_uAuxData, UInt 4]),
      (''robflex_dettach_context_for_event'', fn c_int_t [c_text]),
      (''robflex_get_policy_for_event'', fn c_int_t [c_text]),
      (''robflex_test_event'', fn Bool8 [c_int_t]),
      (''robflex_init_local_context'', fn c_int_t [c_enum]),
      (''robflex_set_cycles_for_tick'', fn c_int_t [c_uint64]),
      (''robflex_clear_time_budget'', fn c_int_t []),
      (''robflex_set_time_for_throttle'', fn c_int_t [c_uint64]),
      (''robflex_set_as_immediate'', fn c_int_t [c_uint64]),
      (''robflex_set_as_latency_flick'', fn c_int_t [c_uint64, c_uint64]),
      (''robflex_add_runcycle'', fn c_int_t [c_uint64]),
      (''robflex_shot_on_latency'', fn c_ChainContext []),
      (''robflex_chained_from_latency'', fn c_int_t [c_ChainContext, c_int_t]),
      (''robflex_switch_context'', fn c_int_t [Ptr c_LocalContext, Ptr c_LocalContext]),
      (''robflex_switch_context_block'', fn c_int_t [Ptr c_LocalContext, Ptr c_LocalContext]),
      (''robflex_system_busy_degree'', fn c_enum [])]"

definition compatible :: "string \<Rightarrow> bool" where
  "compatible f \<longleftrightarrow> map_of cdef_protos f \<noteq> None \<and> map_of cdef_protos f = map_of header_protos f"

subsection \<open>Where they disagree\<close>

text \<open>
  The two sides agree on all but four functions. Of the functions that the Python module
  declares, exactly the attachment of a context, the latency shot and the two context
  switches have another type in the header; and the header has two functions more.
\<close>

theorem declarations_disagree:
  "filter (\<lambda>f. \<not> compatible f) (map fst cdef_protos) =
     [''robflex_attach_context_for_event'', ''robflex_shot_on_latency'', ''robflex_switch_context'',
      ''robflex_switch_context_block''] \<and>
   filter (\<lambda>f. map_of cdef_protos f = None) (map fst header_protos) = [''handle_tick'', ''robflex_chained_from_latency'']"
  by code_simp

text \<open>
  The Python context is too short. A \<open>LocalContext\<close> allocated from Python has 64 bytes,
  the library's has 88; \<open>policy\<close>, \<open>aux\<close>, \<open>cycles_num\<close> and \<open>avg_timecost_ns\<close> are all at other offsets,
  and the union has 32 bytes instead of 56.
\<close>

theorem context_layouts_differ:
  "size_of py_LocalContext = 64 \<and> size_of c_LocalContext = 88 \<and>
   size_of py_uAuxData = 32 \<and> size_of c_uAuxData = 56 \<and>
   list_all (\<lambda>(f, off, sz). case map_of (members c_LocalContext) f of
      None \<Rightarrow> f = ''in_critical'' \<or> f = ''n_signal_pendings''
    | Some (off', sz') \<Rightarrow> off \<noteq> off') (members py_LocalContext)"
  by code_simp

end
