(* ===== verification/PmuTickApi.thy ===== *)
theory PmuTickApi
  imports CSender PmuDecl
begin

text \<open>
  The Python binding of the library (\<open>src/python/pmu_tick_api.py\<close>). A wrapper converts its
  arguments the way cffi does for the declared types (an integer that does not fit raises
  \<open>OverflowError\<close>, \<open>None\<close> for a pointer raises \<open>TypeError\<close>) and calls the C function of the model;
  a call through a declaration that disagrees with the header is undefined, \<open>None\<close>. The state is
  the calling thread's state in the library. \<open>dlopen\<close>, the printer of cJSON and the \<open>%\<close>
  formatting of Python objects are parameters.
\<close>

subsection \<open>Finding the library\<close>

definition path_join :: "string \<Rightarrow> string \<Rightarrow> string" where
  \<comment> \<open>\<open>posixpath.join\<close> of two parts\<close>
  "path_join a b =
     (if startswith b ''/'' then b
      else if a = [] \<or> last a = CHR ''/'' then a @ b else a @ ''/'' @ b)"

definition dirname :: "string \<Rightarrow> string" where
  \<comment> \<open>\<open>posixpath.dirname\<close>: up to the last slash, without the slashes it ends with\<close>
  "dirname p =
     (let head = rev (dropWhile (\<lambda>c. c \<noteq> CHR ''/'') (rev p))
      in if list_all (\<lambda>c. c = CHR ''/'') head then head else rstrip_chars head ''/'')"

definition lib_candidates :: "(string \<Rightarrow> string option) \<Rightarrow> string \<Rightarrow> string option list" where
  "lib_candidates environ file =
     [environ ''ROBFLEX_LIB'',
      Some ''librobonix.so'',
      Some (foldl path_join (dirname file) [''..'', ''..'', ''build'', ''librobonix.so''])]"

fun load_lib :: "(string \<Rightarrow> 'l result) \<Rightarrow> string option list \<Rightarrow> 'l result" where
  \<comment> \<open>\<open>ffi.dlopen\<close> is a parameter; only \<open>OSError\<close> is caught\<close>
  "load_lib dlopen [] = Inl OSError"
| "load_lib dlopen (path # paths) =
     (if path = None \<or> path = Some [] then load_lib dlopen paths
      else case dlopen (the path) of
        Inr l \<Rightarrow> Inr l
      | Inl e \<Rightarrow> if e = OSError then load_lib dlopen paths else Inl e)"

subsection \<open>Constants\<close>

definition SCHED_policies :: "(string \<times> int) list" where
  "SCHED_policies = [(''SCHED_NORMAL'', 0), (''SCHED_FIFO'', 1), (''SCHED_RR'', 2), (''SCHED_BATCH'', 3),
     (''SCHED_ISO'', 4), (''SCHED_IDLE'', 5), (''SCHED_DEADLINE'', 6)]"

definition RunPolicy_class :: "(string \<times> int) list" where
  "RunPolicy_class = [(''YIELDING'', 0), (''PREDETERMINED'', 1), (''IMMEDIATE'', 2), (''LATENCY_ORIENTED'', 3)]"

definition SystemBusyDegree_class :: "(string \<times> int) list" where
  "SystemBusyDegree_class = [(''SYSTEM_IDLE'', 0), (''SYSTEM_MODERATE'', 1), (''SYSTEM_HIGH'', 2)]"

subsection \<open>Calling through cffi\<close>

type_synonym 'w pycall = "'w lib \<Rightarrow> (int result \<times> 'w lib) option"

datatype py_text = Str string | Bytes string

datatype ctx_arg = Context nat | NoContext \<comment> \<open>a \<open>LocalContext *\<close> of cffi, or \<open>None\<close>\<close>

datatype union_arg =
    Union_ptr "u64 list option" \<comment> \<open>a pointer to a union of so many words; \<open>None\<close> is NULL\<close>
  | Union_val "u64 list"
  | Not_cdata

definition to_int :: "int \<Rightarrow> int result" where
  "to_int n = (if fits_signed 32 n then Inr n else Inl OverflowError)"

definition to_enum :: "int \<Rightarrow> int result" where
  "to_enum n = (if fits_unsigned 32 n then Inr n else Inl OverflowError)"

definition to_u32 :: "int \<Rightarrow> u32 result" where
  "to_u32 n = (if fits_unsigned 32 n then Inr (word_of_int n) else Inl OverflowError)"

definition to_u64 :: "int \<Rightarrow> u64 result" where
  "to_u64 n = (if fits_unsigned 64 n then Inr (word_of_int n) else Inl OverflowError)"

definition to_ptr :: "ctx_arg \<Rightarrow> nat result" where
  "to_ptr c = (case c of Context p \<Rightarrow> Inr p | NoContext \<Rightarrow> Inl TypeError)"

definition c_chars :: "string \<Rightarrow> string" where
  \<comment> \<open>what a C function reads from the bytes it is given: up to the first NUL\<close>
  "c_chars b = takeWhile (\<lambda>c. c \<noteq> CHR 0x00) b"

definition ffi_call :: "string \<Rightarrow> 'a result \<Rightarrow> ('a \<Rightarrow> 'w lib \<Rightarrow> (int \<times> 'w lib) option) \<Rightarrow> 'w pycall" where
  "ffi_call f args g s = (case args of
     Inl e \<Rightarrow> Some (Inl e, s)
   | Inr a \<Rightarrow> if compatible f then map_option (\<lambda>(r, s'). (Inr r, s')) (g a s) else None)"

definition both :: "'a result \<Rightarrow> 'b result \<Rightarrow> ('a \<times> 'b) result" where
  "both x y = rbind x (\<lambda>a. rbind y (\<lambda>b. Inr (a, b)))"

definition as_c_utf8 :: "py_text \<Rightarrow> string" where
  "as_c_utf8 name = (case name of Bytes b \<Rightarrow> b | Str s \<Rightarrow> utf8 s)"

definition name_arg :: "py_text \<Rightarrow> string option" where
  "name_arg name = Some (c_chars (as_c_utf8 name))"

subsection \<open>Requests to the daemon\<close>

definition pmu_set_scheduler :: "'w platform \<Rightarrow> printer \<Rightarrow> int \<Rightarrow> int \<Rightarrow> int \<Rightarrow> 'w pycall" where
  "pmu_set_scheduler P pr tid pol priority =
     ffi_call ''robflex_set_scheduler'' (both (to_int tid) (both (to_int pol) (to_int priority)))
       (\<lambda>(t, p, n). robflex_set_scheduler_c P pr t p n)"

definition pmu_set_priority :: "'w platform \<Rightarrow> printer \<Rightarrow> int \<Rightarrow> int \<Rightarrow> 'w pycall" where
  "pmu_set_priority P pr tid priority =
     ffi_call ''robflex_set_priority'' (both (to_int tid) (to_int priority))
       (\<lambda>(t, n). robflex_set_priority_c P pr t n)"

definition pmu_log_message ::
    "'w platform \<Rightarrow> printer \<Rightarrow> 'a formatter \<Rightarrow> int \<Rightarrow> string \<Rightarrow> 'a list \<Rightarrow> 'w pycall" where
  \<comment> \<open>the formatted text is itself passed as the C format string\<close>
  "pmu_log_message P pr fm tid fmt args s =
     (case (if args = [] then Inr fmt else percent fm fmt args) of
        Inl e \<Rightarrow> Some (Inl e, s)
      | Inr msg \<Rightarrow>
          ffi_call ''robflex_log_message'' (to_int tid)
            (\<lambda>t. robflex_log_message_c P pr t (c_chars (utf8 msg)) []) s)"

definition pmu_update_ctrl_time_cost :: "'w platform \<Rightarrow> printer \<Rightarrow> int \<Rightarrow> int \<Rightarrow> 'w pycall" where
  "pmu_update_ctrl_time_cost P pr tid value_in_us =
     ffi_call ''robflex_update_ctrl_time_cost'' (both (to_int tid) (to_int value_in_us))
       (\<lambda>(t, v). robflex_update_ctrl_time_cost_c P pr t v)"

definition pmu_create_event :: "py_text \<Rightarrow> 'w pycall" where
  "pmu_create_event event_name =
     ffi_call ''robflex_create_event'' (Inr (name_arg event_name)) robflex_create_event"

definition pmu_delete_event :: "py_text \<Rightarrow> 'w pycall" where
  "pmu_delete_event event_name =
     ffi_call ''robflex_delete_event'' (Inr (name_arg event_name)) robflex_delete_event"

definition pmu_apply_event :: "'w platform \<Rightarrow> printer \<Rightarrow> py_text \<Rightarrow> int \<Rightarrow> int \<Rightarrow> 'w pycall" where
  "pmu_apply_event P pr event_name timeout strength =
     ffi_call ''robflex_apply_event'' (both (to_u64 timeout) (to_int strength))
       (\<lambda>(t, n). robflex_apply_event_c P pr (name_arg event_name) t n)"

definition pmu_cancel_event :: "'w platform \<Rightarrow> printer \<Rightarrow> py_text \<Rightarrow> int \<Rightarrow> 'w pycall" where
  "pmu_cancel_event P pr event_name strength =
     ffi_call ''robflex_cancel_event'' (to_int strength)
       (\<lambda>n. robflex_cancel_event_c P pr (name_arg event_name) n)"

subsection \<open>Contexts for events\<close>

definition union_words :: "union_arg \<Rightarrow> u64 list result" where
  \<comment> \<open>\<open>data[0]\<close> of a pointer; \<open>ffi.typeof\<close> refuses what is not a cffi object\<close>
  "union_words data = (case data of
     Union_ptr (Some ws) \<Rightarrow> Inr ws
   | Union_ptr None \<Rightarrow> Inl RuntimeError
   | Union_val ws \<Rightarrow> Inr ws
   | Not_cdata \<Rightarrow> Inl TypeError)"

fun aux_of_words :: "u64 list \<Rightarrow> aux_data option" where
  \<comment> \<open>the library reads seven words\<close>
  "aux_of_words [a, b, c, d, e, f, g] = Some \<lparr>target_lat = a, start_time = b, hist_ncycle = c,
     used_ncycle = d, lat_bias = e, total_latency = f, used_latency = g\<rparr>"
| "aux_of_words _ = None"

definition pmu_attach_context_for_event ::
    "'w platform \<Rightarrow> py_text \<Rightarrow> int \<Rightarrow> union_arg \<Rightarrow> int \<Rightarrow> 'w pycall" where
  "pmu_attach_context_for_event P event_name epolicy data lv =
     ffi_call ''robflex_attach_context_for_event''
       (rbind (union_words data) (\<lambda>ws. both (to_enum epolicy) (both (Inr ws) (to_u32 lv))))
       (\<lambda>(p, ws, l) s. case aux_of_words ws of
          None \<Rightarrow> None
        | Some d \<Rightarrow> robflex_attach_context_for_event P (name_arg event_name) p d l s)"

definition pmu_dettach_context_for_event :: "'w platform \<Rightarrow> py_text \<Rightarrow> 'w pycall" where
  "pmu_dettach_context_for_event P event_name =
     ffi_call ''robflex_dettach_context_for_event'' (Inr (name_arg event_name))
       (robflex_dettach_context_for_event P)"

definition pmu_get_policy_for_event :: "'w platform \<Rightarrow> py_text \<Rightarrow> 'w pycall" where
  "pmu_get_policy_for_event P event_name =
     ffi_call ''robflex_get_policy_for_event'' (Inr (name_arg event_name))
       (robflex_get_policy_for_event P)"

definition of_bool_call :: "(bool \<times> 'w lib) option \<Rightarrow> (int \<times> 'w lib) option" where
  "of_bool_call r = map_option (\<lambda>(b, s). (if b then 1 else 0, s)) r"

definition pmu_test_event :: "'w platform \<Rightarrow> int \<Rightarrow> 'w pycall" where
  \<comment> \<open>\<open>bool(...)\<close>: 1 is \<open>True\<close>\<close>
  "pmu_test_event P event_idx =
     ffi_call ''robflex_test_event'' (to_int event_idx) (\<lambda>i s. of_bool_call (robflex_test_event P i s))"

subsection \<open>The thread's own context\<close>

definition pmu_init_local_context :: "'w platform \<Rightarrow> int \<Rightarrow> 'w pycall" where
  "pmu_init_local_context P mode =
     ffi_call ''robflex_init_local_context'' (to_enum mode) (robflex_init_local_context P)"

definition pmu_set_cycles_for_tick :: "'w platform \<Rightarrow> int \<Rightarrow> 'w pycall" where
  "pmu_set_cycles_for_tick P cycles =
     ffi_call ''robflex_set_cycles_for_tick'' (to_u64 cycles) (robflex_set_cycles_for_tick P)"

definition pmu_clear_time_budget :: "'w platform \<Rightarrow> 'w pycall" where
  "pmu_clear_time_budget P =
     ffi_call ''robflex_clear_time_budget'' (Inr ()) (\<lambda>_. robflex_clear_time_budget P)"

definition pmu_set_time_for_throttle :: "'w platform \<Rightarrow> int \<Rightarrow> 'w pycall" where
  "pmu_set_time_for_throttle P time_ns =
     ffi_call ''robflex_set_time_for_throttle'' (to_u64 time_ns) (robflex_set_time_for_throttle P)"

definition pmu_set_as_immediate :: "'w platform \<Rightarrow> int \<Rightarrow> 'w pycall" where
  "pmu_set_as_immediate P prio =
     ffi_call ''robflex_set_as_immediate'' (to_u64 prio) (robflex_set_as_immediate P)"

definition pmu_set_as_latency_flick :: "'w platform \<Rightarrow> int \<Rightarrow> int \<Rightarrow> 'w pycall" where
  "pmu_set_as_latency_flick P lat_ns base_ns =
     ffi_call ''robflex_set_as_latency_flick'' (both (to_u64 lat_ns) (to_u64 base_ns))
       (\<lambda>(l, b). robflex_set_as_latency_flick P l b)"

definition pmu_add_runcycle :: "'w platform \<Rightarrow> int \<Rightarrow> 'w pycall" where
  "pmu_add_runcycle P runcycle =
     ffi_call ''robflex_add_runcycle'' (to_u64 runcycle) (robflex_add_runcycle P)"

definition pmu_shot_on_latency :: "'w platform \<Rightarrow> 'w pycall" where
  \<comment> \<open>the low half of the structure's first word, if the call were defined\<close>
  "pmu_shot_on_latency P =
     ffi_call ''robflex_shot_on_latency'' (Inr ())
       (\<lambda>_ s. map_option (\<lambda>(ch, s'). (sint (ucast (chain_total_latency ch) :: u32), s'))
          (robflex_shot_on_latency P s))"

definition pmu_switch_context :: "'w platform \<Rightarrow> ctx_arg \<Rightarrow> ctx_arg \<Rightarrow> 'w pycall" where
  "pmu_switch_context P new_context saved_context =
     ffi_call ''robflex_switch_context'' (both (to_ptr new_context) (to_ptr saved_context))
       (\<lambda>(n, v). robflex_switch_context P n v)"

definition pmu_switch_context_block :: "'w platform \<Rightarrow> ctx_arg \<Rightarrow> ctx_arg \<Rightarrow> 'w pycall" where
  "pmu_switch_context_block P new_context saved_context =
     ffi_call ''robflex_switch_context_block'' (both (to_ptr new_context) (to_ptr saved_context))
       (\<lambda>(n, v). robflex_switch_context_block P n v)"

definition busy_num :: "busy_degree \<Rightarrow> int" where
  "busy_num b = (case b of SYSTEM_IDLE \<Rightarrow> 0 | SYSTEM_MODERATE \<Rightarrow> 1 | SYSTEM_HIGH \<Rightarrow> 2)"

definition pmu_system_busy_degree :: "'w platform \<Rightarrow> 'w pycall" where
  "pmu_system_busy_degree P =
     ffi_call ''robflex_system_busy_degree'' (Inr ())
       (\<lambda>_ s. map_option (\<lambda>(b, s'). (busy_num b, s')) (robflex_system_busy_degree P s))"

definition localcontext_alloc :: "u64 list" where
  \<comment> \<open>the words of the zeroed block that \<open>ffi.new\<close> returns\<close>
  "localcontext_alloc = replicate (size_of py_LocalContext div 8) 0"

subsection \<open>The demonstration at the end of the module\<close>

definition workload :: "nat \<Rightarrow> unit" where
  \<comment> \<open>the local \<open>n\<close> is computed and dropped\<close>
  "workload ms = fold (\<lambda>_ u. let n = ((\<lambda>n :: int. n * 43243421 + 89854) ^^ 1000) 1 in u) [0..<ms] ()"

definition seconds_line :: "rat \<Rightarrow> rat \<Rightarrow> rat \<Rightarrow> string" where
  "seconds_line t0 t1 t2 =
     ''Time taken: '' @ py_repr (Fin (rnd64 (t2 - t0))) @ '' seconds, '' @
     py_repr (Fin (rnd64 (t1 - t0))) @ '' seconds''"

definition demo_round :: "'w platform \<Rightarrow> ('w \<Rightarrow> rat \<times> 'w) \<Rightarrow> 'w lib \<Rightarrow> (string \<times> 'w lib) option" where
  \<comment> \<open>one turn of the endless loop; \<open>time\<close> is \<open>time.time\<close>\<close>
  "demo_round P time s0 =
     (let (t0, w) = time (kworld s0); s = s0\<lparr>kworld := w\<rparr>;
          _ = workload 10;
          (t1, w) = time (kworld s); s = s\<lparr>kworld := w\<rparr>
      in do {
        (r, s) \<leftarrow> pmu_shot_on_latency P s;
        (let (t2, w) = time (kworld s)
         in Some (seconds_line t0 t1 t2, s\<lparr>kworld := w\<rparr>)) })"

fun demo_rounds :: "'w platform \<Rightarrow> ('w \<Rightarrow> rat \<times> 'w) \<Rightarrow> nat \<Rightarrow> 'w lib \<Rightarrow> (string list \<times> 'w lib) option" where
  \<comment> \<open>the first \<open>n\<close> turns and the lines they print\<close>
  "demo_rounds P time 0 s = Some ([], s)"
| "demo_rounds P time (Suc n) s = do {
     (l, s) \<leftarrow> demo_round P time s;
     (ls, s) \<leftarrow> demo_rounds P time n s;
     Some (l # ls, s) }"

definition pmu_main :: "'w platform \<Rightarrow> ('w \<Rightarrow> rat \<times> 'w) \<Rightarrow> nat \<Rightarrow> 'w lib \<Rightarrow> (string list \<times> 'w lib) option" where
  "pmu_main P time n s0 = do {
     (r, s) \<leftarrow> pmu_set_as_latency_flick P 20000000 13000000 s0;
     demo_rounds P time n s }"

end
