(* ===== verification/PmuFacts.thy ===== *)
theory PmuFacts
  imports PmuTickApi
begin

text \<open>
  What every wrapper of \<open>src/python/pmu_tick_api.py\<close> does with any arguments of its types: when
  it raises, when the call it makes is defined, and that a defined call returns and leaves
  the thread outside its critical section.
\<close>

subsection \<open>Which declarations agree\<close>


lemma compatible_names [simp]:
  "compatible ''robflex_set_scheduler''" "compatible ''robflex_set_priority''" "compatible ''robflex_log_message''"
  "compatible ''robflex_update_ctrl_time_cost''" "compatible ''robflex_create_event''"
  "compatible ''robflex_delete_event''" "compatible ''robflex_apply_event''" "compatible ''robflex_cancel_event''"
  "compatible ''robflex_dettach_context_for_event''" "compatible ''robflex_get_policy_for_event''"
  "compatible ''robflex_test_event''" "compatible ''robflex_init_local_context''"
  "compatible ''robflex_set_cycles_for_tick''" "compatible ''robflex_clear_time_budget''"
  "compatible ''robflex_set_time_for_throttle''" "compatible ''robflex_set_as_immediate''"
  "compatible ''robflex_set_as_latency_flick''" "compatible ''robflex_add_runcycle''"
  "compatible ''robflex_system_busy_degree''"
  by code_simp+

lemma incompatible_names [simp]:
  "\<not> compatible ''robflex_attach_context_for_event''" "\<not> compatible ''robflex_shot_on_latency''"
  "\<not> compatible ''robflex_switch_context''" "\<not> compatible ''robflex_switch_context_block''"
  by code_simp+

subsection \<open>Any call\<close>

datatype 'a py_op =
    Py_set_scheduler int int int
  | Py_set_priority int int
  | Py_log_message int string "'a list"
  | Py_update_ctrl_time_cost int int
  | Py_create_event py_text
  | Py_delete_event py_text
  | Py_apply_event py_text int int
  | Py_cancel_event py_text int
  | Py_attach_context py_text int union_arg int
  | Py_dettach_context py_text
  | Py_get_policy py_text
  | Py_test_event int
  | Py_init_local_context int
  | Py_set_cycles_for_tick int
  | Py_clear_time_budget
  | Py_set_time_for_throttle int
  | Py_set_as_immediate int
  | Py_set_as_latency_flick int int
  | Py_add_runcycle int
  | Py_shot_on_latency
  | Py_switch_context ctx_arg ctx_arg
  | Py_switch_context_block ctx_arg ctx_arg
  | Py_busy_degree

fun py_exec :: "'w platform \<Rightarrow> printer \<Rightarrow> 'a formatter \<Rightarrow> 'a py_op \<Rightarrow> 'w pycall" where
  "py_exec P pr fm (Py_set_scheduler t p n) = pmu_set_scheduler P pr t p n"
| "py_exec P pr fm (Py_set_priority t n) = pmu_set_priority P pr t n"
| "py_exec P pr fm (Py_log_message t m args) = pmu_log_message P pr fm t m args"
| "py_exec P pr fm (Py_update_ctrl_time_cost t v) = pmu_update_ctrl_time_cost P pr t v"
| "py_exec P pr fm (Py_create_event e) = pmu_create_event e"
| "py_exec P pr fm (Py_delete_event e) = pmu_delete_event e"
| "py_exec P pr fm (Py_apply_event e t n) = pmu_apply_event P pr e t n"
| "py_exec P pr fm (Py_cancel_event e n) = pmu_cancel_event P pr e n"
| "py_exec P pr fm (Py_attach_context e p d l) = pmu_attach_context_for_event P e p d l"
| "py_exec P pr fm (Py_dettach_context e) = pmu_dettach_context_for_event P e"
| "py_exec P pr fm (Py_get_policy e) = pmu_get_policy_for_event P e"
| "py_exec P pr fm (Py_test_event i) = pmu_test_event P i"
| "py_exec P pr fm (Py_init_local_context m) = pmu_init_local_context P m"
| "py_exec P pr fm (Py_set_cycles_for_tick c) = pmu_set_cycles_for_tick P c"
| "py_exec P pr fm Py_clear_time_budget = pmu_clear_time_budget P"
| "py_exec P pr fm (Py_set_time_for_throttle t) = pmu_set_time_for_throttle P t"
| "py_exec P pr fm (Py_set_as_immediate n) = pmu_set_as_immediate P n"
| "py_exec P pr fm (Py_set_as_latency_flick l b) = pmu_set_as_latency_flick P l b"
| "py_exec P pr fm (Py_add_runcycle n) = pmu_add_runcycle P n"
| "py_exec P pr fm Py_shot_on_latency = pmu_shot_on_latency P"
| "py_exec P pr fm (Py_switch_context n v) = pmu_switch_context P n v"
| "py_exec P pr fm (Py_switch_context_block n v) = pmu_switch_context_block P n v"
| "py_exec P pr fm Py_busy_degree = pmu_system_busy_degree P"

definition range_error :: "bool \<Rightarrow> exn option" where
  "range_error fits = (if fits then None else Some OverflowError)"

definition log_text :: "'a formatter \<Rightarrow> string \<Rightarrow> 'a list \<Rightarrow> string result" where
  "log_text fm m args = (if args = [] then Inr m else percent fm m args)"

fun py_raises :: "'a formatter \<Rightarrow> 'a py_op \<Rightarrow> exn option" where
  "py_raises fm (Py_set_scheduler t p n) =
     range_error (fits_signed 32 t \<and> fits_signed 32 p \<and> fits_signed 32 n)"
| "py_raises fm (Py_set_priority t n) = range_error (fits_signed 32 t \<and> fits_signed 32 n)"
| "py_raises fm (Py_log_message t m args) =
     (case log_text fm m args of Inl e \<Rightarrow> Some e | Inr _ \<Rightarrow> range_error (fits_signed 32 t))"
| "py_raises fm (Py_update_ctrl_time_cost t v) = range_error (fits_signed 32 t \<and> fits_signed 32 v)"
| "py_raises fm (Py_apply_event e t n) = range_error (fits_unsigned 64 t \<and> fits_signed 32 n)"
| "py_raises fm (Py_cancel_event e n) = range_error (fits_signed 32 n)"
| "py_raises fm (Py_attach_context e p d l) =
     (case d of
        Not_cdata \<Rightarrow> Some TypeError
      | Union_ptr None \<Rightarrow> Some RuntimeError
      | _ \<Rightarrow> range_error (fits_unsigned 32 p \<and> fits_unsigned 32 l))"
| "py_raises fm (Py_test_event i) = range_error (fits_signed 32 i)"
| "py_raises fm (Py_init_local_context m) = range_error (fits_unsigned 32 m)"
| "py_raises fm (Py_set_cycles_for_tick c) = range_error (fits_unsigned 64 c)"
| "py_raises fm (Py_set_time_for_throttle t) = range_error (fits_unsigned 64 t)"
| "py_raises fm (Py_set_as_immediate n) = range_error (fits_unsigned 64 n)"
| "py_raises fm (Py_set_as_latency_flick l b) = range_error (fits_unsigned 64 l \<and> fits_unsigned 64 b)"
| "py_raises fm (Py_add_runcycle n) = range_error (fits_unsigned 64 n)"
| "py_raises fm (Py_switch_context n v) =
     (if n = NoContext \<or> v = NoContext then Some TypeError else None)"
| "py_raises fm (Py_switch_context_block n v) =
     (if n = NoContext \<or> v = NoContext then Some TypeError else None)"
| "py_raises fm _ = None"

fun py_defined :: "'a formatter \<Rightarrow> 'a py_op \<Rightarrow> bool" where
  \<comment> \<open>whether the C call that a wrapper makes is defined\<close>
  "py_defined fm (Py_log_message t m args) \<longleftrightarrow>
     (case log_text fm m args of Inl _ \<Rightarrow> True | Inr msg \<Rightarrow> c_format (c_chars (utf8 msg)) [] \<noteq> None)"
| "py_defined fm (Py_test_event i) \<longleftrightarrow> - 1 \<le> i \<and> i < MAX_EVENT_NUM"
| "py_defined fm (Py_attach_context e p d l) \<longleftrightarrow> False"
| "py_defined fm Py_shot_on_latency \<longleftrightarrow> False"
| "py_defined fm (Py_switch_context n v) \<longleftrightarrow> False"
| "py_defined fm (Py_switch_context_block n v) \<longleftrightarrow> False"
| "py_defined fm _ \<longleftrightarrow> True"

definition py_outcome :: "exn option \<Rightarrow> 'w lib \<Rightarrow> (int result \<times> 'w lib) option \<Rightarrow> bool" where
  "py_outcome raises s res \<longleftrightarrow> (\<exists>r s'. res = Some (r, s') \<and> calm s' \<and>
     (case raises of Some e \<Rightarrow> r = Inl e \<and> s' = s | None \<Rightarrow> (\<exists>n. r = Inr n)))"

definition c_runs :: "(int \<times> 'w lib) option \<Rightarrow> bool" where
  "c_runs r \<longleftrightarrow> (\<exists>n s'. r = Some (n, s') \<and> calm s')"

lemma ffi_outcome:
  assumes "calm s" "compatible f" "\<And>a. args = Inr a \<Longrightarrow> c_runs (g a s)"
    and "raises = (case args of Inl e \<Rightarrow> Some e | Inr _ \<Rightarrow> None)"
  shows "py_outcome raises s (ffi_call f args g s)"
  using assms by (cases args) (fastforce simp: ffi_call_def py_outcome_def c_runs_def)+

lemma c_runs_quiet: "quiet_call s r \<Longrightarrow> c_runs r"
  by (auto simp: quiet_call_def c_runs_def)

lemma c_runs_safe: "safe_step s (map_option snd r) \<Longrightarrow> c_runs r"
  by (cases r) (auto simp: safe_step_def c_runs_def)

lemmas arg_defs = both_def to_int_def to_enum_def to_u32_def to_u64_def to_ptr_def range_error_def

lemma api_calls_run:
  assumes "calm s"
  shows "c_runs (robflex_init_local_context P m s)" "c_runs (robflex_set_cycles_for_tick P c s)"
    "c_runs (robflex_clear_time_budget P s)" "c_runs (robflex_set_time_for_throttle P c s)"
    "c_runs (robflex_set_as_immediate P c s)" "c_runs (robflex_set_as_latency_flick P c b s)"
    "c_runs (robflex_add_runcycle P c s)" "c_runs (robflex_dettach_context_for_event P e s)"
    "c_runs (robflex_get_policy_for_event P e s)"
    "- 1 \<le> i \<Longrightarrow> i < MAX_EVENT_NUM \<Longrightarrow> c_runs (of_bool_call (robflex_test_event P i s))"
    "c_runs (map_option (\<lambda>(b, s'). (busy_num b, s')) (robflex_system_busy_degree P s))"
    "c_runs (robflex_create_event e s)" "c_runs (robflex_delete_event e s)"
proof -
  note e = exec_safe [OF assms]
  have t: "c_runs (map_option (\<lambda>(b, s'). (h b, s')) r)" if "safe_step s (map_option snd r)"
    for h :: "'z \<Rightarrow> int" and r
    using that by (cases r) (auto simp: safe_step_def c_runs_def)
  show "c_runs (robflex_init_local_context P m s)" "c_runs (robflex_set_cycles_for_tick P c s)"
    "c_runs (robflex_clear_time_budget P s)" "c_runs (robflex_set_time_for_throttle P c s)"
    "c_runs (robflex_set_as_immediate P c s)" "c_runs (robflex_set_as_latency_flick P c b s)"
    "c_runs (robflex_add_runcycle P c s)" "c_runs (robflex_dettach_context_for_event P e s)"
    "c_runs (robflex_get_policy_for_event P e s)"
    using e [of "Init_local_context m" P] e [of "Set_cycles_for_tick c" P] e [of Clear_time_budget P]
      e [of "Set_time_for_throttle c" P] e [of "Set_as_immediate c" P] e [of "Set_as_latency_flick c b" P]
      e [of "Add_runcycle c" P] e [of "Dettach_context e" P] e [of "Get_policy e" P]
    by (simp_all add: c_runs_safe)
  show "c_runs (of_bool_call (robflex_test_event P i s))" if "- 1 \<le> i" "i < MAX_EVENT_NUM"
    unfolding of_bool_call_def using e [of "Test_event i" P] that by (intro t) simp
  show "c_runs (map_option (\<lambda>(b, s'). (busy_num b, s')) (robflex_system_busy_degree P s))"
    using e [of Busy_degree P] by (intro t) simp
  show "c_runs (robflex_create_event e s)" "c_runs (robflex_delete_event e s)"
    using assms by (simp_all add: c_runs_def robflex_create_event_def robflex_delete_event_def)
qed

lemmas pmu_defs = pmu_set_scheduler_def pmu_set_priority_def pmu_update_ctrl_time_cost_def
  pmu_create_event_def pmu_delete_event_def pmu_apply_event_def pmu_cancel_event_def
  pmu_dettach_context_for_event_def pmu_get_policy_for_event_def pmu_init_local_context_def
  pmu_set_cycles_for_tick_def pmu_clear_time_budget_def pmu_set_time_for_throttle_def
  pmu_set_as_immediate_def pmu_set_as_latency_flick_def pmu_add_runcycle_def pmu_system_busy_degree_def

lemma log_call:
  assumes "calm s" "c_format (c_chars (utf8 msg)) [] \<noteq> None"
  shows "c_runs (robflex_log_message_c P pr t (c_chars (utf8 msg)) [] s)"
  using assms commands_calm(6) c_runs_quiet by blast

lemma log_outcome:
  assumes "calm s" "py_raises fm (Py_log_message t m args) \<noteq> None \<or> py_defined fm (Py_log_message t m args)"
  shows "py_outcome (py_raises fm (Py_log_message t m args)) s (pmu_log_message P pr fm t m args s)"
proof (cases "log_text fm m args")
  case (Inl e)
  then show ?thesis using assms(1) by (simp add: pmu_log_message_def py_outcome_def log_text_def)
next
  case (Inr msg)
  have r: "py_raises fm (Py_log_message t m args) = (case to_int t of Inl e \<Rightarrow> Some e | Inr _ \<Rightarrow> None)"
    using Inr by (simp add: to_int_def range_error_def)
  have "pmu_log_message P pr fm t m args s =
      ffi_call ''robflex_log_message'' (to_int t) (\<lambda>t. robflex_log_message_c P pr t (c_chars (utf8 msg)) []) s"
    using Inr by (simp add: pmu_log_message_def log_text_def)
  moreover have "c_runs (robflex_log_message_c P pr t' (c_chars (utf8 msg)) [] s)" if "to_int t = Inr t'" for t'
    using assms Inr that by (intro log_call) (auto simp: range_error_def to_int_def split: if_splits)
  ultimately show ?thesis using r ffi_outcome [OF assms(1) compatible_names(3)] by metis
qed

lemma attach_switch_outcome:
  assumes "calm s" "py_raises fm x \<noteq> None"
  shows "x = Py_attach_context e p d l \<Longrightarrow> py_outcome (py_raises fm x) s (py_exec P pr fm x s)"
    "x = Py_switch_context n v \<Longrightarrow> py_outcome (py_raises fm x) s (py_exec P pr fm x s)"
    "x = Py_switch_context_block n v \<Longrightarrow> py_outcome (py_raises fm x) s (py_exec P pr fm x s)"
  using assms by (auto simp: py_outcome_def pmu_attach_context_for_event_def pmu_switch_context_def
      pmu_switch_context_block_def ffi_call_def union_words_def arg_defs
      split: union_arg.splits option.splits ctx_arg.splits if_splits)

lemma test_outcome:
  assumes "calm s" "py_raises fm (Py_test_event i) \<noteq> None \<or> py_defined fm (Py_test_event i)"
  shows "py_outcome (py_raises fm (Py_test_event i)) s (pmu_test_event P i s)"
  unfolding pmu_test_event_def using assms
  by (intro ffi_outcome) (auto simp: to_int_def range_error_def split: if_splits intro: api_calls_run(10))

lemma daemon_outcomes:
  assumes "calm s"
  shows "py_outcome (py_raises fm (Py_set_scheduler t p n)) s (pmu_set_scheduler P pr t p n s)"
    "py_outcome (py_raises fm (Py_set_priority t n)) s (pmu_set_priority P pr t n s)"
    "py_outcome (py_raises fm (Py_update_ctrl_time_cost t v)) s (pmu_update_ctrl_time_cost P pr t v s)"
    "py_outcome (py_raises fm (Py_apply_event e to n)) s (pmu_apply_event P pr e to n s)"
    "py_outcome (py_raises fm (Py_cancel_event e n)) s (pmu_cancel_event P pr e n s)"
  unfolding pmu_defs
  by (rule ffi_outcome [OF assms]; simp add: commands_calm(1-5) [OF assms, THEN c_runs_quiet] arg_defs case_prod_beta)+

lemma local_outcomes:
  assumes "calm s"
  shows "py_outcome (py_raises fm (Py_init_local_context m)) s (pmu_init_local_context P m s)"
    "py_outcome (py_raises fm (Py_set_cycles_for_tick c)) s (pmu_set_cycles_for_tick P c s)"
    "py_outcome (py_raises fm Py_clear_time_budget) s (pmu_clear_time_budget P s)"
    "py_outcome (py_raises fm (Py_set_time_for_throttle c)) s (pmu_set_time_for_throttle P c s)"
    "py_outcome (py_raises fm (Py_set_as_immediate c)) s (pmu_set_as_immediate P c s)"
    "py_outcome (py_raises fm (Py_set_as_latency_flick c b)) s (pmu_set_as_latency_flick P c b s)"
    "py_outcome (py_raises fm (Py_add_runcycle c)) s (pmu_add_runcycle P c s)"
    "py_outcome (py_raises fm Py_busy_degree) s (pmu_system_busy_degree P s)"
    "py_outcome (py_raises fm (Py_create_event e)) s (pmu_create_event e s)"
    "py_outcome (py_raises fm (Py_delete_event e)) s (pmu_delete_event e s)"
    "py_outcome (py_raises fm (Py_dettach_context e)) s (pmu_dettach_context_for_event P e s)"
    "py_outcome (py_raises fm (Py_get_policy e)) s (pmu_get_policy_for_event P e s)"
  unfolding pmu_defs
  by (rule ffi_outcome [OF assms]; simp add: api_calls_run [OF assms, unfolded split_def] arg_defs split_def)+

lemma py_exec_outcome:
  assumes "calm s" "py_raises fm x \<noteq> None \<or> py_defined fm x"
  shows "py_outcome (py_raises fm x) s (py_exec P pr fm x s)"
proof (cases x)
  case (Py_log_message t m args)
  then show ?thesis using log_outcome [OF assms(1), of fm t m args] assms(2) by simp
next
  case (Py_test_event i)
  then show ?thesis using test_outcome [OF assms(1), of fm i] assms(2) by simp
next
  case (Py_attach_context e p d l)
  then show ?thesis using attach_switch_outcome(1) [OF assms(1), of fm x] assms(2) by simp
next
  case (Py_switch_context n v)
  then show ?thesis using attach_switch_outcome(2) [OF assms(1), of fm x] assms(2) by simp
next
  case (Py_switch_context_block n v)
  then show ?thesis using attach_switch_outcome(3) [OF assms(1), of fm x] assms(2) by simp
next
  case Py_shot_on_latency
  then show ?thesis using assms(2) by simp
qed (simp_all only: py_exec.simps daemon_outcomes [OF assms(1)] local_outcomes [OF assms(1)])

lemma py_exec_undefined:
  assumes "calm s" "py_raises fm x = None" "\<not> py_defined fm x"
  shows "py_exec P pr fm x s = None"
proof (cases x)
  case (Py_log_message t m args)
  then obtain msg where "log_text fm m args = Inr msg" "c_format (c_chars (utf8 msg)) [] = None"
    using assms(3) by (auto split: sum.splits)
  then show ?thesis using Py_log_message assms(2)
    by (simp add: pmu_log_message_def log_text_def ffi_call_def arg_defs robflex_log_message_c_def vsnprintf_def
        split: if_splits)
next
  case (Py_test_event i)
  obtain u where "deliver P s = Some u" using deliver_calm [OF assms(1)] .
  then show ?thesis using Py_test_event assms(2,3)
    by (auto simp: pmu_test_event_def ffi_call_def arg_defs of_bool_call_def robflex_test_event_def
        test_event_def MAX_EVENT_NUM_def split: if_splits)
qed (use assms(2,3) in \<open>auto simp: pmu_attach_context_for_event_def pmu_switch_context_def
      pmu_switch_context_block_def pmu_shot_on_latency_def ffi_call_def union_words_def arg_defs
      split: union_arg.splits option.splits ctx_arg.splits if_splits\<close>)

end
