(* ===== verification/PmuCalls.thy ===== *)
theory PmuCalls
  imports PmuFacts
begin

text \<open>
  The Python binding as its callers see it: the outcome of every wrapper, scripts of calls,
  what becomes of a log message, and which library is loaded.
\<close>

subsection \<open>Wrappers\<close>


text \<open>
  C3: what a wrapper does is decided by its arguments. From a calm state, a wrapper whose
  arguments do not convert raises (an integer out of range \<open>OverflowError\<close>, \<open>None\<close> for a context
  \<open>TypeError\<close>) and changes nothing; otherwise, when the C call is defined, it returns an
  integer and the thread is calm again under any schedule of ticks; and otherwise the call is
  undefined. Undefined are every call through a disagreeing declaration, an event number that
  is out of range, and a log text with a bare percent sign.
\<close>

theorem wrapper_outcome:
  assumes "calm s"
  shows "(py_raises fm x \<noteq> None \<longrightarrow> py_exec P pr fm x s = Some (Inl (the (py_raises fm x)), s)) \<and>
    (py_raises fm x = None \<and> py_defined fm x \<longrightarrow>
       (\<exists>n s'. py_exec P pr fm x s = Some (Inr n, s') \<and> calm s')) \<and>
    (py_raises fm x = None \<and> \<not> py_defined fm x \<longrightarrow> py_exec P pr fm x s = None)"
  using py_exec_outcome [OF assms, of fm x P pr] py_exec_undefined [OF assms, of fm x P pr]
  by (cases "py_raises fm x") (auto simp: py_outcome_def)

theorem wrapper_outcome_witness:
  "py_exec example_platform print_members (\<lparr>percent = \<lambda>m xs. Inl TypeError, brace = \<lambda>m xs. Inr m\<rparr> :: nat formatter)
     (Py_switch_context (Context 64) NoContext) busy_lib = Some (Inl TypeError, busy_lib)"
  using wrapper_outcome [OF busy_calm(1), of _ "Py_switch_context (Context 64) NoContext"] by simp

fun run_py :: "'w platform \<Rightarrow> printer \<Rightarrow> 'a formatter \<Rightarrow> 'a py_op list \<Rightarrow> 'w lib \<Rightarrow>
    (exn option list \<times> 'w lib) option" where
  \<comment> \<open>a caller that catches what a call raises; the exceptions are recorded\<close>
  "run_py P pr fm [] s = Some ([], s)"
| "run_py P pr fm (x # xs) s = do {
     (r, s1) \<leftarrow> py_exec P pr fm x s;
     (rs, s2) \<leftarrow> run_py P pr fm xs s1;
     Some ((case r of Inl e \<Rightarrow> Some e | Inr _ \<Rightarrow> None) # rs, s2) }"

text \<open>
  C18: any script of defined calls runs. A sequence of wrapper calls each of which raises or
  makes a defined call runs to the end under any schedule of ticks, the calls that raise are
  those whose arguments do not convert, and the thread is calm at the end.
\<close>

theorem python_scripts_run:
  assumes "calm s" and "list_all (\<lambda>x. py_raises fm x \<noteq> None \<or> py_defined fm x) xs"
  shows "\<exists>s'. run_py P pr fm xs s = Some (map (py_raises fm) xs, s') \<and> calm s'"
  using assms
proof (induction xs arbitrary: s)
  case (Cons x xs)
  then have "py_outcome (py_raises fm x) s (py_exec P pr fm x s)" by (intro py_exec_outcome) simp_all
  then obtain r t where r: "py_exec P pr fm x s = Some (r, t)" "calm t"
    "(case r of Inl e \<Rightarrow> Some e | Inr _ \<Rightarrow> None) = py_raises fm x"
    by (auto simp: py_outcome_def split: option.splits)
  then show ?case using Cons.IH [of t] Cons.prems by auto
qed simp

theorem python_scripts_run_witness:
  "\<exists>s'. run_py example_platform print_members
      (\<lparr>percent = \<lambda>m xs. Inl TypeError, brace = \<lambda>m xs. Inr m\<rparr> :: nat formatter)
      [Py_init_local_context 0, Py_set_time_for_throttle (- 1), Py_set_scheduler 0 1 10,
       Py_log_message 0 ''hello'' [], Py_test_event 3, Py_clear_time_budget] busy_lib =
    Some ([None, Some OverflowError, None, None, None, None], s') \<and> calm s'"
  using python_scripts_run [OF busy_calm(1), of "\<lparr>percent = \<lambda>m xs. Inl TypeError, brace = \<lambda>m xs. Inr m\<rparr>"
      "[Py_init_local_context 0, Py_set_time_for_throttle (- 1), Py_set_scheduler 0 1 10,
       Py_log_message 0 ''hello'' [], Py_test_event 3, Py_clear_time_budget]" example_platform print_members]
  by (simp add: range_error_def fits_signed_def fits_unsigned_def log_text_def MAX_EVENT_NUM_def
      c_chars_def utf8_def code_def)

subsection \<open>Log messages\<close>

lemma c_format_plain: "CHR ''%'' \<notin> set m \<Longrightarrow> c_format m args = Some m"
  by (induction m args rule: c_format.induct) auto

lemma c_format_bare:
  "CHR ''%'' \<notin> set a \<Longrightarrow> c \<noteq> CHR ''%'' \<Longrightarrow> c_format (a @ CHR ''%'' # c # b) [] = None"
  by (induction a) auto

text \<open>
  C36: the message of a log call is a C format string. A message of printable ASCII without a
  percent sign reaches the daemon's request as it is, cut to 511 characters; one in which
  the first percent sign is followed by another character is undefined behaviour in the C library, although
  the wrapper is documented to be safe.
\<close>

theorem log_message_is_a_format:
  assumes "fits_signed 32 tid" and "list_all is_ascii m"
  shows "(CHR ''%'' \<notin> set m \<longrightarrow> pmu_log_message P pr fm tid m [] s =
      map_option (\<lambda>(r, s'). (Inr r, s')) (print_and_send P pr
        [(''cmd'', C_string (Some ''log_message'')), (''tid'', c_int (tid_or_own P tid s)),
         (''message'', C_string (Some (take 511 m)))] s)) \<and>
    (\<forall>a c b. m = a @ CHR ''%'' # c # b \<and> CHR ''%'' \<notin> set a \<and> c \<noteq> CHR ''%'' \<longrightarrow>
       pmu_log_message P pr fm tid m [] s = None)"
proof -
  have "code c = 0 \<Longrightarrow> \<not> is_ascii c" for c by (simp add: is_ascii_def)
  moreover have "code (CHR 0x00) = 0" by (simp add: code_def)
  ultimately have "CHR 0x00 \<notin> set m" using assms(2) by (metis list_all_iff)
  then have m: "c_chars (utf8 m) = m"
    using utf8_ascii [OF assms(2)] by (auto simp: c_chars_def takeWhile_eq_all_conv)
  have r: "pmu_log_message P pr fm tid m [] s =
      map_option (\<lambda>(r, s'). (Inr r, s')) (robflex_log_message_c P pr tid m [] s)"
    using assms(1) by (simp add: pmu_log_message_def ffi_call_def to_int_def m)
  show ?thesis unfolding r
    by (auto simp: robflex_log_message_c_def vsnprintf_def c_format_plain c_format_bare C_MAX_LOG_SIZE_def)
qed

theorem log_message_is_a_format_witness:
  "pmu_log_message example_platform print_members
     (\<lparr>percent = \<lambda>m xs. Inl TypeError, brace = \<lambda>m xs. Inr m\<rparr> :: nat formatter) 0 ''90% done'' [] busy_lib = None"
proof -
  have m: "list_all is_ascii ''90% done''" by code_simp
  have f: "fits_signed 32 0" by (simp add: fits_signed_def)
  have e: "''90% done'' = ''90'' @ CHR ''%'' # CHR '' '' # ''done'' \<and> CHR ''%'' \<notin> set ''90'' \<and> CHR '' '' \<noteq> CHR ''%''"
    by simp
  show ?thesis by (rule log_message_is_a_format [OF f m, THEN conjunct2, rule_format, OF e])
qed

subsection \<open>Loading\<close>

lemma load_lib_find:
  "load_lib dlopen ps = (case find (\<lambda>p. dlopen p \<noteq> Inl OSError) (filter (\<lambda>p. p \<noteq> []) (List.map_filter id ps)) of
     None \<Rightarrow> Inl OSError | Some p \<Rightarrow> dlopen p)"
  by (induction ps) (auto simp: map_filter_simps split: option.splits sum.splits)

lemma dirname_file:
  assumes "d \<noteq> []" "last d \<noteq> CHR ''/''" "CHR ''/'' \<notin> set n"
  shows "dirname (d @ CHR ''/'' # n) = d"
proof -
  let ?P = "\<lambda>c. c \<noteq> CHR ''/''"
  have "dropWhile ?P (rev (d @ CHR ''/'' # n)) = CHR ''/'' # rev d"
    using assms(3) by (simp, subst dropWhile_append2) auto
  moreover have "dropWhile (\<lambda>c. c = CHR ''/'') (rev d) = rev d"
    using assms(1,2) by (cases "rev d") (simp_all add: last_conv_nth [symmetric] hd_rev [symmetric])
  moreover have "\<not> list_all (\<lambda>c. c = CHR ''/'') d"
    unfolding list_all_iff using bspec [OF _ last_in_set [OF assms(1)]] assms(2) by blast
  ultimately show ?thesis by (simp add: dirname_def rstrip_chars_def rstrip_by_def Let_def)
qed

text \<open>
  C37: the library is the first candidate that loads. The module at \<open>d/n\<close> tries \<open>ROBFLEX_LIB\<close> when
  it is set and not empty, then \<open>librobonix.so\<close>, then \<open>d/../../build/librobonix.so\<close>; it gets what
  the first of them that does not raise \<open>OSError\<close> gives, and raises \<open>OSError\<close> when all do.
\<close>

theorem load_lib_outcome:
  assumes "d \<noteq> []" "last d \<noteq> CHR ''/''" "CHR ''/'' \<notin> set n"
  shows "load_lib dlopen (lib_candidates environ (d @ CHR ''/'' # n)) =
    (case find (\<lambda>p. dlopen p \<noteq> Inl OSError)
       (filter (\<lambda>p. p \<noteq> []) (case environ ''ROBFLEX_LIB'' of None \<Rightarrow> [] | Some p \<Rightarrow> [p]) @
        [''librobonix.so'', d @ ''/../../build/librobonix.so'']) of
     None \<Rightarrow> Inl OSError | Some p \<Rightarrow> dlopen p)"
  using assms
  by (simp add: load_lib_find lib_candidates_def dirname_file path_join_def map_filter_simps
      split: option.split)

theorem load_lib_outcome_witness:
  "load_lib (\<lambda>p. if length p < 20 then Inl OSError else Inr (length p))
     (lib_candidates (\<lambda>_. None) ''/opt/src/python/pmu_tick_api.py'') = Inr 41"
  using load_lib_outcome [of "''/opt/src/python''" "''pmu_tick_api.py''"
      "\<lambda>p. if length p < 20 then Inl OSError else Inr (length p)" "\<lambda>_. None"]
  by simp

subsection \<open>The module's own demonstration\<close>

text \<open>
  The demonstration of the module does not work. Its first call succeeds and makes the
  thread latency-oriented, but the first turn of its loop already calls
  \<open>robflex_shot_on_latency\<close> through a declaration that disagrees with the library: the run
  is undefined as soon as one turn is made, whatever the clocks say.
\<close>

theorem demonstration_undefined:
  assumes "calm s"
  shows "\<exists>s'. pmu_main P time 0 s = Some ([], s') \<and> calm s' \<and> pmu_main P time (Suc n) s = None"
proof -
  have "py_outcome (py_raises fm (Py_set_as_latency_flick 20000000 13000000)) s
      (pmu_set_as_latency_flick P 20000000 13000000 s)" for fm :: "nat formatter"
    by (rule local_outcomes [OF assms])
  then obtain r s' where "pmu_set_as_latency_flick P 20000000 13000000 s = Some (Inr r, s')" "calm s'"
    by (auto simp: py_outcome_def range_error_def fits_unsigned_def)
  moreover have "demo_round P time u = None" for u
    by (simp add: demo_round_def pmu_shot_on_latency_def ffi_call_def case_prod_beta Let_def)
  ultimately show ?thesis by (simp add: pmu_main_def)
qed

theorem demonstration_undefined_witness:
  "pmu_main example_platform (\<lambda>w. (1, w)) 1 latency_lib = None"
  using demonstration_undefined [OF latency_lib_facts(1), of example_platform "\<lambda>w. (1, w)" 0] by auto

end
