(* ===== verification/EventControl.thy ===== *)
theory EventControl
  imports RobflexClient
begin

text \<open>
  The interactive event tool (\<open>benchmark/robflex_event_change/robflex_event_change.py\<close>): it
  reads commands from standard input, one per line, and calls the client. The state is
  the client's; what the tool prints is reported as a list of replies. While the tool waits
  for a line the user may interrupt it instead (\<open>KeyboardInterrupt\<close>).
\<close>

definition EVENT_NAMES :: "string list" where
  "EVENT_NAMES =
     [''obstacle_dense'', ''pedestrian_dense'', ''high_speed'', ''cruise_normal'',
      ''stationary'', ''interaction'', ''awaiting_command'', ''emergency_stop'']"

datatype reply =
    Usage
  | Usage_apply
  | Usage_cancel
  | Unknown_command
  | Applied int
  | Cancelled int
  | Interrupted \<comment> \<open>what the handler of \<open>KeyboardInterrupt\<close> prints\<close>

datatype input =
    Line string
  | Interrupt \<comment> \<open>the interrupt of the user, where a line is waited for\<close>

definition parse_int :: "string \<Rightarrow> int \<Rightarrow> int" where
  "parse_int s dflt = (case py_int s of Some n \<Rightarrow> n | None \<Rightarrow> dflt)"

text \<open>
  The result of a line: whether to go on reading, what is reported (the printed text, by
  its kind), and the client after the call.
\<close>

definition handle_line ::
    "'w os \<Rightarrow> string \<Rightarrow> 'w client \<Rightarrow> bool \<times> reply option \<times> 'w client" where
  "handle_line os line c = (case split_ws line of
     [] \<Rightarrow> (True, None, c)
   | p0 # args \<Rightarrow>
       (let cmd = py_lower p0
        in if cmd \<in> set [''quit'', ''exit'', ''q''] then (False, None, c)
           else if cmd = ''help'' \<or> cmd = ''?'' then (True, Some Usage, c)
           else if cmd = ''apply'' then
             (case args of
                [] \<Rightarrow> (True, Some Usage_apply, c)
              | name # rest \<Rightarrow>
                  (let (timeout, strength) = (case rest of
                         [] \<Rightarrow> (0, 1)
                       | [t] \<Rightarrow> (parse_int t 0, 1)
                       | t # s # _ \<Rightarrow> (parse_int t 0, parse_int s 1));
                       (ret, c') = robflex_apply_event os name timeout strength c
                   in (True, Some (Applied ret), c')))
           else if cmd = ''cancel'' then
             (case args of
                [] \<Rightarrow> (True, Some Usage_cancel, c)
              | name # rest \<Rightarrow>
                  (let strength = (case rest of [] \<Rightarrow> 1 | s # _ \<Rightarrow> parse_int s 1);
                       (ret, c') = robflex_cancel_event os name strength c
                   in (True, Some (Cancelled ret), c')))
           else (True, Some Unknown_command, c)))"

fun read_lines :: "'w os \<Rightarrow> input list \<Rightarrow> 'w client \<Rightarrow> reply list \<times> 'w client" where
  \<comment> \<open>the \<open>for raw in sys.stdin\<close> loop with the \<open>except KeyboardInterrupt\<close> around it\<close>
  "read_lines os [] c = ([], c)"
| "read_lines os (Interrupt # raws) c = ([Interrupted], c)"
| "read_lines os (Line raw # raws) c =
     (let line = py_strip raw
      in if startswith line ''#'' then read_lines os raws c
         else case handle_line os line c of
                (go_on, r, c') \<Rightarrow>
                  (let rs = (case r of None \<Rightarrow> [] | Some x \<Rightarrow> [x])
                   in if \<not> go_on then (rs, c')
                      else let (rs', c'') = read_lines os raws c' in (rs @ rs', c'')))"

definition event_main :: "'w os \<Rightarrow> input list \<Rightarrow> 'w client \<Rightarrow> int \<times> reply list \<times> 'w client" where
  \<comment> \<open>\<open>main\<close>: the \<open>finally\<close> clause always cleans up\<close>
  "event_main os stdin c =
     (let (rs, c') = read_lines os stdin c in (0, rs, robflex_cleanup os c'))"

end
