(* ===== verification/Daemon.thy ===== *)
theory Daemon
  imports SharedData
begin

text \<open>
  The daemon's request handling (\<open>src/server.c\<close>). The JSON library cJSON is a parameter,
  a record of the accessors the handlers use; the scheduling system calls are a parameter
  too, and every call made is recorded. Dereferencing a NULL item, or passing a NULL
  \<open>valuestring\<close> to \<open>strcmp\<close>, is undefined behaviour: the model's result is then \<open>None\<close>.
\<close>

record 'j cjson =
  cj_parse :: "string \<Rightarrow> 'j option"
  cj_get :: "'j \<Rightarrow> string \<Rightarrow> 'j option"
  cj_int :: "'j \<Rightarrow> int"
  cj_str :: "'j \<Rightarrow> string option"

datatype syscall =
    Sys_sched_setscheduler int int int \<comment> \<open>tid, policy, \<open>sched_priority\<close>\<close>
  | Sys_setpriority int int
  | Sys_sigqueue int int
  | Log_line int string

record daemon =
  ptr_shmem :: "system_data option"
  calls :: "syscall list"

type_synonym kernel = "syscall list \<Rightarrow> syscall \<Rightarrow> int"

definition do_call :: "kernel \<Rightarrow> syscall \<Rightarrow> daemon \<Rightarrow> int \<times> daemon" where
  "do_call k s d = (k (calls d) s, d\<lparr>calls := calls d @ [s]\<rparr>)"

definition SCHED_OTHER :: int where
  "SCHED_OTHER = 0"

subsection \<open>Handlers\<close>

definition do_sched_setscheduler ::
    "'j cjson \<Rightarrow> kernel \<Rightarrow> 'j \<Rightarrow> daemon \<Rightarrow> (int \<times> daemon) option" where
  "do_sched_setscheduler cj k root d =
     (case (cj_get cj root ''tid'', cj_get cj root ''policy'', cj_get cj root ''priority'') of
        (Some tid, Some policy, Some priority) \<Rightarrow>
          (if cj_int cj policy = SCHED_OTHER then
             (let (r, d1) = do_call k (Sys_sched_setscheduler (cj_int cj tid) SCHED_OTHER 0) d
              in if r < 0 then Some (- 1, d1)
                 else let (r2, d2) = do_call k (Sys_setpriority (cj_int cj tid) (cj_int cj priority)) d1
                      in if r2 < 0 then Some (- 1, d2) else Some (0, d2))
           else
             Some (do_call k
               (Sys_sched_setscheduler (cj_int cj tid) (cj_int cj policy) (cj_int cj priority)) d))
      | _ \<Rightarrow> Some (- 1, d))"

definition do_set_priority ::
    "'j cjson \<Rightarrow> kernel \<Rightarrow> 'j \<Rightarrow> daemon \<Rightarrow> (int \<times> daemon) option" where
  "do_set_priority cj k root d =
     (case (cj_get cj root ''tid'', cj_get cj root ''priority'') of
        (Some tid, Some priority) \<Rightarrow>
          Some (do_call k (Sys_setpriority (cj_int cj tid) (cj_int cj priority)) d)
      | _ \<Rightarrow> Some (- 1, d))"

definition do_log_message ::
    "'j cjson \<Rightarrow> kernel \<Rightarrow> 'j \<Rightarrow> daemon \<Rightarrow> (int \<times> daemon) option" where
  "do_log_message cj k root d =
     (case (cj_get cj root ''tid'', cj_get cj root ''message'') of
        (Some tid, Some message) \<Rightarrow>
          (case cj_str cj message of
             None \<Rightarrow> None
           | Some s \<Rightarrow> Some (0, d\<lparr>calls := calls d @ [Log_line (cj_int cj tid) s]\<rparr>))
      | _ \<Rightarrow> Some (- 1, d))"

definition do_update_ctrl_time_cost ::
    "'j cjson \<Rightarrow> kernel \<Rightarrow> 'j \<Rightarrow> daemon \<Rightarrow> (int \<times> daemon) option" where
  "do_update_ctrl_time_cost cj k root d =
     (case (cj_get cj root ''tid'', cj_get cj root ''value_in_us'') of
        (Some tid, Some value_in_us) \<Rightarrow>
          Some (do_call k (Sys_sigqueue (cj_int cj tid) (cj_int cj value_in_us)) d)
      | _ \<Rightarrow> Some (- 1, d))"

definition do_apply_event ::
    "'j cjson \<Rightarrow> 'j \<Rightarrow> daemon \<Rightarrow> (int \<times> daemon) option" where
  \<comment> \<open>\<open>timeout\<close> is not among the checked fields but is dereferenced by the \<open>printf\<close>\<close>
  "do_apply_event cj root d =
     (case (cj_get cj root ''event_name'', cj_get cj root ''strength'') of
        (Some event_name, Some strength) \<Rightarrow>
          (case (cj_get cj root ''timeout'', cj_str cj event_name) of
             (Some timeout, Some s) \<Rightarrow>
               (let event_idx = robflex_get_event_idx (Some s)
                in if event_idx = - 1 then Some (- 1, d)
                   else let (r, p) = set_event_bit (ptr_shmem d) event_idx
                        in Some (r, d\<lparr>ptr_shmem := p\<rparr>))
           | _ \<Rightarrow> None)
      | _ \<Rightarrow> Some (- 1, d))"

definition do_cancel_event ::
    "'j cjson \<Rightarrow> 'j \<Rightarrow> daemon \<Rightarrow> (int \<times> daemon) option" where
  "do_cancel_event cj root d =
     (case cj_get cj root ''event_name'' of
        None \<Rightarrow> Some (- 1, d)
      | Some event_name \<Rightarrow>
          (case (cj_get cj root ''strength'', cj_str cj event_name) of
             (Some strength, Some s) \<Rightarrow>
               (let event_idx = robflex_get_event_idx (Some s)
                in if event_idx = - 1 then Some (- 1, d)
                   else let (r, p) = unset_event_bit (ptr_shmem d) event_idx
                        in Some (r, d\<lparr>ptr_shmem := p\<rparr>))
           | _ \<Rightarrow> None))"

definition cmd_dispatcher ::
    "'j cjson \<Rightarrow> kernel \<Rightarrow> 'j \<Rightarrow> daemon \<Rightarrow> (int \<times> daemon) option" where
  "cmd_dispatcher cj k root d = (case cj_get cj root ''cmd'' of
     None \<Rightarrow> Some (- 1, d)
   | Some cmd \<Rightarrow>
       (case cj_str cj cmd of
          None \<Rightarrow> None
        | Some s \<Rightarrow>
            (if s = ''sched_setscheduler'' then do_sched_setscheduler cj k root d
             else if s = ''set_priority'' then do_set_priority cj k root d
             else if s = ''log_message'' then do_log_message cj k root d
             else if s = ''update_ctrl_time_cost'' then do_update_ctrl_time_cost cj k root d
             else if s = ''apply_event'' then do_apply_event cj root d
             else if s = ''cancel_event'' then do_cancel_event cj root d
             else Some (- 1, d))))"

subsection \<open>Receiving a request\<close>

definition BUFFER_SIZE :: nat where
  "BUFFER_SIZE = 256"

definition received :: "string \<Rightarrow> string" where
  \<comment> \<open>the C string in \<open>buffer\<close>: \<open>recvfrom\<close> drops what exceeds 255 bytes of a datagram, and the
    string ends at its first NUL\<close>
  "received datagram = takeWhile (\<lambda>c. c \<noteq> CHR 0x00) (take (BUFFER_SIZE - 1) datagram)"

definition handle_client_request ::
    "'j cjson \<Rightarrow> kernel \<Rightarrow> string \<Rightarrow> daemon \<Rightarrow> daemon option" where
  \<comment> \<open>one successful \<open>recvfrom\<close>; \<open>None\<close> is undefined behaviour in a handler\<close>
  "handle_client_request cj k datagram d = (case cj_parse cj (received datagram) of
     None \<Rightarrow> Some d
   | Some root \<Rightarrow> map_option snd (cmd_dispatcher cj k root d))"

fun serve :: "'j cjson \<Rightarrow> kernel \<Rightarrow> string list \<Rightarrow> daemon \<Rightarrow> daemon option" where
  \<comment> \<open>the loop of \<open>main\<close> over the datagrams that arrive\<close>
  "serve cj k [] d = Some d"
| "serve cj k (m # ms) d = (case handle_client_request cj k m d of
     None \<Rightarrow> None
   | Some d' \<Rightarrow> serve cj k ms d')"

end
