(* ===== verification/Protocol.thy ===== *)
theory Protocol
  imports EventControl Daemon
begin

text \<open>
  Client and daemon together: the commands of the protocol as data, their abstract meaning
  on the set of active events and the list of system calls, and the refinement between
  that meaning and what the daemon does with the client's datagrams.
\<close>

subsection \<open>What the protocol relies on in the JSON library\<close>

definition reads_field :: "'j cjson \<Rightarrow> 'j \<Rightarrow> string \<Rightarrow> jval \<Rightarrow> bool" where
  "reads_field cj root k v \<longleftrightarrow> (\<exists>it. cj_get cj root k = Some it \<and>
     (case v of JStr s \<Rightarrow> cj_str cj it = Some s
      | JInt n \<Rightarrow> - (2 ^ 31) \<le> n \<and> n < 2 ^ 31 \<longrightarrow> cj_int cj it = n))"

definition cj_reads :: "'j cjson \<Rightarrow> payload \<Rightarrow> bool" where
  \<comment> \<open>the text of \<open>d\<close> parses, and every field of \<open>d\<close> is read with its value\<close>
  "cj_reads cj d \<longleftrightarrow> (\<exists>root. cj_parse cj (json_dumps d) = Some root \<and>
     (\<forall>k v. map_of d k = Some v \<longrightarrow> reads_field cj root k v))"

definition printable :: "payload \<Rightarrow> bool" where
  "printable d \<longleftrightarrow> (\<forall>(k, v) \<in> set d. list_all is_ascii k \<and>
     (case v of JStr s \<Rightarrow> list_all is_ascii s | JInt n \<Rightarrow> True))"

definition cjson_ok :: "'j cjson \<Rightarrow> bool" where
  "cjson_ok cj \<longleftrightarrow> (\<forall>d. printable d \<and> distinct (map (py_lower \<circ> fst) d) \<longrightarrow> cj_reads cj d)"

subsection \<open>The commands and their meaning\<close>

datatype command =
    Set_scheduler int int int
  | Set_priority int int
  | Log_message int string
  | Update_ctrl_time_cost int int
  | Apply_event string int int
  | Cancel_event string int

fun payload_of :: "command \<Rightarrow> payload" where
  "payload_of (Set_scheduler tid policy priority) = set_scheduler_payload tid policy priority"
| "payload_of (Set_priority tid priority) = set_priority_payload tid priority"
| "payload_of (Log_message tid m) = log_message_payload tid m"
| "payload_of (Update_ctrl_time_cost tid v) = update_ctrl_time_cost_payload tid v"
| "payload_of (Apply_event name timeout strength) = apply_event_payload name timeout strength"
| "payload_of (Cancel_event name strength) = cancel_event_payload name strength"

definition wire :: "command \<Rightarrow> string" where
  "wire c = utf8 (json_dumps (payload_of c))"

fun in_range :: "command \<Rightarrow> bool" where
  "in_range (Set_scheduler tid policy priority) \<longleftrightarrow>
     list_all (\<lambda>n. - (2 ^ 31) \<le> n \<and> n < 2 ^ 31) [tid, policy, priority]"
| "in_range (Set_priority tid priority) \<longleftrightarrow>
     list_all (\<lambda>n. - (2 ^ 31) \<le> n \<and> n < 2 ^ 31) [tid, priority]"
| "in_range (Log_message tid m) \<longleftrightarrow> - (2 ^ 31) \<le> tid \<and> tid < 2 ^ 31 \<and> list_all is_ascii m"
| "in_range (Update_ctrl_time_cost tid v) \<longleftrightarrow>
     list_all (\<lambda>n. - (2 ^ 31) \<le> n \<and> n < 2 ^ 31) [tid, v]"
| "in_range (Apply_event name timeout strength) \<longleftrightarrow> list_all is_ascii name"
| "in_range (Cancel_event name strength) \<longleftrightarrow> list_all is_ascii name"

type_synonym abs_state = "int set \<times> syscall list"

fun meaning :: "kernel \<Rightarrow> command \<Rightarrow> abs_state \<Rightarrow> abs_state" where
  "meaning k (Set_scheduler tid policy priority) (ev, cs) =
     (if policy = SCHED_OTHER then
        (let cs1 = cs @ [Sys_sched_setscheduler tid SCHED_OTHER 0]
         in if k cs (Sys_sched_setscheduler tid SCHED_OTHER 0) < 0 then (ev, cs1)
            else (ev, cs1 @ [Sys_setpriority tid priority]))
      else (ev, cs @ [Sys_sched_setscheduler tid policy priority]))"
| "meaning k (Set_priority tid priority) (ev, cs) = (ev, cs @ [Sys_setpriority tid priority])"
| "meaning k (Log_message tid m) (ev, cs) = (ev, cs @ [Log_line tid m])"
| "meaning k (Update_ctrl_time_cost tid v) (ev, cs) = (ev, cs @ [Sys_sigqueue tid v])"
| "meaning k (Apply_event name timeout strength) (ev, cs) =
     (insert (robflex_get_event_idx (Some name)) ev, cs)"
| "meaning k (Cancel_event name strength) (ev, cs) =
     (ev - {robflex_get_event_idx (Some name)}, cs)"

definition abs_daemon :: "daemon \<Rightarrow> abs_state" where
  "abs_daemon d = (shm.active (ptr_shmem d), calls d)"

subsection \<open>The wire text\<close>

lemma wire_json: "wire c = json_dumps (payload_of c)"
  by (simp add: wire_def)

lemma ascii_not_nul: "list_all is_ascii s \<Longrightarrow> takeWhile (\<lambda>c. c \<noteq> CHR 0x00) s = s"
proof -
  assume "list_all is_ascii s"
  moreover have "\<not> is_ascii (CHR 0x00)" by code_simp
  ultimately have "c \<noteq> CHR 0x00" if "c \<in> set s" for c using that by (auto simp: list_all_iff)
  then show ?thesis by (simp add: takeWhile_eq_all_conv)
qed

lemma received_wire:
  assumes "length (wire c) < BUFFER_SIZE"
  shows "received (wire c) = wire c"
proof -
  have "take (BUFFER_SIZE - 1) (wire c) = wire c" using assms by (intro take_all) linarith
  then show ?thesis
    unfolding received_def by (simp only: wire_json ascii_not_nul ascii_json_dumps)
qed

definition command_keys :: "string list" where
  "command_keys = [''cmd'', ''tid'', ''policy'', ''priority'', ''message'', ''value_in_us'',
     ''event_name'', ''timeout'', ''strength'']"

lemma command_keys_ok:
  "list_all (\<lambda>k. list_all is_ascii k \<and> py_lower k = k) command_keys"
  "list_all (list_all is_ascii) [''sched_setscheduler'', ''set_priority'', ''log_message'',
     ''update_ctrl_time_cost'', ''apply_event'', ''cancel_event'']"
  by code_simp+

lemmas payload_defs =
  set_scheduler_payload_def set_priority_payload_def log_message_payload_def
  update_ctrl_time_cost_payload_def apply_event_payload_def cancel_event_payload_def

lemma payload_ok:
  "in_range c \<Longrightarrow> printable (payload_of c) \<and> distinct (map (py_lower \<circ> fst) (payload_of c))"
  using command_keys_ok
  by (cases c) (simp_all add: printable_def payload_defs command_keys_def)

subsection \<open>The daemon implements the meaning\<close>

lemma reads_strE:
  assumes "reads_field cj root k (JStr s)"
  obtains it where "cj_get cj root k = Some it" and "cj_str cj it = Some s"
  using assms by (auto simp: reads_field_def)

lemma reads_intE:
  assumes "reads_field cj root k (JInt n)"
  obtains it where "cj_get cj root k = Some it"
    and "- (2 ^ 31) \<le> n \<and> n < 2 ^ 31 \<longrightarrow> cj_int cj it = n"
  using assms by (auto simp: reads_field_def)

lemma event_idx_ok: "robflex_get_event_idx (Some s) \<noteq> - 1 \<and> \<not> bad_event (robflex_get_event_idx (Some s))"
  using robflex_get_event_idx_known [of s] robflex_get_event_idx_unknown [of s]
  by (cases "s \<in> set robflex_event_name_list") (auto simp: bad_event_def MAX_EVENT_NUM_def)

lemma dispatch:
  assumes "in_range c" and "\<And>k v. map_of (payload_of c) k = Some v \<Longrightarrow> reads_field cj root k v"
    and m: "mapped (ptr_shmem d)"
  shows "\<exists>r d'. cmd_dispatcher cj k root d = Some (r, d') \<and> mapped (ptr_shmem d') \<and>
    abs_daemon d' = meaning k c (abs_daemon d)"
proof (cases c)
  case (Set_scheduler tid policy priority)
  then have "reads_field cj root ''cmd'' (JStr ''sched_setscheduler'')"
    "reads_field cj root ''tid'' (JInt tid)" "reads_field cj root ''policy'' (JInt policy)"
    "reads_field cj root ''priority'' (JInt priority)"
    using assms(2) by (simp_all add: payload_defs)
  then show ?thesis using assms(1) m Set_scheduler
    by (elim reads_strE reads_intE)
      (simp add: cmd_dispatcher_def do_sched_setscheduler_def do_call_def abs_daemon_def Let_def)
next
  case (Set_priority tid priority)
  then have "reads_field cj root ''cmd'' (JStr ''set_priority'')"
    "reads_field cj root ''tid'' (JInt tid)" "reads_field cj root ''priority'' (JInt priority)"
    using assms(2) by (simp_all add: payload_defs)
  then show ?thesis using assms(1) m Set_priority
    by (elim reads_strE reads_intE)
      (simp add: cmd_dispatcher_def do_set_priority_def do_call_def abs_daemon_def)
next
  case (Log_message tid msg)
  then have "reads_field cj root ''cmd'' (JStr ''log_message'')"
    "reads_field cj root ''tid'' (JInt tid)" "reads_field cj root ''message'' (JStr msg)"
    using assms(2) by (simp_all add: payload_defs)
  then show ?thesis using assms(1) m Log_message
    by (elim reads_strE reads_intE)
      (simp add: cmd_dispatcher_def do_log_message_def abs_daemon_def)
next
  case (Update_ctrl_time_cost tid v)
  then have "reads_field cj root ''cmd'' (JStr ''update_ctrl_time_cost'')"
    "reads_field cj root ''tid'' (JInt tid)" "reads_field cj root ''value_in_us'' (JInt v)"
    using assms(2) by (simp_all add: payload_defs)
  then show ?thesis using assms(1) m Update_ctrl_time_cost
    by (elim reads_strE reads_intE)
      (simp add: cmd_dispatcher_def do_update_ctrl_time_cost_def do_call_def abs_daemon_def)
next
  case (Apply_event name timeout strength)
  then have "reads_field cj root ''cmd'' (JStr ''apply_event'')"
    "reads_field cj root ''event_name'' (JStr name)"
    "reads_field cj root ''timeout'' (JInt timeout)" "reads_field cj root ''strength'' (JInt strength)"
    using assms(2) by (simp_all add: payload_defs)
  then show ?thesis using m Apply_event event_idx_ok [of name]
    by (elim reads_strE reads_intE)
      (simp add: cmd_dispatcher_def do_apply_event_def abs_daemon_def Let_def
        shm.raise_inv shm.active_raise case_prod_beta)
next
  case (Cancel_event name strength)
  then have "reads_field cj root ''cmd'' (JStr ''cancel_event'')"
    "reads_field cj root ''event_name'' (JStr name)" "reads_field cj root ''strength'' (JInt strength)"
    using assms(2) by (simp_all add: payload_defs)
  then show ?thesis using m Cancel_event event_idx_ok [of name]
    by (elim reads_strE reads_intE)
      (simp add: cmd_dispatcher_def do_cancel_event_def abs_daemon_def Let_def
        shm.clear_inv shm.active_clear case_prod_beta)
qed

lemma handle_wire:
  assumes "cjson_ok cj" and "in_range c" and "length (wire c) < BUFFER_SIZE"
    and "mapped (ptr_shmem d)"
  obtains d' where "handle_client_request cj k (wire c) d = Some d'"
    and "mapped (ptr_shmem d')" and "abs_daemon d' = meaning k c (abs_daemon d)"
proof -
  have "cj_reads cj (payload_of c)" using assms(1,2) payload_ok by (simp add: cjson_ok_def)
  then obtain root where r: "cj_parse cj (json_dumps (payload_of c)) = Some root"
    and f: "\<And>k v. map_of (payload_of c) k = Some v \<Longrightarrow> reads_field cj root k v"
    by (auto simp: cj_reads_def)
  obtain x d' where "cmd_dispatcher cj k root d = Some (x, d')"
    and "mapped (ptr_shmem d')" and "abs_daemon d' = meaning k c (abs_daemon d)"
    using dispatch [OF assms(2) f assms(4)] by blast
  moreover have "received (wire c) = json_dumps (payload_of c)"
    using received_wire [OF assms(3)] by (simp add: wire_json)
  ultimately show thesis using r by (intro that) (simp_all add: handle_client_request_def)
qed

lemma serve_wires:
  assumes "cjson_ok cj" and "list_all (\<lambda>c. in_range c \<and> length (wire c) < BUFFER_SIZE) cs"
    and "mapped (ptr_shmem d)"
  shows "\<exists>d'. serve cj k (map wire cs) d = Some d' \<and> mapped (ptr_shmem d') \<and>
    abs_daemon d' = fold (meaning k) cs (abs_daemon d)"
  using assms(2,3)
proof (induction cs arbitrary: d)
  case Nil
  then show ?case by simp
next
  case (Cons c cs)
  then obtain d1 where "handle_client_request cj k (wire c) d = Some d1"
    and "mapped (ptr_shmem d1)" and "abs_daemon d1 = meaning k c (abs_daemon d)"
    using handle_wire [OF assms(1), of c d k] by auto
  moreover then obtain d' where "serve cj k (map wire cs) d1 = Some d'"
    and "mapped (ptr_shmem d')" and "abs_daemon d' = fold (meaning k) cs (abs_daemon d1)"
    using Cons.IH [of d1] Cons.prems by auto
  ultimately show ?case by auto
qed

subsection \<open>A concrete JSON reader\<close>

text \<open>The decoder of the payload format as an instance of the JSON library.\<close>

definition flat_cjson :: "(payload + jval) cjson" where
  "flat_cjson = \<lparr>
     cj_parse = (\<lambda>s. map_option Inl (json_parse s)),
     cj_get = (\<lambda>j k. case j of Inl d \<Rightarrow> map_option Inr (map_of d k) | Inr v \<Rightarrow> None),
     cj_int = (\<lambda>j. case j of Inr (JInt n) \<Rightarrow> n | _ \<Rightarrow> 0),
     cj_str = (\<lambda>j. case j of Inr (JStr s) \<Rightarrow> Some s | _ \<Rightarrow> None)\<rparr>"

lemma flat_cjson_ok: "cjson_ok flat_cjson"
  by (auto simp: cjson_ok_def cj_reads_def reads_field_def flat_cjson_def split: jval.splits)

subsection \<open>Client calls put their command on the wire\<close>

lemma send_uses_wire:
  assumes "local_sock c = Some s"
  shows "send_command_to_daemon os (payload_of cmd) c =
    (let w = os_sendto os s (wire cmd) SOCKET_PATH (world c)
     in ((case fst w of Inl e \<Rightarrow> - 1 | Inr n \<Rightarrow> if n < 0 then - 1 else 0),
         c\<lparr>world := snd w,
           printed := printed c @ (if MAX_JSON_SIZE < length (json_dumps (payload_of cmd))
             then [too_large_warning (length (json_dumps (payload_of cmd)))] else [])\<rparr>))"
  using assms
  by (simp add: send_command_to_daemon_def get_socket_def wire_def Let_def case_prod_beta
      split: sum.split)

subsection \<open>A session of the event tool against the daemon\<close>

text \<open>
  The operating system with the daemon behind the socket: a datagram sent to the daemon's
  path is handled before the call returns, and sending fails once the daemon is gone.
\<close>

definition linked_os :: "'j cjson \<Rightarrow> kernel \<Rightarrow> daemon option os" where
  "linked_os cj k = \<lparr>
     os_socket = (\<lambda>w. (Inr 3, w)),
     os_settimeout = (\<lambda>s w. (Inr (), w)),
     os_sendto = (\<lambda>s bytes path w. (case w of
        None \<Rightarrow> (Inl OSError, None)
      | Some d \<Rightarrow>
          (if path = SOCKET_PATH then (Inr (int (length bytes)), handle_client_request cj k bytes d)
           else (Inl OSError, w)))),
     os_close = (\<lambda>s w. (Inr (), w)),
     os_gettid = (\<lambda>w. 1)\<rparr>"

text \<open>What a line asks for, apart from how it is carried out.\<close>

definition line_command :: "string \<Rightarrow> command option" where
  "line_command line = (case split_ws line of
     p0 # name # rest \<Rightarrow>
       (let n = length rest;
            t = (if n = 0 then 0 else parse_int (rest ! 0) 0);
            s1 = (if n < 1 then 1 else parse_int (rest ! 0) 1);
            s2 = (if n < 2 then 1 else parse_int (rest ! 1) 1)
        in if py_lower p0 = ''apply'' then Some (Apply_event name t s2)
           else if py_lower p0 = ''cancel'' then Some (Cancel_event name s1)
           else None)
   | _ \<Rightarrow> None)"

definition line_quits :: "string \<Rightarrow> bool" where
  "line_quits line \<longleftrightarrow>
     (case split_ws line of [] \<Rightarrow> False | p0 # _ \<Rightarrow> py_lower p0 \<in> set [''quit'', ''exit'', ''q''])"

definition session_commands :: "string list \<Rightarrow> command list" where
  "session_commands stdin =
     List.map_filter line_command
       (takeWhile (\<lambda>l. \<not> line_quits l)
         (filter (\<lambda>l. \<not> startswith l ''#'') (map py_strip stdin)))"

fun typed :: "input list \<Rightarrow> string list" where
  \<comment> \<open>the lines before the first interrupt\<close>
  "typed [] = []"
| "typed (Interrupt # xs) = []"
| "typed (Line l # xs) = l # typed xs"

definition interrupted :: "input list \<Rightarrow> bool" where
  \<comment> \<open>an interrupt is reached: no line before it quits\<close>
  "interrupted xs \<longleftrightarrow> Interrupt \<in> set xs \<and>
     list_all (\<lambda>l. startswith l ''#'' \<or> \<not> line_quits l) (map py_strip (typed xs))"

definition perform :: "'w os \<Rightarrow> command option \<Rightarrow> 'w client \<Rightarrow> 'w client" where
  "perform os x c = (case x of
     None \<Rightarrow> c | Some cmd \<Rightarrow> snd (send_command_to_daemon os (payload_of cmd) c))"

lemma handle_line_perform:
  "handle_line os line c = (g, r, c') \<Longrightarrow>
   g = (\<not> line_quits line) \<and> c' = perform os (if g then line_command line else None) c"
proof (cases "split_ws line")
  case Nil
  assume "handle_line os line c = (g, r, c')"
  with Nil show ?thesis by (auto simp: handle_line_def line_quits_def line_command_def perform_def)
next
  case (Cons p0 args)
  assume h: "handle_line os line c = (g, r, c')"
  show ?thesis
  proof (cases args)
    case Nil
    with h Cons show ?thesis
      by (auto simp: handle_line_def line_quits_def line_command_def perform_def Let_def
          split: if_splits)
  next
    case (Cons name rest)
    consider "rest = []" | t where "rest = [t]" | t s u where "rest = t # s # u"
      by (metis list.exhaust)
    then show ?thesis using h \<open>split_ws line = p0 # args\<close> Cons
      by cases
        (auto simp: handle_line_def line_quits_def line_command_def perform_def Let_def
          robflex_apply_event_def robflex_cancel_event_def split: if_splits prod.splits)
  qed
qed

text \<open>The client with a live daemon behind it, as the loop keeps it.\<close>

definition linked :: "abs_state \<Rightarrow> daemon option client \<Rightarrow> bool" where
  "linked a c \<longleftrightarrow> local_sock c \<in> {None, Some 3} \<and>
     (\<exists>d. world c = Some d \<and> mapped (ptr_shmem d) \<and> abs_daemon d = a)"

definition sendable :: "command \<Rightarrow> bool" where
  "sendable c \<longleftrightarrow> in_range c \<and> length (wire c) < BUFFER_SIZE"

lemma send_linked:
  assumes "cjson_ok cj" and "linked a c" and "sendable cmd"
  shows "fst (send_command_to_daemon (linked_os cj k) (payload_of cmd) c) = 0 \<and>
    linked (meaning k cmd a) (snd (send_command_to_daemon (linked_os cj k) (payload_of cmd) c))"
proof -
  obtain d where d: "world c = Some d" "mapped (ptr_shmem d)" "abs_daemon d = a"
    using assms(2) by (auto simp: linked_def)
  obtain d' where d': "handle_client_request cj k (wire cmd) d = Some d'"
    "mapped (ptr_shmem d')" "abs_daemon d' = meaning k cmd a"
    using handle_wire [OF assms(1) _ _ d(2), of cmd k] assms(3) d(3) by (auto simp: sendable_def)
  have "get_socket (linked_os cj k) c = (Inr 3, c\<lparr>local_sock := Some 3\<rparr>)"
    using assms(2) by (auto simp: linked_def get_socket_def linked_os_def)
  with d d' show ?thesis
    by (simp add: send_command_to_daemon_def linked_os_def linked_def Let_def wire_def)
qed

lemma perform_linked:
  assumes "cjson_ok cj" and "linked a c" and "\<And>cmd. x = Some cmd \<Longrightarrow> sendable cmd"
  shows "linked (case x of None \<Rightarrow> a | Some cmd \<Rightarrow> meaning k cmd a) (perform (linked_os cj k) x c)"
  using assms send_linked [OF assms(1,2)] by (cases x) (simp_all add: perform_def)

lemma session_commands_Cons:
  "session_commands (raw # raws) =
     (let line = py_strip raw
      in if startswith line ''#'' then session_commands raws
         else if line_quits line then []
         else (case line_command line of None \<Rightarrow> [] | Some x \<Rightarrow> [x]) @ session_commands raws)"
  by (simp add: session_commands_def Let_def map_filter_simps split: option.split)

lemma handle_line_replies: "handle_line os line c = (g, r, c') \<Longrightarrow> r \<noteq> Some Interrupted"
  by (auto simp: handle_line_def Let_def split: list.splits if_splits prod.splits)

lemma read_lines_interrupted: "Interrupted \<in> set (fst (read_lines os stdin c)) \<longleftrightarrow> interrupted stdin"
proof (induction stdin arbitrary: c rule: typed.induct)
  case (3 raw raws)
  let ?line = "py_strip raw"
  obtain g r c1 where h: "handle_line os ?line c = (g, r, c1)" by (metis prod_cases3)
  have "g = (\<not> line_quits ?line)" "r \<noteq> Some Interrupted"
    using handle_line_perform [OF h] handle_line_replies [OF h] by simp_all
  then show ?case
    using 3 h by (auto simp: interrupted_def Let_def case_prod_beta split: option.splits)
qed (simp_all add: interrupted_def)

lemma read_lines_linked:
  assumes "cjson_ok cj"
  shows "linked a c \<Longrightarrow> list_all sendable (session_commands (typed stdin)) \<Longrightarrow>
    linked (fold (meaning k) (session_commands (typed stdin)) a) (snd (read_lines (linked_os cj k) stdin c))"
proof (induction stdin arbitrary: a c rule: typed.induct)
  case 1
  then show ?case by (simp add: session_commands_def map_filter_simps)
next
  case (2 xs)
  then show ?case by (simp add: session_commands_def map_filter_simps)
next
  case (3 raw inputs)
  let ?line = "py_strip raw" and ?raws = "typed inputs"
  show ?case
  proof (cases "startswith ?line ''#''")
    case True
    with 3 show ?thesis by (simp add: session_commands_Cons)
  next
    case False
    obtain g r c1 where h: "handle_line (linked_os cj k) ?line c = (g, r, c1)"
      by (metis prod_cases3)
    note hp = handle_line_perform [OF h]
    show ?thesis
    proof (cases "line_quits ?line")
      case True
      with hp have "\<not> g" "c1 = c" by (auto simp: perform_def)
      with h True False "3.prems" show ?thesis by (simp add: session_commands_Cons Let_def)
    next
      case q: False
      with hp have g: "g" "c1 = perform (linked_os cj k) (line_command ?line) c" by auto
      have s: "sendable cmd" if "line_command ?line = Some cmd" for cmd
        using "3.prems"(2) that False q by (simp add: session_commands_Cons Let_def)
      have "linked (case line_command ?line of None \<Rightarrow> a | Some cmd \<Rightarrow> meaning k cmd a) c1"
        unfolding g using assms "3.prems"(1) s by (rule perform_linked)
      moreover have "list_all sendable (session_commands ?raws)"
        using "3.prems"(2) False q by (simp add: session_commands_Cons Let_def)
      ultimately show ?thesis
        using "3.IH" h g False q
        by (simp add: session_commands_Cons Let_def case_prod_beta split: option.splits)
    qed
  qed
qed

subsection \<open>Properties\<close>

definition example_daemon :: daemon where
  "example_daemon = \<lparr>ptr_shmem = Some \<lparr>busy_degree = SYSTEM_IDLE, futex_wake_seq = 0,
     event_bits = replicate 16 0\<rparr>, calls = []\<rparr>"

lemma example_daemon_mapped: "mapped (ptr_shmem example_daemon)"
  by (simp add: example_daemon_def mapped_def valid_shmem_def)

lemma example_daemon_abs: "abs_daemon example_daemon = ({}, [])"
proof -
  have "replicate 16 (0 :: 64 word) ! word_index i = 0" if "\<not> bad_event i" for i
    using word_index_bound [OF that] by simp
  then show ?thesis
    by (auto simp: abs_daemon_def shm.active_def example_daemon_def test_event_bit_Some)
qed

text \<open>
  C1: the daemon implements the protocol. For any sequence of commands a client encodes
  (integers in 32-bit range, printable text, each datagram within the daemon's buffer), the
  daemon's loop over the datagrams ends in a state whose active events and system calls are
  those the commands mean, one after the other, whatever the kernel answers.
\<close>

theorem daemon_implements_protocol:
  assumes "cjson_ok cj"
    and "list_all (\<lambda>c. in_range c \<and> length (wire c) < BUFFER_SIZE) cs"
    and "mapped (ptr_shmem d)"
  shows "\<exists>d'. serve cj k (map wire cs) d = Some d' \<and> mapped (ptr_shmem d') \<and>
    abs_daemon d' = fold (meaning k) cs (abs_daemon d)"
  using assms by (rule serve_wires)

definition example_commands :: "command list" where
  "example_commands = [Set_scheduler 7 0 5, Apply_event ''high_speed'' 0 1, Set_priority 7 (- 5),
     Cancel_event ''high_speed'' 1, Apply_event ''stationary'' 0 1]"

lemma example_commands_sendable:
  "list_all (\<lambda>c. in_range c \<and> length (wire c) < BUFFER_SIZE) example_commands"
  by code_simp

theorem daemon_implements_protocol_witness:
  "\<exists>d'. serve flat_cjson (\<lambda>_ _. 0) (map wire example_commands) example_daemon = Some d' \<and>
    abs_daemon d' = ({5}, [Sys_sched_setscheduler 7 0 0, Sys_setpriority 7 5,
      Sys_setpriority 7 (- 5)])"
proof -
  have "fold (meaning (\<lambda>_ _. 0)) example_commands ({}, []) =
    ({5}, [Sys_sched_setscheduler 7 0 0, Sys_setpriority 7 5, Sys_setpriority 7 (- 5)])"
    by (simp add: example_commands_def SCHED_OTHER_def robflex_get_event_idx_def
        robflex_event_name_list_def)
  then show ?thesis
    using daemon_implements_protocol [OF flat_cjson_ok example_commands_sendable
        example_daemon_mapped, of "\<lambda>_ _. 0"]
    by (auto simp: example_daemon_abs)
qed

text \<open>
  C13: a whole session of the event tool against the daemon. Whatever lines are typed, and
  whether or not the user interrupts the tool at the end, as long as each command typed has an
  event name of ASCII text and its datagram is shorter than the daemon's buffer, the tool
  returns 0 and has released its socket, it says that it was interrupted exactly when the
  interrupt came before a \<open>quit\<close>, and the daemon's active events and calls are those of the
  commands typed before the first \<open>quit\<close> or the interrupt, with comments, unknown words and
  malformed numbers treated as the tool says.
\<close>

theorem event_session:
  assumes "cjson_ok cj" and "list_all sendable (session_commands (typed stdin))"
    and "mapped (ptr_shmem d)" and "c = \<lparr>local_sock = None, printed = [], world = Some d\<rparr>"
  shows "\<exists>rs c' d'. event_main (linked_os cj k) stdin c = (0, rs, c') \<and> local_sock c' = None \<and>
    (Interrupted \<in> set rs \<longleftrightarrow> interrupted stdin) \<and> world c' = Some d' \<and>
    abs_daemon d' = fold (meaning k) (session_commands (typed stdin)) (abs_daemon d)"
proof -
  let ?r = "read_lines (linked_os cj k) stdin c"
  have "linked (abs_daemon d) c" using assms(3,4) by (simp add: linked_def)
  then have l: "linked (fold (meaning k) (session_commands (typed stdin)) (abs_daemon d)) (snd ?r)"
    using read_lines_linked [OF assms(1)] assms(2) by blast
  then have "local_sock (robflex_cleanup (linked_os cj k) (snd ?r)) = None"
    "world (robflex_cleanup (linked_os cj k) (snd ?r)) = world (snd ?r)"
    by (auto simp: robflex_cleanup_def linked_def linked_os_def split: option.split)
  with l show ?thesis
    using read_lines_interrupted [of "linked_os cj k" stdin c]
    by (auto simp: event_main_def linked_def case_prod_beta)
qed

theorem event_session_witness:
  "\<exists>rs c' d'. event_main (linked_os flat_cjson (\<lambda>_ _. 0))
      [Line ''# demo'', Line '' Apply interaction x'', Line ''what'', Line ''cancel stationary 2 '', Interrupt]
      \<lparr>local_sock = None, printed = [], world = Some example_daemon\<rparr> = (0, rs, c') \<and>
    Interrupted \<in> set rs \<and> world c' = Some d' \<and> abs_daemon d' = ({6}, [])"
proof -
  let ?in = "[Line ''# demo'', Line '' Apply interaction x'', Line ''what'', Line ''cancel stationary 2 '', Interrupt]"
  have s: "session_commands (typed ?in) = [Apply_event ''interaction'' 0 1, Cancel_event ''stationary'' 2]"
    and i: "interrupted ?in"
    by (code_simp, code_simp)
  have "list_all sendable (session_commands (typed ?in))" unfolding s by code_simp
  from event_session [OF flat_cjson_ok this example_daemon_mapped refl, of "\<lambda>_ _. 0"]
  show ?thesis
    by (simp add: s i example_daemon_abs robflex_get_event_idx_def robflex_event_name_list_def del: typed.simps)
      blast
qed

text \<open>
  An event name the daemon does not know is not rejected. The command succeeds and raises
  the event number \<open>ROBFLEX_EVENT_NONE\<close>, because the handler tests for \<open>-1\<close> where the
  lookup returns 0.
\<close>

theorem unknown_event_accepted:
  assumes "reads_field cj root ''cmd'' (JStr ''apply_event'')"
    and "reads_field cj root ''event_name'' (JStr name)"
    and "reads_field cj root ''timeout'' (JInt t)" and "reads_field cj root ''strength'' (JInt s)"
    and "name \<notin> set robflex_event_name_list" and "mapped (ptr_shmem d)"
  shows "\<exists>d'. cmd_dispatcher cj k root d = Some (0, d') \<and>
    shm.active (ptr_shmem d') = insert ROBFLEX_EVENT_NONE (shm.active (ptr_shmem d))"
proof -
  have "robflex_get_event_idx (Some name) = 0" using assms(5) by (rule robflex_get_event_idx_unknown)
  moreover have "\<not> bad_event 0" by (simp add: bad_event_def MAX_EVENT_NUM_def)
  ultimately show ?thesis using assms(1-4,6)
    by (elim reads_strE reads_intE)
      (simp add: cmd_dispatcher_def do_apply_event_def Let_def case_prod_beta
        shm.raise_ret shm.active_raise ROBFLEX_EVENT_NONE_def)
qed

theorem unknown_event_accepted_witness:
  "\<exists>d'. cmd_dispatcher flat_cjson (\<lambda>_ _. 0) (Inl (apply_event_payload ''typo'' 0 1)) example_daemon
     = Some (0, d') \<and> shm.active (ptr_shmem d') = {0}"
proof -
  have n: "''typo'' \<notin> set robflex_event_name_list" by (simp add: robflex_event_name_list_def)
  let ?r = "Inl (apply_event_payload ''typo'' 0 1)"
  have f: "reads_field flat_cjson ?r ''cmd'' (JStr ''apply_event'')"
    "reads_field flat_cjson ?r ''event_name'' (JStr ''typo'')"
    "reads_field flat_cjson ?r ''timeout'' (JInt 0)" "reads_field flat_cjson ?r ''strength'' (JInt 1)"
    by (simp_all add: reads_field_def flat_cjson_def apply_event_payload_def)
  have "shm.active (ptr_shmem example_daemon) = {}"
    using example_daemon_abs by (simp add: abs_daemon_def)
  then show ?thesis
    using unknown_event_accepted [OF f n example_daemon_mapped, of "\<lambda>_ _. 0"]
    by (simp add: ROBFLEX_EVENT_NONE_def)
qed

text \<open>
  A request to apply an event without a \<open>timeout\<close> field is undefined behaviour in the
  daemon: the field is not among those checked for NULL, yet its value is printed.
\<close>

theorem apply_event_needs_timeout:
  assumes "cj_get cj root ''event_name'' = Some e" and "cj_get cj root ''strength'' = Some s"
  shows "do_apply_event cj root d = None \<longleftrightarrow>
    cj_get cj root ''timeout'' = None \<or> cj_str cj e = None"
  using assms
  by (auto simp: do_apply_event_def Let_def split: option.splits prod.splits)

theorem apply_event_needs_timeout_witness:
  "do_apply_event flat_cjson (Inl [(''cmd'', JStr ''apply_event''), (''event_name'', JStr ''high_speed''),
     (''strength'', JInt 1)]) example_daemon = None"
  using apply_event_needs_timeout [of flat_cjson "Inl [(''cmd'', JStr ''apply_event''),
      (''event_name'', JStr ''high_speed''), (''strength'', JInt 1)]"
      "Inr (JStr ''high_speed'')" "Inr (JInt 1)" example_daemon]
  by (simp add: flat_cjson_def)

text \<open>
  The tool's event names are the daemon's, in the daemon's order: the \<open>i\<close>-th name has the
  event number \<open>i + 1\<close>, and no other name has a number in that range.
\<close>

theorem event_names_agree:
  "map (\<lambda>n. robflex_get_event_idx (Some n)) EVENT_NAMES = [1, 2, 3, 4, 5, 6, 7, 8] \<and>
   (robflex_get_event_idx (Some name) \<noteq> ROBFLEX_EVENT_NONE \<longleftrightarrow> name \<in> set EVENT_NAMES)"
proof -
  have e: "EVENT_NAMES = robflex_event_name_list"
    by (simp add: EVENT_NAMES_def robflex_event_name_list_def)
  have "map (\<lambda>n. robflex_get_event_idx (Some n)) EVENT_NAMES = [1, 2, 3, 4, 5, 6, 7, 8]"
    by (simp add: EVENT_NAMES_def robflex_get_event_idx_def robflex_event_name_list_def)
  then show ?thesis
    using robflex_get_event_idx_known [of name] robflex_get_event_idx_unknown [of name]
    by (auto simp: e ROBFLEX_EVENT_NONE_def)
qed

end
