(* ===== verification/Config.thy ===== *)
theory Config
  imports CSender
begin

text \<open>
  The configuration file of the library (\<open>src/robflex_config.c\<close>): a JSON object whose member
  \<open>policy_table\<close> holds the policy of the thread's own context under \<open>default\<close> and one policy for
  each event under the event's name. cJSON is a parameter, a record of the accessors the
  loader uses. A conversion of a \<open>double\<close> that its integer type cannot hold is undefined
  behaviour, \<open>None\<close>. The loader runs before the counter is enabled: no tick arrives.
\<close>

subsection \<open>Policies\<close>

record 'j cjson_doc =
  jd_parse :: "string \<Rightarrow> 'j option"
  jd_get :: "'j \<Rightarrow> string \<Rightarrow> 'j option"
  jd_is_object :: "'j \<Rightarrow> bool"
  jd_string :: "'j \<Rightarrow> string option" \<comment> \<open>\<open>cJSON_IsString\<close> and a \<open>valuestring\<close>\<close>
  jd_number :: "'j \<Rightarrow> pyfloat option" \<comment> \<open>\<open>cJSON_IsNumber\<close> and \<open>valuedouble\<close>\<close>
  jd_children :: "'j \<Rightarrow> (string option \<times> 'j) list"

definition parse_policy_string :: "string option \<Rightarrow> int" where
  "parse_policy_string s =
     (if s = None then YIELDING
      else if s = Some ''yielding'' then YIELDING
      else if s = Some ''predetermined'' then PREDETERMINED
      else if s = Some ''immediate'' then IMMEDIATE
      else if s = Some ''latency_oriented'' then LATENCY_ORIENTED
      else if s = Some ''by_handler'' then BY_HANDLER
      else YIELDING)"

definition trunc :: "rat \<Rightarrow> int" where
  "trunc x = (if x < 0 then - \<lfloor>- x\<rfloor> else \<lfloor>x\<rfloor>)"

definition double_to_int :: "pyfloat \<Rightarrow> int option" where
  "double_to_int v = (case v of
     Fin x \<Rightarrow> (if fits_signed 32 (trunc x) then Some (trunc x) else None)
   | _ \<Rightarrow> None)"

definition double_to_u64 :: "pyfloat \<Rightarrow> u64 option" where
  "double_to_u64 v = (case v of
     Fin x \<Rightarrow> (if fits_unsigned 64 (trunc x) then Some (word_of_int (trunc x)) else None)
   | _ \<Rightarrow> None)"

definition at_least_1 :: "pyfloat \<Rightarrow> bool" where
  "at_least_1 v \<longleftrightarrow> (case v of Fin x \<Rightarrow> 1 \<le> x | PosInf \<Rightarrow> True | NegInf \<Rightarrow> False | NaN \<Rightarrow> False)"

definition number_of :: "'j cjson_doc \<Rightarrow> 'j \<Rightarrow> string \<Rightarrow> pyfloat option" where
  "number_of j obj k = jd_get j obj k \<bind> jd_number j"

definition quantity :: "'j cjson_doc \<Rightarrow> 'j \<Rightarrow> string \<Rightarrow> u64 \<Rightarrow> u64 option" where
  \<comment> \<open>a number of at least one, or the default\<close>
  "quantity j obj k dflt = (case number_of j obj k of
     Some v \<Rightarrow> (if at_least_1 v then double_to_u64 v else Some dflt)
   | None \<Rightarrow> Some dflt)"

definition apply_policy_object_to_local_context ::
    "'w platform \<Rightarrow> 'j cjson_doc \<Rightarrow> 'j \<Rightarrow> local_context \<Rightarrow> 'w \<Rightarrow> (int \<times> local_context \<times> 'w) option" where
  "apply_policy_object_to_local_context P j policy_obj ctx w =
     (case jd_get j policy_obj ''policy'' \<bind> jd_string j of
        None \<Rightarrow> Some (- 1, ctx, w)
      | Some jpolicy \<Rightarrow> do {
          let ctx = ctx\<lparr>policy := parse_policy_string (Some jpolicy), avg_timecost_ns := DEFUALT_PERIOD_TIME_IN_NS\<rparr>;
          lv \<leftarrow> (case number_of j policy_obj ''level'' of Some v \<Rightarrow> double_to_int v | None \<Rightarrow> Some 0);
          let ctx = ctx\<lparr>level := lv\<rparr>;
          slice_ns \<leftarrow> quantity j policy_obj ''period_time_ns'' DEFUALT_PERIOD_TIME_IN_NS;
          let ctx = ctx\<lparr>aux := set_time_budgets 0 (set_time_slice_ns slice_ns (aux ctx))\<rparr>;
          cycles \<leftarrow> quantity j policy_obj ''period_cycles_quota'' DEFUALT_PERIOD_CYCLES_NUM;
          let ctx = ctx\<lparr>cycles_num := cycles\<rparr>;
          (if policy ctx = LATENCY_ORIENTED
           then let (t, w') = clock P w
                in Some (0, ctx\<lparr>aux := (aux ctx)\<lparr>target_lat := slice_ns, start_time := t, hist_ncycle := cycles,
                       used_ncycle := 0\<rparr>\<rparr>, w')
           else Some (0, ctx, w)) })"

subsection \<open>The table\<close>

definition entry_event :: "'j cjson_doc \<Rightarrow> string option \<times> 'j \<Rightarrow> int" where
  \<comment> \<open>the event that a member of the table configures, or \<open>ROBFLEX_EVENT_NONE\<close>\<close>
  "entry_event j kv =
     (if fst kv = None \<or> fst kv = Some ''default'' \<or> \<not> jd_is_object j (snd kv) then ROBFLEX_EVENT_NONE
      else robflex_get_event_idx (fst kv))"

fun apply_entries ::
    "'w platform \<Rightarrow> 'j cjson_doc \<Rightarrow> (string option \<times> 'j) list \<Rightarrow> 'w lib \<Rightarrow> (int \<times> 'w lib) option" where
  "apply_entries P j [] s = Some (0, s)"
| "apply_entries P j (kv # kvs) s =
     (if entry_event j kv = ROBFLEX_EVENT_NONE then apply_entries P j kvs s
      else case apply_policy_object_to_local_context P j (snd kv) zero_context (kworld s) of
        None \<Rightarrow> None
      | Some (r, ectx, w) \<Rightarrow>
          (if r \<noteq> 0 then Some (1, s\<lparr>kworld := w\<rparr>)
           else let (r', t) = event_table_upsert (entry_event j kv) ectx (event_map s)
                in if r' \<noteq> 0 then Some (1, s\<lparr>kworld := w\<rparr>)
                   else apply_entries P j kvs (s\<lparr>kworld := w, event_map := t\<rparr>)))"

definition object_at :: "'j cjson_doc \<Rightarrow> 'j \<Rightarrow> string \<Rightarrow> 'j option" where
  "object_at j obj k = (case jd_get j obj k of
     Some x \<Rightarrow> if jd_is_object j x then Some x else None
   | None \<Rightarrow> None)"

definition parse_config_file :: "'w platform \<Rightarrow> 'j cjson_doc \<Rightarrow> 'j \<Rightarrow> 'w lib \<Rightarrow> (int \<times> 'w lib) option" where
  "parse_config_file P j config_json s = (case object_at j config_json ''policy_table'' of
     None \<Rightarrow> Some (1, s)
   | Some policy_table \<Rightarrow>
       (case object_at j policy_table ''default'' of
          None \<Rightarrow> Some (1, s)
        | Some default_policy \<Rightarrow>
            (case apply_policy_object_to_local_context P j default_policy (loc_ctx s) (kworld s) of
               None \<Rightarrow> None
             | Some (r, ctx, w) \<Rightarrow>
                 (let s' = s\<lparr>loc_ctx := ctx, kworld := w\<rparr>
                  in if r \<noteq> 0 then Some (1, s') else apply_entries P j (jd_children j policy_table) s'))))"

definition setup_config_from_file ::
    "'w platform \<Rightarrow> printer \<Rightarrow> 'j cjson_doc \<Rightarrow> ('w \<Rightarrow> string \<Rightarrow> string option) \<Rightarrow> string option \<Rightarrow> 'w lib \<Rightarrow>
     (int \<times> 'w lib) option" where
  \<comment> \<open>\<open>file\<close> is what \<open>fopen\<close> and \<open>fread\<close> give of the path, if they succeed\<close>
  "setup_config_from_file P pr j file config_path_in s =
     (let path = (if config_path_in \<noteq> None then config_path_in else getenv P (kworld s) ''ROBFLEX_CONFIG_PATH'')
      in case path \<bind> file (kworld s) of
        None \<Rightarrow> Some (1, s)
      | Some content \<Rightarrow>
          (if 1024 * 1024 < length content then Some (1, s)
           else case jd_parse j (takeWhile (\<lambda>c. c \<noteq> CHR 0x00) content) of
             None \<Rightarrow> Some (1, s)
           | Some config_json \<Rightarrow> do {
               (r, s) \<leftarrow> parse_config_file P j config_json s;
               (if r \<noteq> 0 then do {
                  (r', s) \<leftarrow> robflex_log_message_c P pr (c_gettid P (kworld s)) ''parse_config_file failed'' [] s;
                  Some (1, s) }
                else Some (0, s)) }))"

subsection \<open>What a policy object asks for\<close>

definition obeys :: "'j cjson_doc \<Rightarrow> 'j \<Rightarrow> local_context \<Rightarrow> bool" where
  "obeys j obj c \<longleftrightarrow> (\<exists>p. jd_get j obj ''policy'' \<bind> jd_string j = Some p \<and>
     policy c = parse_policy_string (Some p) \<and>
     (case number_of j obj ''level'' of Some v \<Rightarrow> double_to_int v | None \<Rightarrow> Some 0) = Some (level c) \<and>
     quantity j obj ''period_cycles_quota'' DEFUALT_PERIOD_CYCLES_NUM = Some (cycles_num c) \<and>
     avg_timecost_ns c = DEFUALT_PERIOD_TIME_IN_NS \<and>
     (if policy c = LATENCY_ORIENTED
      then quantity j obj ''period_time_ns'' DEFUALT_PERIOD_TIME_IN_NS = Some (target_lat (aux c)) \<and>
        hist_ncycle (aux c) = cycles_num c \<and> used_ncycle (aux c) = 0
      else quantity j obj ''period_time_ns'' DEFUALT_PERIOD_TIME_IN_NS = Some (time_slice_ns (aux c)) \<and>
        time_budgets (aux c) = 0))"

lemma policy_object_obeyed:
  assumes "apply_policy_object_to_local_context P j obj c w = Some (0, c', w')"
  shows "obeys j obj c'"
proof -
  obtain p lv sl cy where
    "jd_get j obj ''policy'' \<bind> jd_string j = Some p"
    "(case number_of j obj ''level'' of Some v \<Rightarrow> double_to_int v | None \<Rightarrow> Some 0) = Some lv"
    "quantity j obj ''period_time_ns'' DEFUALT_PERIOD_TIME_IN_NS = Some sl"
    "quantity j obj ''period_cycles_quota'' DEFUALT_PERIOD_CYCLES_NUM = Some cy"
    using assms
    by (cases "jd_get j obj ''policy'' \<bind> jd_string j")
      (auto simp: apply_policy_object_to_local_context_def Let_def bind_eq_Some_conv)
  then show ?thesis using assms
    by (cases "parse_policy_string (Some p) = LATENCY_ORIENTED")
      (auto simp: apply_policy_object_to_local_context_def Let_def case_prod_beta obeys_def
        set_time_slice_ns_def set_time_budgets_def time_slice_ns_def time_budgets_def)
qed

lemma policy_object_refused:
  "apply_policy_object_to_local_context P j obj c w = Some (r, c', w') \<Longrightarrow> r \<noteq> 0 \<Longrightarrow>
   c' = c \<and> w' = w \<and> jd_get j obj ''policy'' \<bind> jd_string j = None"
  by (auto simp: apply_policy_object_to_local_context_def Let_def case_prod_beta bind_eq_Some_conv
      split: option.splits if_splits)

definition well_formed :: "'j cjson_doc \<Rightarrow> 'j \<Rightarrow> bool" where
  \<comment> \<open>a policy by name, and no number out of the range of its field\<close>
  "well_formed j obj \<longleftrightarrow> jd_get j obj ''policy'' \<bind> jd_string j \<noteq> None \<and>
     (case number_of j obj ''level'' of Some v \<Rightarrow> double_to_int v \<noteq> None | None \<Rightarrow> True) \<and>
     quantity j obj ''period_time_ns'' DEFUALT_PERIOD_TIME_IN_NS \<noteq> None \<and>
     quantity j obj ''period_cycles_quota'' DEFUALT_PERIOD_CYCLES_NUM \<noteq> None"

lemma well_formed_applied:
  assumes "well_formed j obj"
  shows "\<exists>c' w'. apply_policy_object_to_local_context P j obj c w = Some (0, c', w')"
  using assms
  by (auto simp: well_formed_def apply_policy_object_to_local_context_def Let_def case_prod_beta
      split: option.splits)

subsection \<open>Loading the table\<close>

lemma entry_event_range:
  assumes "entry_event j kv \<noteq> ROBFLEX_EVENT_NONE"
  shows "valid_event (entry_event j kv)" "entry_event j kv \<in> {1..8}"
proof -
  from assms obtain n where n: "fst kv = Some n" "entry_event j kv = robflex_get_event_idx (Some n)"
    by (cases "fst kv") (auto simp: entry_event_def split: if_splits)
  then show "valid_event (entry_event j kv)" using event_idx_valid [of "Some n"] assms by simp
  show "entry_event j kv \<in> {1..8}"
    using n assms robflex_get_event_idx_known [of n] robflex_get_event_idx_unknown [of n]
    by (cases "n \<in> set robflex_event_name_list") (auto simp: ROBFLEX_EVENT_NONE_def)
qed

fun configured :: "'j cjson_doc \<Rightarrow> (string option \<times> 'j) list \<Rightarrow> (int \<rightharpoonup> 'j) \<Rightarrow> (int \<rightharpoonup> 'j)" where
  \<comment> \<open>the last policy object of each event\<close>
  "configured j [] m = m"
| "configured j (kv # kvs) m = configured j kvs
     (if entry_event j kv = ROBFLEX_EVENT_NONE then m else m(entry_event j kv \<mapsto> snd kv))"

definition holds_table :: "'j cjson_doc \<Rightarrow> (int \<rightharpoonup> 'j) \<Rightarrow> event_table \<Rightarrow> event_table \<Rightarrow> bool" where
  "holds_table j m t0 t \<longleftrightarrow> (\<forall>e. case m e of
     Some obj \<Rightarrow> (\<exists>c. event_table_get_ctx t e = Some c \<and> obeys j obj c)
   | None \<Rightarrow> event_table_get_ctx t e = event_table_get_ctx t0 e)"

lemma holds_table_upsert:
  assumes "table_ok t" "valid_event e" "holds_table j m t0 t" "obeys j obj c"
    and "fst (event_table_upsert e c t) = 0"
  shows "holds_table j (m(e \<mapsto> obj)) t0 (snd (event_table_upsert e c t))"
proof -
  have g: "event_table_get_ctx (snd (event_table_upsert e c t)) x = (if x = e then Some c else event_table_get_ctx t x)" for x
    using ctxs.insert_lookup [OF assms(1,2), of c] assms(5) by simp
  show ?thesis unfolding holds_table_def
  proof
    fix x
    show "case (m(e \<mapsto> obj)) x of
        Some obj \<Rightarrow> \<exists>c'. event_table_get_ctx (snd (event_table_upsert e c t)) x = Some c' \<and> obeys j obj c'
      | None \<Rightarrow> event_table_get_ctx (snd (event_table_upsert e c t)) x = event_table_get_ctx t0 x"
      using assms(3) [unfolded holds_table_def, rule_format, of x] assms(4) g [of x]
      by (cases "x = e"; cases "m x") simp_all
  qed
qed

lemma apply_entries_cons:
  assumes "apply_entries P j (kv # kvs) s = Some (0, s')" "entry_event j kv \<noteq> ROBFLEX_EVENT_NONE"
  obtains c w where "obeys j (snd kv) c" "fst (event_table_upsert (entry_event j kv) c (event_map s)) = 0"
    "apply_entries P j kvs (s\<lparr>kworld := w, event_map := snd (event_table_upsert (entry_event j kv) c (event_map s))\<rparr>) =
       Some (0, s')"
  using assms policy_object_obeyed [of P j "snd kv" zero_context "kworld s"]
  by (auto simp: case_prod_beta split: option.splits if_splits prod.splits)

lemma apply_entries_loads:
  assumes "apply_entries P j kvs s = Some (0, s')" "table_ok (event_map s)" "holds_table j m t0 (event_map s)"
  shows "table_ok (event_map s') \<and> holds_table j (configured j kvs m) t0 (event_map s') \<and> loc_ctx s' = loc_ctx s"
  using assms
proof (induction kvs arbitrary: s m)
  case (Cons kv kvs)
  show ?case
  proof (cases "entry_event j kv = ROBFLEX_EVENT_NONE")
    case True
    then show ?thesis using Cons by simp
  next
    case False
    note e = entry_event_range(1) [OF False]
    obtain c w where c: "obeys j (snd kv) c" "fst (event_table_upsert (entry_event j kv) c (event_map s)) = 0"
      "apply_entries P j kvs (s\<lparr>kworld := w, event_map := snd (event_table_upsert (entry_event j kv) c (event_map s))\<rparr>) =
         Some (0, s')"
      using apply_entries_cons [OF Cons.prems(1) False] .
    show ?thesis
      using Cons.IH [OF c(3)] ctxs.insert_inv [OF Cons.prems(2) e]
        holds_table_upsert [OF Cons.prems(2) e Cons.prems(3) c(1,2)] False by simp
  qed
qed simp

lemma apply_entries_succeeds:
  assumes "table_ok (event_map s)" "dom (event_table_get_ctx (event_map s)) \<subseteq> {1..8}"
    and "\<forall>kv \<in> set kvs. entry_event j kv \<noteq> ROBFLEX_EVENT_NONE \<longrightarrow> well_formed j (snd kv)"
  shows "\<exists>s'. apply_entries P j kvs s = Some (0, s')"
  using assms
proof (induction kvs arbitrary: s)
  case (Cons kv kvs)
  let ?e = "entry_event j kv" and ?m = "event_table_get_ctx (event_map s)"
  show ?case
  proof (cases "?e = ROBFLEX_EVENT_NONE")
    case False
    note e = entry_event_range [OF False]
    obtain c w where c: "apply_policy_object_to_local_context P j (snd kv) zero_context (kworld s) = Some (0, c, w)"
      using well_formed_applied [of j "snd kv" P zero_context "kworld s"] Cons.prems(3) False by auto
    let ?r = "event_table_upsert ?e c (event_map s)"
    have "card (dom ?m) < 8" if "?m ?e = None"
    proof -
      have "dom ?m \<subset> {1..8}" using that e(2) Cons.prems(2) domIff [of ?e ?m] by blast
      then show ?thesis using psubset_card_mono [of "{1..8::int}" "dom ?m"] by simp
    qed
    then have r: "fst ?r = 0"
      using ctxs.insert_status [OF Cons.prems(1) e(1), of c] by (auto simp: ROBFLEX_MAX_LOCAL_EVENT_CTX_def)
    have "dom (event_table_get_ctx (snd ?r)) \<subseteq> {1..8}"
      using ctxs.insert_lookup [OF Cons.prems(1) e(1), of c] r Cons.prems(2) e(2) by auto
    then have "\<exists>s'. apply_entries P j kvs (s\<lparr>kworld := w, event_map := snd ?r\<rparr>) = Some (0, s')"
      using Cons.IH [of "s\<lparr>kworld := w, event_map := snd ?r\<rparr>"] Cons.prems(3)
        ctxs.insert_inv [OF Cons.prems(1) e(1), of c] by simp
    then show ?thesis using c False r by (simp add: case_prod_beta)
  qed (use Cons in simp)
qed simp

lemma apply_entries_append:
  "apply_entries P j (kvs @ kvs') s = (case apply_entries P j kvs s of
     None \<Rightarrow> None
   | Some (r, s') \<Rightarrow> if r \<noteq> 0 then Some (r, s') else apply_entries P j kvs' s')"
  by (induction kvs arbitrary: s) (auto simp: case_prod_beta split: option.splits prod.splits)

subsection \<open>Loading a file\<close>

definition table_of :: "'j cjson_doc \<Rightarrow> 'j \<Rightarrow> ('j \<times> 'j) option" where
  \<comment> \<open>the policy table of a document and its default policy\<close>
  "table_of j doc = do {
     pt \<leftarrow> object_at j doc ''policy_table'';
     d \<leftarrow> object_at j pt ''default'';
     Some (pt, d) }"

lemma parse_config_file_table:
  assumes "table_of j doc = Some (pt, d)"
  shows "parse_config_file P j doc s =
    (case apply_policy_object_to_local_context P j d (loc_ctx s) (kworld s) of
       None \<Rightarrow> None
     | Some (r, ctx, w) \<Rightarrow>
         if r \<noteq> 0 then Some (1, s\<lparr>loc_ctx := ctx, kworld := w\<rparr>)
         else apply_entries P j (jd_children j pt) (s\<lparr>loc_ctx := ctx, kworld := w\<rparr>))"
  using assms by (auto simp: table_of_def parse_config_file_def Let_def bind_eq_Some_conv split: option.splits)

lemma parse_config_file_no_table: "table_of j doc = None \<Longrightarrow> parse_config_file P j doc s = Some (1, s)"
  by (auto simp: table_of_def parse_config_file_def split: option.splits)

lemma holds_table_refl: "holds_table j Map.empty t t"
  by (simp add: holds_table_def)

lemma parse_config_file_loads:
  assumes "parse_config_file P j doc s = Some (0, s')" "table_ok (event_map s)"
  obtains pt d where "table_of j doc = Some (pt, d)" "obeys j d (loc_ctx s')" "table_ok (event_map s')"
    "holds_table j (configured j (jd_children j pt) Map.empty) (event_map s) (event_map s')"
proof (cases "table_of j doc")
  case None
  then show thesis using parse_config_file_no_table [OF None, of P s] assms(1) by simp
next
  case (Some td)
  obtain pt d where td: "table_of j doc = Some (pt, d)" using Some by (cases td) simp
  note p = assms(1) [unfolded parse_config_file_table [OF td]]
  from p obtain r ctx w where a: "apply_policy_object_to_local_context P j d (loc_ctx s) (kworld s) = Some (r, ctx, w)"
    by (auto split: option.splits)
  have r: "r = 0" using p a by (auto split: if_splits)
  have l: "apply_entries P j (jd_children j pt) (s\<lparr>loc_ctx := ctx, kworld := w\<rparr>) = Some (0, s')"
    using p a r by simp
  show thesis
    using apply_entries_loads [OF l, of Map.empty "event_map s"] assms(2) holds_table_refl [of j "event_map s"]
      policy_object_obeyed [of P j d] a r that [OF td] by simp
qed

text \<open>
  C9: a configuration file that is accepted is in force. When the loader returns 0, the file
  was named by its argument or else by \<open>ROBFLEX_CONFIG_PATH\<close>, is at most a mebibyte, parses and
  has a policy table with a default; the thread's own context is what the default asks for,
  every event that the table names has a context that is what the last object under its name
  asks for, every other event has the context it had, and the table's invariant is kept.
\<close>

theorem config_in_force:
  assumes "setup_config_from_file P pr j file path s = Some (0, s')" and "table_ok (event_map s)"
  shows "\<exists>name content doc pt d.
    (if path \<noteq> None then path else getenv P (kworld s) ''ROBFLEX_CONFIG_PATH'') = Some name \<and>
    file (kworld s) name = Some content \<and> length content \<le> 1048576 \<and>
    jd_parse j (takeWhile (\<lambda>c. c \<noteq> CHR 0x00) content) = Some doc \<and>
    object_at j doc ''policy_table'' = Some pt \<and> object_at j pt ''default'' = Some d \<and>
    obeys j d (loc_ctx s') \<and> table_ok (event_map s') \<and>
    (\<forall>e. case configured j (jd_children j pt) Map.empty e of
       Some obj \<Rightarrow> (\<exists>c. event_table_get_ctx (event_map s') e = Some c \<and> obeys j obj c)
     | None \<Rightarrow> event_table_get_ctx (event_map s') e = event_table_get_ctx (event_map s) e)"
proof -
  let ?path = "if path \<noteq> None then path else getenv P (kworld s) ''ROBFLEX_CONFIG_PATH''"
  note u = assms(1) [unfolded setup_config_from_file_def Let_def]
  obtain content where "?path \<bind> file (kworld s) = Some content" using u by (cases "?path \<bind> file (kworld s)") simp_all
  then obtain name where n: "?path = Some name" "file (kworld s) name = Some content"
    unfolding bind_eq_Some_conv by blast
  have n': "?path \<bind> file (kworld s) = Some content" unfolding n(1) using n(2) by simp
  have len: "length content \<le> 1048576" using u unfolding n' by (simp split: if_splits)
  then have l': "\<not> 1024 * 1024 < length content" by simp
  note u' = u [unfolded n' option.case if_not_P [OF l']]
  obtain doc where d: "jd_parse j (takeWhile (\<lambda>c. c \<noteq> CHR 0x00) content) = Some doc"
    using u' by (cases "jd_parse j (takeWhile (\<lambda>c. c \<noteq> CHR 0x00) content)") simp_all
  note u'' = u' [unfolded d option.case]
  obtain r t where r: "parse_config_file P j doc s = Some (r, t)"
    using u'' by (cases "parse_config_file P j doc s") auto
  have p: "parse_config_file P j doc s = Some (0, s')"
    using u'' unfolding r by (cases "r = 0") (auto simp: bind_eq_Some_conv)
  obtain pt df where t: "table_of j doc = Some (pt, df)" and
    o: "obeys j df (loc_ctx s')" "table_ok (event_map s')"
    "holds_table j (configured j (jd_children j pt) Map.empty) (event_map s) (event_map s')"
    using parse_config_file_loads [OF p assms(2)] .
  have t': "object_at j doc ''policy_table'' = Some pt" "object_at j pt ''default'' = Some df"
    using t by (auto simp: table_of_def bind_eq_Some_conv)
  show ?thesis
    by (intro exI [of _ name] exI [of _ content] exI [of _ doc] exI [of _ pt] exI [of _ df] conjI)
      (fact n(1) n(2) len d t' o(1) o(2) o(3) [unfolded holds_table_def])+
qed

text \<open>
  A well-formed configuration is accepted. When the document has a policy table with a
  default, the default and every object under an event's name have a policy and no number out
  of range, and the event table holds known events only, then the loader succeeds: the eight
  event names fit the table's eight entries, so it cannot overflow.
\<close>

theorem well_formed_config_accepted:
  assumes "object_at j doc ''policy_table'' = Some pt" and "object_at j pt ''default'' = Some d"
    and "well_formed j d"
    and "\<forall>kv \<in> set (jd_children j pt). entry_event j kv \<noteq> ROBFLEX_EVENT_NONE \<longrightarrow> well_formed j (snd kv)"
    and "table_ok (event_map s)" and "dom (event_table_get_ctx (event_map s)) \<subseteq> {1..8}"
  shows "\<exists>s'. parse_config_file P j doc s = Some (0, s')"
proof -
  have t: "table_of j doc = Some (pt, d)" using assms(1,2) by (simp add: table_of_def)
  obtain c w where "apply_policy_object_to_local_context P j d (loc_ctx s) (kworld s) = Some (0, c, w)"
    using well_formed_applied [OF assms(3), of P "loc_ctx s" "kworld s"] by blast
  then show ?thesis
    using apply_entries_succeeds [of "s\<lparr>loc_ctx := c, kworld := w\<rparr>" "jd_children j pt" j P] assms(4-6)
    by (simp add: parse_config_file_table [OF t])
qed

text \<open>
  C26: a configuration that is refused half way is half applied. When an object under an
  event's name has no policy string, after well-formed ones, the loader answers 1, but the
  thread's own context is already what the default asks for, and the events before that
  object have the contexts it asks for.
\<close>

theorem refused_config_half_applied:
  assumes "object_at j doc ''policy_table'' = Some pt" and "object_at j pt ''default'' = Some d"
    and "well_formed j d" and "jd_children j pt = kvs @ kv # rest"
    and "\<forall>kv \<in> set kvs. entry_event j kv \<noteq> ROBFLEX_EVENT_NONE \<longrightarrow> well_formed j (snd kv)"
    and "entry_event j kv \<noteq> ROBFLEX_EVENT_NONE" and "jd_get j (snd kv) ''policy'' \<bind> jd_string j = None"
    and "table_ok (event_map s)" and "dom (event_table_get_ctx (event_map s)) \<subseteq> {1..8}"
  shows "\<exists>s'. parse_config_file P j doc s = Some (1, s') \<and> obeys j d (loc_ctx s') \<and>
    table_ok (event_map s') \<and>
    (\<forall>e obj. configured j kvs Map.empty e = Some obj \<longrightarrow>
       (\<exists>c. event_table_get_ctx (event_map s') e = Some c \<and> obeys j obj c))"
proof -
  have t: "table_of j doc = Some (pt, d)" using assms(1,2) by (simp add: table_of_def)
  obtain c w where a: "apply_policy_object_to_local_context P j d (loc_ctx s) (kworld s) = Some (0, c, w)"
    using well_formed_applied [OF assms(3), of P "loc_ctx s" "kworld s"] by blast
  let ?s = "s\<lparr>loc_ctx := c, kworld := w\<rparr>"
  obtain u where u: "apply_entries P j kvs ?s = Some (0, u)"
    using apply_entries_succeeds [of ?s kvs j P] assms(5,8,9) by auto
  note l = apply_entries_loads [OF u, of Map.empty "event_map s"]
  have "apply_policy_object_to_local_context P j (snd kv) zero_context (kworld u) = Some (- 1, zero_context, kworld u)"
    using assms(7) by (simp add: apply_policy_object_to_local_context_def)
  then have "parse_config_file P j doc s = Some (1, u\<lparr>kworld := kworld u\<rparr>)"
    using a u assms(4,6) by (simp add: parse_config_file_table [OF t] apply_entries_append)
  moreover have "obeys j d (loc_ctx u)" "table_ok (event_map u)"
      "holds_table j (configured j kvs Map.empty) (event_map s) (event_map u)"
    using l assms(8) holds_table_refl [of j "event_map s"] policy_object_obeyed [OF a] by simp_all
  ultimately show ?thesis by (fastforce simp: holds_table_def split: option.splits)
qed

subsection \<open>Examples\<close>

datatype example_json = JObject "(string \<times> example_json) list" | JText string | JNumber pyfloat

definition example_cjson :: "example_json \<Rightarrow> example_json cjson_doc" where
  \<comment> \<open>the accessors of the type, with a parser that knows one document\<close>
  "example_cjson doc = \<lparr>
     jd_parse = (\<lambda>t. if t = [] then None else Some doc),
     jd_get = (\<lambda>x k. case x of JObject kvs \<Rightarrow> map_of kvs k | _ \<Rightarrow> None),
     jd_is_object = (\<lambda>x. case x of JObject kvs \<Rightarrow> True | _ \<Rightarrow> False),
     jd_string = (\<lambda>x. case x of JText t \<Rightarrow> Some t | _ \<Rightarrow> None),
     jd_number = (\<lambda>x. case x of JNumber v \<Rightarrow> Some v | _ \<Rightarrow> None),
     jd_children = (\<lambda>x. case x of JObject kvs \<Rightarrow> map (\<lambda>(k, v). (Some k, v)) kvs | _ \<Rightarrow> [])\<rparr>"

definition example_policy :: "string \<Rightarrow> example_json" where
  "example_policy p = JObject [(''policy'', JText p), (''level'', JNumber (Fin (7 / 2))),
     (''period_time_ns'', JNumber (Fin 2000000))]"

definition example_table_json :: "example_json \<Rightarrow> example_json" where
  "example_table_json x = JObject
     [(''default'', example_policy ''immediate''), (''high_speed'', example_policy ''latency_oriented''),
      (''emergency_stop'', x)]"

definition example_doc :: "example_json \<Rightarrow> example_json" where
  "example_doc x = JObject [(''policy_table'', example_table_json x)]"

definition example_file :: "u64 \<Rightarrow> string \<Rightarrow> string option" where
  "example_file w name = (if name = ''robflex.json'' then Some ''{}'' else None)"

lemma example_table_of:
  "object_at (example_cjson d) (example_doc x) ''policy_table'' = Some (example_table_json x)"
  "object_at (example_cjson d) (example_table_json x) ''default'' = Some (example_policy ''immediate'')"
  "jd_children (example_cjson d) (example_table_json x) =
     [(Some ''default'', example_policy ''immediate''), (Some ''high_speed'', example_policy ''latency_oriented''),
      (Some ''emergency_stop'', x)]"
  by (simp_all add: object_at_def example_cjson_def example_doc_def example_policy_def example_table_json_def)

lemma example_well_formed: "well_formed (example_cjson d) (example_policy p)"
  by (simp add: well_formed_def example_cjson_def example_policy_def number_of_def quantity_def at_least_1_def
      double_to_int_def double_to_u64_def trunc_def fits_signed_def fits_unsigned_def)

lemma example_events:
  "entry_event (example_cjson d) (Some ''default'', y) = ROBFLEX_EVENT_NONE"
  "entry_event (example_cjson d) (Some ''high_speed'', example_policy p) = 3"
  "entry_event (example_cjson d) (Some ''emergency_stop'', JText t) = ROBFLEX_EVENT_NONE"
  "entry_event (example_cjson d) (Some ''emergency_stop'', JObject kvs) = 8"
  by (simp_all add: entry_event_def example_cjson_def example_policy_def robflex_get_event_idx_def
      robflex_event_name_list_def)

lemma example_slots:
  "table_ok (event_map example_lib)" "dom (event_table_get_ctx (event_map example_lib)) \<subseteq> {1..8}"
proof -
  show "table_ok (event_map example_lib)" using example_ready by (simp add: ready_def)
  let ?t = "event_table_init \<lparr>entry_count = 0,
    entries = replicate 8 \<lparr>ev_idx = 0, in_use = False, ev_ctx = zero_context\<rparr>\<rparr>"
  have t: "table_ok ?t" "event_table_get_ctx ?t = Map.empty"
    by (rule init_ok, simp add: ROBFLEX_MAX_LOCAL_EVENT_CTX_def)+
  have "valid_event 3" by (simp add: valid_event_def ROBFLEX_EVENT_NONE_def MAX_EVENT_NUM_def)
  then show "dom (event_table_get_ctx (event_map example_lib)) \<subseteq> {1..8}"
    using ctxs.insert_lookup [OF t(1), of 3 "example_context PREDETERMINED 2"] t(2)
    by (auto simp: example_lib_def example_table_def split: if_splits)
qed

lemma example_accepted: "\<exists>s'. parse_config_file P (example_cjson d) (example_doc (JText t)) example_lib = Some (0, s')"
proof -
  obtain c w where "apply_policy_object_to_local_context P (example_cjson d) (example_policy ''immediate'')
      (loc_ctx example_lib) (kworld example_lib) = Some (0, c, w)"
    using well_formed_applied [OF example_well_formed] by metis
  moreover have "table_of (example_cjson d) (example_doc (JText t)) =
      Some (example_table_json (JText t), example_policy ''immediate'')"
    by (simp add: table_of_def example_table_of)
  ultimately show ?thesis
    using apply_entries_succeeds [of "example_lib\<lparr>loc_ctx := c, kworld := w\<rparr>"
        "jd_children (example_cjson d) (example_table_json (JText t))" "example_cjson d" P] example_slots
    by (simp add: parse_config_file_table example_table_of example_events example_well_formed)
qed

theorem config_in_force_witness:
  "\<exists>s'. setup_config_from_file example_platform (\<lambda>kvs. None) (example_cjson (example_doc (JText ''text''))) example_file
      (Some ''robflex.json'') example_lib = Some (0, s') \<and> table_ok (event_map s')"
proof -
  let ?j = "example_cjson (example_doc (JText ''text''))"
  obtain s' where "parse_config_file example_platform ?j (example_doc (JText ''text'')) example_lib = Some (0, s')"
    using example_accepted by blast
  then have s': "setup_config_from_file example_platform (\<lambda>kvs. None) ?j example_file (Some ''robflex.json'') example_lib =
      Some (0, s')"
    by (simp add: setup_config_from_file_def example_file_def Let_def) (simp add: example_cjson_def)
  then show ?thesis using config_in_force [OF s' example_slots(1)] by blast
qed

theorem well_formed_config_accepted_witness:
  "\<exists>s'. parse_config_file example_platform (example_cjson (example_doc (JText ''text''))) (example_doc (JText ''text''))
      example_lib = Some (0, s')"
  by (rule well_formed_config_accepted [OF example_table_of(1,2) example_well_formed _ example_slots])
    (simp add: example_table_of example_events example_well_formed)

theorem refused_config_half_applied_witness:
  "\<exists>s' c. parse_config_file example_platform (example_cjson (example_doc (JObject []))) (example_doc (JObject []))
      example_lib = Some (1, s') \<and> policy (loc_ctx s') = IMMEDIATE \<and> event_table_get_ctx (event_map s') 3 = Some c \<and>
      policy c = LATENCY_ORIENTED"
proof -
  let ?j = "example_cjson (example_doc (JObject []))"
  let ?kvs = "[(Some ''default'', example_policy ''immediate''), (Some ''high_speed'', example_policy ''latency_oriented'')]"
  have p: "obeys ?j (example_policy q) c \<Longrightarrow> policy c = parse_policy_string (Some q)" for q c
    by (simp add: obeys_def example_cjson_def example_policy_def)
  have "configured ?j ?kvs Map.empty 3 = Some (example_policy ''latency_oriented'')"
    by (simp add: example_events ROBFLEX_EVENT_NONE_def)
  moreover have "jd_children ?j (example_table_json (JObject [])) = ?kvs @ (Some ''emergency_stop'', JObject []) # []"
    "\<forall>kv \<in> set ?kvs. entry_event ?j kv \<noteq> ROBFLEX_EVENT_NONE \<longrightarrow> well_formed ?j (snd kv)"
    "entry_event ?j (Some ''emergency_stop'', JObject []) \<noteq> ROBFLEX_EVENT_NONE"
    by (simp_all add: example_table_of example_events example_well_formed ROBFLEX_EVENT_NONE_def)
  moreover have "jd_get ?j (snd (Some ''emergency_stop'', JObject [])) ''policy'' \<bind> jd_string ?j = None"
    by (simp add: example_cjson_def)
  ultimately obtain s' c where "parse_config_file example_platform ?j (example_doc (JObject [])) example_lib = Some (1, s')"
    "obeys ?j (example_policy ''immediate'') (loc_ctx s')" "event_table_get_ctx (event_map s') 3 = Some c"
    "obeys ?j (example_policy ''latency_oriented'') c"
    using refused_config_half_applied [OF example_table_of(1,2) example_well_formed _ _ _ _ example_slots,
        of "example_doc (JObject [])" "JObject []" ?kvs "(Some ''emergency_stop'', JObject [])" "[]" example_platform]
    by blast
  then show ?thesis using p by (auto simp: parse_policy_string_def)
qed

end
