(* ===== verification/ThreadSetup.thy ===== *)
theory ThreadSetup
  imports Config
begin

text \<open>
  How a thread comes under control (the second half of \<open>src/dym_hook.c\<close>, with the mapping of
  the shared memory in \<open>robflex_api.c\<close> and the switches of \<open>robflex_api.h\<close>): the mapping, the
  configuration, the performance counter and its signals, and the clean-up, which the
  interposed \<open>pthread_create\<close>, \<open>clone\<close> and \<open>fork\<close> put around the program's own code. The
  system calls on the counter are a parameter; what is done with its descriptor is recorded
  in \<open>fd_calls\<close>, the latest call last. \<open>None\<close> is undefined behaviour or a failed assertion.
\<close>

subsection \<open>The state of a thread\<close>

datatype rt_signal = PERF_SIGNAL | CPI_SET_SIGNAL

datatype fcntl_cmd = F_SETFL_ASYNC | F_SETOWN_TID | F_SETSIG_PERF

record 'w sys_calls =
  map_shmem :: "'w \<Rightarrow> bool \<times> 'w" \<comment> \<open>\<open>shm_open\<close>, \<open>mmap\<close> and \<open>close\<close>\<close>
  perf_event_open :: "u64 \<Rightarrow> 'w \<Rightarrow> int \<times> 'w" \<comment> \<open>of the sample period\<close>
  sigaction :: "rt_signal \<Rightarrow> 'w \<Rightarrow> bool \<times> 'w"
  fcntl_call :: "fcntl_cmd \<Rightarrow> int \<Rightarrow> 'w \<Rightarrow> bool \<times> 'w"

datatype fd_call = Opened int u64 | Enabled int | Disabled int | Closed int

record 'w thread =
  library :: "'w lib"
  perf_fd :: int
  fd_calls :: "fd_call list"

definition ask :: "('w \<Rightarrow> 'b \<times> 'w) \<Rightarrow> 'w thread \<Rightarrow> 'b \<times> 'w thread" where
  "ask f t = (let (x, w) = f (kworld (library t)) in (x, t\<lparr>library := (library t)\<lparr>kworld := w\<rparr>\<rparr>))"

definition on_fd :: "(int \<Rightarrow> fd_call) \<Rightarrow> 'w thread \<Rightarrow> 'w thread" where
  "on_fd c t = t\<lparr>fd_calls := fd_calls t @ [c (perf_fd t)]\<rparr>"

definition in_library :: "'w call \<Rightarrow> 'w thread \<Rightarrow> (int \<times> 'w thread) option" where
  "in_library f t = map_option (\<lambda>(r, s). (r, t\<lparr>library := s\<rparr>)) (f (library t))"

subsection \<open>The switches\<close>

definition is_robflex_enabled :: "'w platform \<Rightarrow> 'w \<Rightarrow> bool" where
  "is_robflex_enabled P w \<longleftrightarrow> getenv P w ''ROBFLEX_ENABLE_FEATURES'' = Some ''1''"

definition get_runmode_env :: "'w platform \<Rightarrow> 'w \<Rightarrow> int" where
  "get_runmode_env P w = (case getenv P w ''ROBFLEX_RUNMODE'' of
     None \<Rightarrow> YIELDING
   | Some env \<Rightarrow>
       (if env = ''0'' \<or> env = ''YIELDING'' then YIELDING
        else if env = ''1'' \<or> env = ''PREDETERMINED'' then PREDETERMINED
        else if env = ''2'' \<or> env = ''IMMEDIATE'' then IMMEDIATE
        else if env = ''3'' \<or> env = ''LATENCY_ORIENTED'' then LATENCY_ORIENTED
        else YIELDING))"

subsection \<open>Setting up\<close>

definition init_shmem_data :: "'w sys_calls \<Rightarrow> 'w thread \<Rightarrow> bool \<times> 'w thread" where
  \<comment> \<open>\<open>_init_shmem_data\<close>: whether the result is not NULL\<close>
  "init_shmem_data K t =
     (if \<not> ptr_mapped (library t)
      then let (ok, t) = ask (map_shmem K) t
           in (ok, t\<lparr>library := (library t)\<lparr>ptr_mapped := ok\<rparr>\<rparr>)
      else (True, t))"

definition set_high_nice :: "'w platform \<Rightarrow> printer \<Rightarrow> 'w thread \<Rightarrow> (int \<times> 'w thread) option" where
  \<comment> \<open>\<open>SCHED_OTHER\<close> is 0\<close>
  "set_high_nice P pr t = do {
     (r, t) \<leftarrow> in_library (\<lambda>s. robflex_set_scheduler_c P pr (c_gettid P (kworld s)) 0 (- 20) s) t;
     Some (0, t) }"

definition attach_signal :: "'w platform \<Rightarrow> 'w sys_calls \<Rightarrow> 'w thread \<Rightarrow> int \<times> 'w thread" where
  \<comment> \<open>\<open>setup_perf_ctrl\<close> from the installation of the handler on\<close>
  "attach_signal P K t =
     (let (ok, t) = ask (sigaction K PERF_SIGNAL) t in
      if \<not> ok then (1, on_fd Closed t)
      else let (ok, t) = ask (fcntl_call K F_SETFL_ASYNC (perf_fd t)) t in
      if \<not> ok then (1, t)
      else let (ok, t) = ask (fcntl_call K F_SETOWN_TID (perf_fd t)) t in
      if \<not> ok then (1, t)
      else let (ok, t) = ask (fcntl_call K F_SETSIG_PERF (perf_fd t)) t in
      if \<not> ok then (1, on_fd Closed t)
      else let (now, t) = ask (clock P) t in
        (0, on_fd Enabled (t\<lparr>library := (library t)\<lparr>past := now\<rparr>\<rparr>)))"

definition open_counter :: "'w platform \<Rightarrow> 'w sys_calls \<Rightarrow> 'w thread \<Rightarrow> int \<times> 'w thread" where
  \<comment> \<open>\<open>setup_perf_ctrl\<close> from the opening of the counter on\<close>
  "open_counter P K t =
     (let period = get_instr_slice P (kworld (library t));
          (fd, t) = ask (perf_event_open K period) t;
          t = t\<lparr>perf_fd := fd\<rparr>
      in if fd < 0 then (1, t) else attach_signal P K (on_fd (\<lambda>fd. Opened fd period) t))"

definition close_counter :: "'w thread \<Rightarrow> 'w thread" where
  "close_counter t = (on_fd Closed (on_fd Disabled t))\<lparr>perf_fd := 0\<rparr>"

definition setup_perf_ctrl ::
    "'w platform \<Rightarrow> 'w sys_calls \<Rightarrow> printer \<Rightarrow> 'j cjson_doc \<Rightarrow> ('w \<Rightarrow> string \<Rightarrow> string option) \<Rightarrow>
     'w thread \<Rightarrow> (int \<times> 'w thread) option" where
  "setup_perf_ctrl P K pr j file t =
     (let t = (if 0 < perf_fd t then close_counter t else t);
          t = t\<lparr>library := (library t)\<lparr>event_map := event_table_init (event_map (library t))\<rparr>\<rparr>
      in do {
        (r, t) \<leftarrow> in_library (\<lambda>s. robflex_init_local_context P (get_runmode_env P (kworld s)) s) t;
        (r, t) \<leftarrow> in_library (setup_config_from_file P pr j file None) t;
        Some (open_counter P K t) })"

definition setup_param_recver :: "'w sys_calls \<Rightarrow> 'w thread \<Rightarrow> int \<times> 'w thread" where
  "setup_param_recver K t =
     (let (ok, t) = ask (sigaction K CPI_SET_SIGNAL) t in (if ok then 0 else 1, t))"

definition setup_robflex_if_enabled ::
    "'w platform \<Rightarrow> 'w sys_calls \<Rightarrow> printer \<Rightarrow> 'j cjson_doc \<Rightarrow> ('w \<Rightarrow> string \<Rightarrow> string option) \<Rightarrow>
     'w thread \<Rightarrow> 'w thread option" where
  \<comment> \<open>no status of the four steps is looked at\<close>
  "setup_robflex_if_enabled P K pr j file t =
     (if is_robflex_enabled P (kworld (library t)) then do {
        let (mapped, t) = init_shmem_data K t;
        let t = t\<lparr>library := (library t)\<lparr>g_mapped := mapped\<rparr>\<rparr>;
        (r, t) \<leftarrow> set_high_nice P pr t;
        (r, t) \<leftarrow> setup_perf_ctrl P K pr j file t;
        Some (snd (setup_param_recver K t)) }
      else Some t)"

subsection \<open>Cleaning up\<close>

definition perf_ctrl_cleanup :: "'w platform \<Rightarrow> printer \<Rightarrow> 'w thread \<Rightarrow> 'w thread option" where
  "perf_ctrl_cleanup P pr t =
     (if 0 < perf_fd t then do {
        (r, t) \<leftarrow> in_library (\<lambda>s. robflex_log_message_c P pr (c_gettid P (kworld s))
          ''target_ns:%llu, instr_cycles:%llu''
          [Arg_llu (time_slice_ns (aux (loc_ctx s))), Arg_llu (get_instr_slice P (kworld s))] s) t;
        (r, t) \<leftarrow> in_library (\<lambda>s. robflex_log_message_c P pr (c_gettid P (kworld s))
          ''perf_ctrl_cleanup, with avg_timecost_ns: %lld us, interrupt times: %d, sleeped time: %llu''
          [Arg_lld (avg_cost s div 1000), Arg_int (sint (interrupt_count s)), Arg_llu (sleeped_time s)] s) t;
        Some (close_counter t) }
      else Some t)"

subsection \<open>Around the program's code\<close>

definition thread_start_wrapper ::
    "'w platform \<Rightarrow> 'w sys_calls \<Rightarrow> printer \<Rightarrow> 'j cjson_doc \<Rightarrow> ('w \<Rightarrow> string \<Rightarrow> string option) \<Rightarrow>
     ('w thread \<Rightarrow> ('r \<times> 'w thread) option) \<Rightarrow> 'w thread \<Rightarrow> ('r \<times> 'w thread) option" where
  "thread_start_wrapper P K pr j file start_routine t = do {
     t \<leftarrow> setup_robflex_if_enabled P K pr j file t;
     (ret, t) \<leftarrow> start_routine t;
     t \<leftarrow> perf_ctrl_cleanup P pr t;
     Some (ret, t) }"

definition fork_hook ::
    "'w platform \<Rightarrow> 'w sys_calls \<Rightarrow> printer \<Rightarrow> 'j cjson_doc \<Rightarrow> ('w \<Rightarrow> string \<Rightarrow> string option) \<Rightarrow>
     int \<Rightarrow> 'w thread \<Rightarrow> (int \<times> 'w thread) option" where
  \<comment> \<open>after \<open>real_fork\<close> has returned \<open>pid\<close>\<close>
  "fork_hook P K pr j file pid t =
     (if pid = 0 then map_option (\<lambda>t. (pid, t)) (setup_robflex_if_enabled P K pr j file t) else Some (pid, t))"

subsection \<open>The configuration keeps the thread calm\<close>

definition in_range :: "'j cjson_doc \<Rightarrow> 'j \<Rightarrow> bool" where
  "in_range j obj \<longleftrightarrow> (case number_of j obj ''level'' of Some v \<Rightarrow> double_to_int v \<noteq> None | None \<Rightarrow> True) \<and>
     quantity j obj ''period_time_ns'' DEFUALT_PERIOD_TIME_IN_NS \<noteq> None \<and>
     quantity j obj ''period_cycles_quota'' DEFUALT_PERIOD_CYCLES_NUM \<noteq> None"

definition files_in_range :: "'j cjson_doc \<Rightarrow> ('w \<Rightarrow> string \<Rightarrow> string option) \<Rightarrow> bool" where
  \<comment> \<open>the numbers of the configuration files fit the fields they are converted to\<close>
  "files_in_range j file \<longleftrightarrow> (\<forall>w name content doc pt d.
     file w name = Some content \<and> jd_parse j (takeWhile (\<lambda>c. c \<noteq> CHR 0x00) content) = Some doc \<and>
     table_of j doc = Some (pt, d) \<longrightarrow> in_range j d \<and> (\<forall>kv \<in> set (jd_children j pt). in_range j (snd kv)))"

lemma calm_config [simp]: "calm (s\<lparr>loc_ctx := c\<rparr>) = calm s" "calm (s\<lparr>past := x\<rparr>) = calm s"
  by (simp_all add: calm_def ready_def)

lemma calm_table: "calm s \<Longrightarrow> table_ok t \<Longrightarrow> calm (s\<lparr>event_map := t\<rparr>)"
  by (simp add: calm_def ready_def)

lemma in_range_applied:
  assumes "in_range j obj"
  shows "apply_policy_object_to_local_context P j obj c w \<noteq> None"
  using assms
  by (auto simp: in_range_def apply_policy_object_to_local_context_def Let_def case_prod_beta
      split: option.splits)

definition keeps_calm :: "'w lib \<Rightarrow> (int \<times> 'w lib) option \<Rightarrow> bool" where
  "keeps_calm s r \<longleftrightarrow> (\<exists>n s'. r = Some (n, s') \<and> calm s' \<and> contexts s' = contexts s)"

lemma keeps_calmI: "calm s' \<Longrightarrow> contexts s' = contexts s \<Longrightarrow> keeps_calm s (Some (n, s'))"
  by (simp add: keeps_calm_def)

lemma keeps_calm_cong: "contexts s = contexts s' \<Longrightarrow> keeps_calm s r = keeps_calm s' r"
  by (simp add: keeps_calm_def)

lemma quiet_keeps_calm: "quiet_call s r \<Longrightarrow> keeps_calm s r"
  by (auto simp: quiet_call_def keeps_calm_def)

lemma apply_entries_calm:
  assumes "calm s" "\<forall>kv \<in> set kvs. in_range j (snd kv)"
  shows "keeps_calm s (apply_entries P j kvs s)"
  using assms
proof (induction kvs arbitrary: s)
  case Nil
  then show ?case by (simp add: keeps_calm_def)
next
  case (Cons kv kvs)
  show ?case
  proof (cases "entry_event j kv = ROBFLEX_EVENT_NONE")
    case True
    then show ?thesis using Cons by simp
  next
    case False
    obtain r c w where a: "apply_policy_object_to_local_context P j (snd kv) zero_context (kworld s) = Some (r, c, w)"
      using in_range_applied [of j "snd kv" P zero_context "kworld s"] Cons.prems(2) by auto
    let ?t = "snd (event_table_upsert (entry_event j kv) c (event_map s))"
    have "table_ok ?t" using ctxs.insert_inv [OF _ entry_event_range(1) [OF False]] Cons.prems
      by (simp add: calm_def ready_def)
    then have "calm ((s\<lparr>kworld := w\<rparr>)\<lparr>event_map := ?t\<rparr>)" using Cons.prems by (intro calm_table) simp_all
    then have "keeps_calm s (apply_entries P j kvs (s\<lparr>kworld := w, event_map := ?t\<rparr>))"
      using Cons.IH [of "s\<lparr>kworld := w, event_map := ?t\<rparr>"] Cons.prems(2) by (simp add: keeps_calm_def)
    then show ?thesis using False a Cons.prems by (simp add: case_prod_beta keeps_calmI)
  qed
qed

lemma parse_config_calm:
  assumes "calm s"
    and "\<And>pt d. table_of j doc = Some (pt, d) \<Longrightarrow> in_range j d \<and> (\<forall>kv \<in> set (jd_children j pt). in_range j (snd kv))"
  shows "keeps_calm s (parse_config_file P j doc s)"
proof (cases "table_of j doc")
  case None
  then show ?thesis using assms(1) by (simp add: parse_config_file_no_table keeps_calmI)
next
  case (Some td)
  then obtain pt d where td: "table_of j doc = Some (pt, d)" by (cases td) simp
  obtain r c w where a: "apply_policy_object_to_local_context P j d (loc_ctx s) (kworld s) = Some (r, c, w)"
    using in_range_applied [of j d P "loc_ctx s" "kworld s"] assms(2) [OF td] by auto
  have "calm (s\<lparr>loc_ctx := c, kworld := w\<rparr>)" using assms(1) by simp
  then show ?thesis
    using apply_entries_calm [of "s\<lparr>loc_ctx := c, kworld := w\<rparr>" "jd_children j pt" j P] assms(2) [OF td] a
    by (simp add: parse_config_file_table [OF td] keeps_calm_def)
qed

lemma plain_message: "c_format ''parse_config_file failed'' [] = Some ''parse_config_file failed''"
  by simp

lemma setup_config_calm:
  assumes "calm s" "files_in_range j file"
  shows "keeps_calm s (setup_config_from_file P pr j file path s)"
proof -
  let ?path = "(if path \<noteq> None then path else getenv P (kworld s) ''ROBFLEX_CONFIG_PATH'') \<bind> file (kworld s)"
  have "keeps_calm s (parse_config_file P j doc s \<bind> (\<lambda>(r, s).
      if r \<noteq> 0 then robflex_log_message_c P pr (c_gettid P (kworld s)) ''parse_config_file failed'' [] s \<bind>
        (\<lambda>(r', s). Some (1, s)) else Some (0, s)))"
    if "?path = Some content" "jd_parse j (takeWhile (\<lambda>c. c \<noteq> CHR 0x00) content) = Some doc" for content doc
  proof -
    note path = that(1)
    obtain name where "file (kworld s) name = Some content" using path unfolding bind_eq_Some_conv by blast
    then have "in_range j d \<and> (\<forall>kv \<in> set (jd_children j pt). in_range j (snd kv))"
      if "table_of j doc = Some (pt, d)" for pt d
      using assms(2) that \<open>jd_parse j _ = Some doc\<close> unfolding files_in_range_def by blast
    then obtain n u where u: "parse_config_file P j doc s = Some (n, u)" "calm u" "contexts u = contexts s"
      using parse_config_calm [OF assms(1), of j doc P] by (auto simp: keeps_calm_def)
    obtain n' v where "robflex_log_message_c P pr (c_gettid P (kworld u)) ''parse_config_file failed'' [] u = Some (n', v)"
        "calm v" "contexts v = contexts u"
      using commands_calm(6) [OF u(2) plain_message] by (fastforce simp: quiet_call_def)
    then show ?thesis using u by (simp add: keeps_calmI)
  qed
  then show ?thesis
    using assms(1) unfolding setup_config_from_file_def Let_def by (simp add: keeps_calmI split: option.split)
qed

subsection \<open>A thread under control\<close>

lemma ask_keeps [simp]:
  "calm (library (snd (ask f t))) = calm (library t)" "contexts (library (snd (ask f t))) = contexts (library t)"
  "perf_fd (snd (ask f t)) = perf_fd t" "fd_calls (snd (ask f t)) = fd_calls t"
  by (simp_all add: ask_def case_prod_beta)

lemma on_fd_simps [simp]:
  "library (on_fd c t) = library t" "perf_fd (on_fd c t) = perf_fd t" "fd_calls (on_fd c t) = fd_calls t @ [c (perf_fd t)]"
  by (simp_all add: on_fd_def)

lemma open_counter_calm:
  assumes "calm (library t)"
  shows "calm (library (snd (open_counter P K t)))" "contexts (library (snd (open_counter P K t))) = contexts (library t)"
  using assms by (simp_all add: open_counter_def attach_signal_def case_prod_beta Let_def)

definition thread_keeps :: "'w thread \<Rightarrow> (int \<times> 'w thread) option \<Rightarrow> bool" where
  "thread_keeps t r \<longleftrightarrow> (\<exists>n t'. r = Some (n, t') \<and> calm (library t') \<and>
     dom (contexts (library t')) = dom (contexts (library t)) \<and> perf_fd t' = perf_fd t \<and> fd_calls t' = fd_calls t)"

lemma in_library_keeps:
  "keeps_calm (library t) (f (library t)) \<Longrightarrow> thread_keeps t (in_library f t)"
  by (auto simp: keeps_calm_def thread_keeps_def in_library_def)

lemma in_library_init:
  assumes "calm (library t)"
  shows "thread_keeps t (in_library (\<lambda>s. robflex_init_local_context P (m s) s) t)"
  using init_safe [OF assms, of P "m (library t)"] by (auto simp: safe_step_def thread_keeps_def in_library_def)

lemma setup_perf_ctrl_calm:
  assumes "calm (library t)" "files_in_range j file"
  shows "\<exists>r t'. setup_perf_ctrl P K pr j file t = Some (r, t') \<and> calm (library t') \<and>
    dom (contexts (library t')) = dom (contexts (library t))"
proof -
  let ?c = "if 0 < perf_fd t then close_counter t else t"
  let ?t = "?c\<lparr>library := (library ?c)\<lparr>event_map := event_table_init (event_map (library ?c))\<rparr>\<rparr>"
  have c: "library ?c = library t" by (simp add: close_counter_def)
  have "calm ((library t)\<lparr>event_map := event_table_init (event_map (library t))\<rparr>)"
    using assms(1) by (intro calm_table init_ok(1)) (simp_all add: calm_def ready_def table_ok_def)
  then have k: "calm (library ?t)" "contexts (library ?t) = contexts (library t)" using c by simp_all
  obtain n u where u: "in_library (\<lambda>s. robflex_init_local_context P (get_runmode_env P (kworld s)) s) ?t = Some (n, u)"
    "calm (library u)" "dom (contexts (library u)) = dom (contexts (library t))"
    using in_library_init [OF k(1), of P "\<lambda>s. get_runmode_env P (kworld s)"] k(2) by (auto simp: thread_keeps_def)
  obtain n' v where v: "in_library (setup_config_from_file P pr j file None) u = Some (n', v)"
    "calm (library v)" "dom (contexts (library v)) = dom (contexts (library t))"
    using in_library_keeps [of u "setup_config_from_file P pr j file None", OF setup_config_calm [OF u(2) assms(2)]] u(3)
    by (auto simp: thread_keeps_def)
  show ?thesis
    using u(1) v open_counter_calm [OF v(2), of P K]
    by (simp add: setup_perf_ctrl_def Let_def) (metis prod.collapse)
qed


lemma setup_calm:
  assumes "is_robflex_enabled P (kworld (library t))" "fst (init_shmem_data K t)"
    and "\<not> in_critical (library t)" "n_signal_pendings (library t) = 0" "table_ok (event_map (library t))"
    and "files_in_range j file"
  shows "\<exists>t'. setup_robflex_if_enabled P K pr j file t = Some t' \<and> calm (library t') \<and>
    dom (contexts (library t')) = dom (contexts (library t))"
proof -
  obtain t1 where t1: "init_shmem_data K t = (True, t1)" using assms(2) by (cases "init_shmem_data K t") simp
  let ?t = "t1\<lparr>library := (library t1)\<lparr>g_mapped := True\<rparr>\<rparr>"
  have c: "calm (library ?t)" "contexts (library ?t) = contexts (library t)"
    using t1 assms(3-5) by (auto simp: init_shmem_data_def ask_def case_prod_beta Let_def calm_def ready_def
        split: if_splits)
  obtain n u where u: "in_library (\<lambda>s. robflex_set_scheduler_c P pr (c_gettid P (kworld s)) 0 (- 20) s) ?t = Some (n, u)"
    "calm (library u)" "dom (contexts (library u)) = dom (contexts (library t))"
    using in_library_keeps [of ?t "\<lambda>s. robflex_set_scheduler_c P pr (c_gettid P (kworld s)) 0 (- 20) s",
        OF quiet_keeps_calm [OF commands_calm(1) [OF c(1)]]] c(2)
    by (auto simp: thread_keeps_def)
  obtain r v where v: "setup_perf_ctrl P K pr j file u = Some (r, v)" "calm (library v)"
    "dom (contexts (library v)) = dom (contexts (library t))"
    using setup_perf_ctrl_calm [OF u(2) assms(6)] u(3) by metis
  have "setup_robflex_if_enabled P K pr j file t = Some (snd (setup_param_recver K v))"
    using assms(1) t1 u(1) v(1) by (simp add: setup_robflex_if_enabled_def set_high_nice_def)
  then show ?thesis using v by (simp add: setup_param_recver_def case_prod_beta Let_def)
qed


lemma cleanup_messages:
  "c_format ''target_ns:%llu, instr_cycles:%llu'' [Arg_llu a, Arg_llu b] =
     Some (''target_ns:'' @ show_int (uint a) @ '', instr_cycles:'' @ show_int (uint b))"
  "c_format ''perf_ctrl_cleanup, with avg_timecost_ns: %lld us, interrupt times: %d, sleeped time: %llu''
     [Arg_lld a, Arg_int n, Arg_llu b] =
     Some (''perf_ctrl_cleanup, with avg_timecost_ns: '' @ show_int (sint a) @ '' us, interrupt times: '' @ show_int n @
       '', sleeped time: '' @ show_int (uint b))"
  by simp_all

lemma cleanup_calm:
  assumes "calm (library t)"
  shows "\<exists>t'. perf_ctrl_cleanup P pr t = Some t' \<and> calm (library t') \<and> perf_fd t' \<le> 0"
proof (cases "0 < perf_fd t")
  case True
  let ?f = "\<lambda>s. robflex_log_message_c P pr (c_gettid P (kworld s)) ''target_ns:%llu, instr_cycles:%llu''
    [Arg_llu (time_slice_ns (aux (loc_ctx s))), Arg_llu (get_instr_slice P (kworld s))] s"
  let ?g = "\<lambda>s. robflex_log_message_c P pr (c_gettid P (kworld s))
    ''perf_ctrl_cleanup, with avg_timecost_ns: %lld us, interrupt times: %d, sleeped time: %llu''
    [Arg_lld (avg_cost s div 1000), Arg_int (sint (interrupt_count s)), Arg_llu (sleeped_time s)] s"
  obtain n u where u: "in_library ?f t = Some (n, u)" "calm (library u)"
    using in_library_keeps [of t ?f, OF quiet_keeps_calm [OF commands_calm(6) [OF assms cleanup_messages(1)]]]
    by (auto simp: thread_keeps_def)
  obtain n' v where v: "in_library ?g u = Some (n', v)" "calm (library v)"
    using in_library_keeps [of u ?g, OF quiet_keeps_calm [OF commands_calm(6) [OF u(2) cleanup_messages(2)]]]
    by (auto simp: thread_keeps_def)
  then show ?thesis using True u by (simp add: perf_ctrl_cleanup_def close_counter_def)
qed (use assms in \<open>simp add: perf_ctrl_cleanup_def\<close>)

definition api_program :: "'w platform \<Rightarrow> api_op list \<Rightarrow> nat list \<Rightarrow> 'w thread \<Rightarrow> (unit \<times> 'w thread) option" where
  \<comment> \<open>a start routine that makes the calls \<open>xs\<close> while the ticks of \<open>timing\<close> arrive\<close>
  "api_program P xs timing t =
     map_option (\<lambda>s. ((), t\<lparr>library := s\<rparr>)) (run_api P xs ((library t)\<lparr>arrivals := timing\<rparr>))"

subsection \<open>The life of a counter\<close>

lemma in_library_fd: "in_library f t = Some (r, t') \<Longrightarrow> perf_fd t' = perf_fd t \<and> fd_calls t' = fd_calls t"
  by (auto simp: in_library_def)

lemma cleanup_fd:
  assumes "perf_ctrl_cleanup P pr t = Some t'"
  shows "perf_fd t' = (if 0 < perf_fd t then 0 else perf_fd t)"
    "fd_calls t' = fd_calls t @ (if 0 < perf_fd t then [Disabled (perf_fd t), Closed (perf_fd t)] else [])"
  using assms
  by (auto simp: perf_ctrl_cleanup_def bind_eq_Some_conv close_counter_def dest!: in_library_fd split: if_splits)

lemma setup_fd:
  assumes "setup_perf_ctrl P K pr j file t = Some (r, t')" "perf_fd t \<le> 0" "fd_calls t = []"
  obtains u where "open_counter P K u = (r, t')" "fd_calls u = []"
  using assms
  by (auto simp: setup_perf_ctrl_def bind_eq_Some_conv Let_def dest!: in_library_fd)

lemma attach_signal_fd: "perf_fd (snd (attach_signal P K t)) = perf_fd t"
  by (simp add: attach_signal_def case_prod_beta Let_def)

lemma open_counter_perf_fd:
  assumes "open_counter P K u = (r, t')"
  shows "\<exists>period w. perf_fd t' = fst (perf_event_open K period w)"
proof -
  have "perf_fd (snd (open_counter P K u)) =
      fst (perf_event_open K (get_instr_slice P (kworld (library u))) (kworld (library u)))"
    by (simp add: open_counter_def attach_signal_fd case_prod_beta Let_def) (simp add: ask_def case_prod_beta)
  then show ?thesis using assms by auto
qed

lemma open_counter_fd:
  assumes "open_counter P K u = (r, t')" "fd_calls u = []"
  shows "(r = 1 \<and> perf_fd t' < 0 \<and> fd_calls t' = []) \<or>
    (\<exists>period. 0 \<le> perf_fd t' \<and>
      ((r = 0 \<and> fd_calls t' = [Opened (perf_fd t') period, Enabled (perf_fd t')]) \<or>
       (r = 1 \<and> fd_calls t' \<in> {[Opened (perf_fd t') period], [Opened (perf_fd t') period, Closed (perf_fd t')]})))"
  using assms by (auto simp: open_counter_def attach_signal_def case_prod_beta Let_def split: if_splits)

text \<open>
  What is done with the descriptor from the set-up to the end of the clean-up. A descriptor 0 is
  taken for none by the clean-up.
\<close>

definition counter_calls :: "int \<Rightarrow> fd_call list \<Rightarrow> bool" where
  \<comment> \<open>the calls that can go with a set-up that answered \<open>r\<close>\<close>
  "counter_calls r calls \<longleftrightarrow>
     (if r = 0 then (\<exists>fd period. 0 < fd \<and> calls = [Opened fd period, Enabled fd, Disabled fd, Closed fd]) \<or>
        (\<exists>period. calls = [Opened 0 period, Enabled 0])
      else calls = [] \<or>
        (\<exists>fd period. 0 < fd \<and>
          calls \<in> {[Opened fd period, Disabled fd, Closed fd], [Opened fd period, Closed fd, Disabled fd, Closed fd]}) \<or>
        (\<exists>period. calls \<in> {[Opened 0 period], [Opened 0 period, Closed 0]}))"

lemma open_cleanup_calls:
  assumes "open_counter P K u = (r, t)" "fd_calls u = []" "perf_ctrl_cleanup P pr v = Some w"
    and "perf_fd v = perf_fd t" "fd_calls v = fd_calls t"
  shows "counter_calls r (fd_calls w)" "perf_fd w \<le> 0"
  using open_counter_fd [OF assms(1,2)] cleanup_fd [OF assms(3)] assms(4,5)
  by (auto simp: counter_calls_def split: if_splits)

lemma counter_calls_closed:
  "counter_calls r calls \<Longrightarrow> Opened fd period \<in> set calls \<Longrightarrow> fd \<noteq> 0 \<Longrightarrow> \<exists>xs. calls = xs @ [Disabled fd, Closed fd]"
  by (auto simp: counter_calls_def split: if_splits)

lemma setup_robflex_fd:
  assumes "setup_robflex_if_enabled P K pr j file t = Some t'" "perf_fd t = 0" "fd_calls t = []"
    and "is_robflex_enabled P (kworld (library t))"
  obtains r u v where "open_counter P K u = (r, v)" "fd_calls u = []" "perf_fd t' = perf_fd v" "fd_calls t' = fd_calls v"
proof -
  let ?i = "snd (init_shmem_data K t)"
  let ?t = "?i\<lparr>library := (library ?i)\<lparr>g_mapped := fst (init_shmem_data K t)\<rparr>\<rparr>"
  have i: "perf_fd ?t = 0" "fd_calls ?t = []"
    using assms(2,3) by (simp_all add: init_shmem_data_def case_prod_beta Let_def)
  obtain n a r v where a: "in_library (\<lambda>s. robflex_set_scheduler_c P pr (c_gettid P (kworld s)) 0 (- 20) s) ?t = Some (n, a)"
    "setup_perf_ctrl P K pr j file a = Some (r, v)" "t' = snd (setup_param_recver K v)"
    using assms(1,4) by (auto simp: setup_robflex_if_enabled_def set_high_nice_def bind_eq_Some_conv case_prod_beta)
  have "perf_fd a \<le> 0" "fd_calls a = []" using in_library_fd [OF a(1)] i by simp_all
  from setup_fd [OF a(2) this] obtain u where "open_counter P K u = (r, v)" "fd_calls u = []" .
  then show thesis using that [of u r v] a(3) by (simp add: setup_param_recver_def case_prod_beta Let_def)
qed

text \<open>
  C7: a thread under control lives safely. Let control be enabled, the shared memory map, the
  event table be well formed, nothing be pending, no counter be open and the numbers of the
  configuration fit their fields. Then whatever the counter's system calls answer and
  whenever ticks arrive, a thread whose routine makes any sequence of valid API calls is set
  up, runs, is cleaned up and ends, outside the critical section with no tick left pending;
  and if a counter was opened then the last calls on it disable and close it, unless its
  descriptor is 0, which the clean-up takes for no counter.
\<close>

theorem thread_life:
  assumes "is_robflex_enabled P (kworld (library t))" "fst (init_shmem_data K t)"
    and "\<not> in_critical (library t)" "n_signal_pendings (library t) = 0" "table_ok (event_map (library t))"
    and "files_in_range j file" and "list_all (op_ok (dom (contexts (library t)))) xs"
    and "perf_fd t = 0" "fd_calls t = []"
  shows "\<exists>t'. thread_start_wrapper P K pr j file (api_program P xs timing) t = Some ((), t') \<and>
    calm (library t') \<and> perf_fd t' \<le> 0 \<and>
    (\<forall>fd period. Opened fd period \<in> set (fd_calls t') \<and> fd \<noteq> 0 \<longrightarrow>
      (\<exists>ys. fd_calls t' = ys @ [Disabled fd, Closed fd]))"
proof -
  obtain u where u: "setup_robflex_if_enabled P K pr j file t = Some u" "calm (library u)"
    "dom (contexts (library u)) = dom (contexts (library t))"
    using setup_calm [OF assms(1-6)] by metis
  have "calm ((library u)\<lparr>arrivals := timing\<rparr>)" using u(2) by (simp add: calm_def ready_def)
  then obtain s where s: "run_api P xs ((library u)\<lparr>arrivals := timing\<rparr>) = Some s" "calm s"
    using run_api_calm [of "(library u)\<lparr>arrivals := timing\<rparr>" xs P] u(3) assms(7) by auto
  obtain t' where t': "perf_ctrl_cleanup P pr (u\<lparr>library := s\<rparr>) = Some t'" "calm (library t')"
    using cleanup_calm [of "u\<lparr>library := s\<rparr>" P pr] s(2) by auto
  obtain r a v where "open_counter P K a = (r, v)" "fd_calls a = []" "perf_fd u = perf_fd v" "fd_calls u = fd_calls v"
    using setup_robflex_fd [OF u(1) assms(8,9,1)] .
  then have "counter_calls r (fd_calls t')" "perf_fd t' \<le> 0" using open_cleanup_calls [OF _ _ t'(1)] by simp_all
  then show ?thesis
    using u(1) s(1) t' counter_calls_closed by (fastforce simp: thread_start_wrapper_def api_program_def)
qed

subsection \<open>The calls on the counter\<close>

text \<open>
  C25: the counter is closed at the end, but not when its descriptor is 0. For a thread without
  a counter, and whatever the system calls answer, the calls made on the descriptor by the
  set-up and the clean-up are the following. With a positive descriptor: open, enable, disable
  and close when the set-up answers 0; open, disable and close when it answers 1; or (when the
  handler or its signal was refused) the set-up's own close and then the clean-up's, of a
  descriptor that is no longer the thread's. With a negative one: none. With the descriptor
  0, which the clean-up takes for no counter: open and enable when the set-up answers 0, so
  that the counter keeps running, and open, or open and close, when it answers 1.
\<close>

theorem counter_life:
  assumes "setup_perf_ctrl P K pr j file t = Some (r, t')" "perf_ctrl_cleanup P pr t' = Some t''"
    and "perf_fd t = 0" "fd_calls t = []"
  shows "perf_fd t'' \<le> 0 \<and>
    (r = 0 \<longrightarrow> (\<exists>fd period. 0 < fd \<and> fd_calls t'' = [Opened fd period, Enabled fd, Disabled fd, Closed fd]) \<or>
      (\<exists>period. fd_calls t'' = [Opened 0 period, Enabled 0])) \<and>
    (r \<noteq> 0 \<longrightarrow> fd_calls t'' = [] \<or>
      (\<exists>fd period. 0 < fd \<and> fd_calls t'' \<in>
         {[Opened fd period, Disabled fd, Closed fd], [Opened fd period, Closed fd, Disabled fd, Closed fd]}) \<or>
      (\<exists>period. fd_calls t'' \<in> {[Opened 0 period], [Opened 0 period, Closed 0]}))"
proof -
  obtain u where u: "open_counter P K u = (r, t')" "fd_calls u = []"
    using setup_fd [OF assms(1)] assms(3,4) by auto
  from open_cleanup_calls [OF u assms(2)] show ?thesis
    unfolding counter_calls_def by (cases "r = 0") simp_all
qed

lemma refused_handler_closes_twice:
  assumes "setup_perf_ctrl P K pr j file t = Some (r, t')" "perf_ctrl_cleanup P pr t' = Some t''"
    and "perf_fd t = 0" "fd_calls t = []" "\<And>period w. 0 < fst (perf_event_open K period w)"
    and "\<And>w. \<not> fst (sigaction K PERF_SIGNAL w)"
  shows "\<exists>fd period. fd_calls t'' = [Opened fd period, Closed fd, Disabled fd, Closed fd]"
proof -
  obtain u where u: "open_counter P K u = (r, t')" "fd_calls u = []"
    using setup_fd [OF assms(1)] assms(3,4) by auto
  have f: "0 < perf_fd t'" using open_counter_perf_fd [OF u(1)] assms(5) by metis
  have "\<not> fst (ask (sigaction K PERF_SIGNAL) v)" for v using assms(6) by (simp add: ask_def case_prod_beta)
  then have "\<exists>period. fd_calls t' = [Opened (perf_fd t') period, Closed (perf_fd t')]"
    using u f by (auto simp: open_counter_def attach_signal_def case_prod_beta Let_def split: if_splits)
  then show ?thesis using cleanup_fd(2) [OF assms(2)] f by auto
qed

subsection \<open>Without the shared memory\<close>

lemma print_and_send_runs:
  assumes "arrivals s = []"
  shows "\<exists>r w fd. print_and_send P pr obj s = Some (r, s\<lparr>kworld := w, socket_fd := fd\<rparr>)"
proof -
  have "\<exists>r s'. print_and_send P pr obj s = Some (r, s') \<and> s' = s\<lparr>kworld := kworld s', socket_fd := socket_fd s'\<rparr>"
    using assms
    by (auto simp: print_and_send_def send_command_to_daemon_c_def send_text_def deliver_none case_prod_beta Let_def
        split: option.split)
  then show ?thesis by metis
qed

lemma init_local_context_runs:
  assumes "arrivals s = []"
  shows "robflex_init_local_context P m s = Some (0, s\<lparr>loc_ctx := (loc_ctx s)\<lparr>policy := m,
    aux := set_time_budgets 0 (set_time_slice_ns DEFUALT_PERIOD_TIME_IN_NS (aux (loc_ctx s))),
    avg_timecost_ns := DEFUALT_PERIOD_TIME_IN_NS\<rparr>, in_critical := False, n_signal_pendings := 0\<rparr>)"
  using assms
  by (simp add: robflex_init_local_context_def stmt_def deliver_none own_aux_def upd_aux_def read_ctx_def write_ctx_def
      set_policy_def leave_critical_def)

lemma ask_library [simp]:
  "ptr_mapped (library (snd (ask f t))) = ptr_mapped (library t)"
  "event_map (library (snd (ask f t))) = event_map (library t)" "loc_ctx (library (snd (ask f t))) = loc_ctx (library t)"
  "in_critical (library (snd (ask f t))) = in_critical (library t)"
  by (simp_all add: ask_def case_prod_beta)

lemma open_counter_library:
  "ptr_mapped (library (snd (open_counter P K t))) = ptr_mapped (library t)"
  "event_map (library (snd (open_counter P K t))) = event_map (library t)"
  "loc_ctx (library (snd (open_counter P K t))) = loc_ctx (library t)"
  "in_critical (library (snd (open_counter P K t))) = in_critical (library t)"
  by (simp_all add: open_counter_def attach_signal_def case_prod_beta Let_def)

lemma open_counter_armed:
  assumes "\<And>period w. 0 < fst (perf_event_open K period w)" "\<And>w. fst (sigaction K PERF_SIGNAL w)"
    and "\<And>c fd w. fst (fcntl_call K c fd w)"
  shows "0 < perf_fd (snd (open_counter P K t)) \<and>
    last (fd_calls (snd (open_counter P K t))) = Enabled (perf_fd (snd (open_counter P K t)))"
proof -
  have "fst (ask (sigaction K PERF_SIGNAL) t)" "fst (ask (fcntl_call K c fd) t)"
    "0 < fst (ask (perf_event_open K p) t)" "\<not> fst (ask (perf_event_open K p) t) < 0" for t c fd p
    using assms by (simp_all add: ask_def case_prod_beta less_imp_not_less)
  then show ?thesis
    by (simp add: open_counter_def attach_signal_def case_prod_beta Let_def)
qed

lemma select_none:
  "\<forall>i \<in> set is. \<not> in_use (entries (event_map s) ! i) \<Longrightarrow> select_ctx P s is highest ctx = Some ctx"
  by (induction "is") (auto simp: Let_def)

lemma unmapped_tick:
  assumes "\<not> ptr_mapped s" "policy (loc_ctx s) = PREDETERMINED" "event_map s = event_table_init m"
    and "length (entries m) = ROBFLEX_MAX_LOCAL_EVENT_CTX"
  shows "handle_tick P s = None"
proof -
  have "tick_ctx P (s\<lparr>interrupt_count := interrupt_count s + 1\<rparr>) = Some Own"
    unfolding tick_ctx_def using assms(3,4) by (intro select_none) (simp add: event_table_init_def)
  then show ?thesis
    using assms(1,2) by (simp add: handle_tick_def dispatch_tick_def read_ctx_def policy_defs handle_tick_yielding_def
        system_busy_degree_def)
qed

text \<open>
  C27: without the daemon's memory a predetermined thread dies at its first tick. When the
  mapping fails, the run mode is \<open>PREDETERMINED\<close> and no configuration is named, and the
  counter and its signal can be had, the set-up goes on all the same: the last thing it does
  with the new counter is to enable it, and the signal of the first tick, which is not put off,
  fails the assertion that the memory is mapped.
\<close>

theorem unmapped_thread_aborts:
  assumes "\<And>w. is_robflex_enabled P w" "\<And>w. get_runmode_env P w = PREDETERMINED"
    and "\<And>w. getenv P w ''ROBFLEX_CONFIG_PATH'' = None"
    and "\<not> ptr_mapped (library t)" "\<And>w. \<not> fst (map_shmem K w)" "arrivals (library t) = []"
    and "length (entries (event_map (library t))) = ROBFLEX_MAX_LOCAL_EVENT_CTX"
    and "\<And>period w. 0 < fst (perf_event_open K period w)" "\<And>w. fst (sigaction K PERF_SIGNAL w)"
    and "\<And>c fd w. fst (fcntl_call K c fd w)"
  shows "\<exists>t'. setup_robflex_if_enabled P K pr j file t = Some t' \<and> 0 < perf_fd t' \<and>
    last (fd_calls t') = Enabled (perf_fd t') \<and> instruction_interrupt_handler P (library t') = None"
proof -
  obtain w where i: "init_shmem_data K t = (False, t\<lparr>library := (library t)\<lparr>kworld := w, ptr_mapped := False\<rparr>\<rparr>)"
    using assms(4,5) by (auto simp: init_shmem_data_def ask_def case_prod_beta Let_def)
  let ?s = "(library t)\<lparr>kworld := w, ptr_mapped := False, g_mapped := False\<rparr>"
  obtain r w1 fd where n: "robflex_set_scheduler_c P pr (c_gettid P w) 0 (- 20) ?s = Some (r, ?s\<lparr>kworld := w1, socket_fd := fd\<rparr>)"
    using print_and_send_runs [of ?s P pr] assms(6) by (fastforce simp: robflex_set_scheduler_c_def)
  let ?u = "t\<lparr>library := ?s\<lparr>kworld := w1, socket_fd := fd\<rparr>\<rparr>"
  let ?c = "if 0 < perf_fd ?u then close_counter ?u else ?u"
  let ?l = "(library ?u)\<lparr>event_map := event_table_init (event_map (library t))\<rparr>"
  let ?k = "?l\<lparr>loc_ctx := (loc_ctx ?l)\<lparr>policy := PREDETERMINED,
    aux := set_time_budgets 0 (set_time_slice_ns DEFUALT_PERIOD_TIME_IN_NS (aux (loc_ctx ?l))),
    avg_timecost_ns := DEFUALT_PERIOD_TIME_IN_NS\<rparr>, in_critical := False, n_signal_pendings := 0\<rparr>"
  let ?v = "?c\<lparr>library := ?k\<rparr>"
  have c: "library ?c = library ?u" by (simp add: close_counter_def)
  have "robflex_init_local_context P PREDETERMINED ?l = Some (0, ?k)"
    by (rule init_local_context_runs) (simp add: assms(6))
  then have m: "in_library (\<lambda>s. robflex_init_local_context P (get_runmode_env P (kworld s)) s)
      (?c\<lparr>library := (library ?c)\<lparr>event_map := event_table_init (event_map (library ?c))\<rparr>\<rparr>) = Some (0, ?v)"
    unfolding c in_library_def assms(2) by simp
  have "in_library (setup_config_from_file P pr j file None) ?v = Some (1, ?v)"
    by (simp add: in_library_def setup_config_from_file_def assms(3))
  then have "setup_perf_ctrl P K pr j file ?u = Some (open_counter P K ?v)"
    using m unfolding setup_perf_ctrl_def Let_def by simp
  then have "setup_robflex_if_enabled P K pr j file t = Some (snd (setup_param_recver K (snd (open_counter P K ?v))))"
    using i n assms(1) by (simp add: setup_robflex_if_enabled_def set_high_nice_def in_library_def case_prod_beta)
  moreover have "handle_tick P (library (snd (setup_param_recver K (snd (open_counter P K ?v))))) = None"
    by (rule unmapped_tick [of _ "event_map (library t)"])
      (simp_all add: setup_param_recver_def case_prod_beta Let_def open_counter_library assms(7))
  moreover have "\<not> in_critical (library (snd (setup_param_recver K (snd (open_counter P K ?v)))))"
    by (simp add: setup_param_recver_def case_prod_beta Let_def open_counter_library)
  moreover note open_counter_armed [OF assms(8-10), of P ?v]
  ultimately show ?thesis
    by (simp add: instruction_interrupt_handler_def setup_param_recver_def case_prod_beta Let_def)
qed


subsection \<open>Examples\<close>

definition example_calls :: "bool \<Rightarrow> bool \<Rightarrow> u64 sys_calls" where
  "example_calls maps installs = \<lparr>map_shmem = (\<lambda>w. (maps, w)), perf_event_open = (\<lambda>p w. (7, w + 1)),
     sigaction = (\<lambda>sig w. (installs, w)), fcntl_call = (\<lambda>c fd w. (True, w))\<rparr>"

definition example_thread :: "u64 thread" where
  "example_thread = \<lparr>library = example_lib\<lparr>ptr_mapped := False, g_mapped := False\<rparr>, perf_fd = 0, fd_calls = []\<rparr>"

definition enabled_platform :: "u64 platform" where
  "enabled_platform = example_platform\<lparr>getenv := (\<lambda>w n.
     if n = ''ROBFLEX_ENABLE_FEATURES'' then Some ''1''
     else if n = ''ROBFLEX_RUNMODE'' then Some ''PREDETERMINED'' else None)\<rparr>"

lemma example_enabled:
  "is_robflex_enabled enabled_platform w" "get_runmode_env enabled_platform w = PREDETERMINED"
  "getenv enabled_platform w ''ROBFLEX_CONFIG_PATH'' = None"
  by (simp_all add: is_robflex_enabled_def get_runmode_env_def enabled_platform_def)

lemma example_in_range: "files_in_range (example_cjson (example_doc (JText x))) example_file"
proof -
  let ?j = "example_cjson (example_doc (JText x))"
  have p: "in_range ?j (example_policy q)" for q
    using example_well_formed by (auto simp: well_formed_def in_range_def)
  have t: "in_range ?j (JText x)"
    by (simp add: in_range_def number_of_def quantity_def example_cjson_def)
  have r: "in_range ?j d \<and> (\<forall>kv \<in> set (jd_children ?j pt). in_range ?j (snd kv))"
    if "jd_parse ?j content = Some doc" "table_of ?j doc = Some (pt, d)" for content doc pt d
  proof -
    have "doc = example_doc (JText x)" using that(1) by (auto simp: example_cjson_def split: if_splits)
    then have "pt = example_table_json (JText x)" "d = example_policy ''immediate''"
      using that(2) by (simp_all add: table_of_def example_table_of)
    then show ?thesis using p t by (simp add: example_table_of)
  qed
  then show ?thesis unfolding files_in_range_def by blast
qed

lemma example_thread_facts:
  "fst (init_shmem_data (example_calls True b) example_thread)" "\<not> ptr_mapped (library example_thread)"
  "\<not> in_critical (library example_thread)" "n_signal_pendings (library example_thread) = 0"
  "table_ok (event_map (library example_thread))" "arrivals (library example_thread) = []"
  "perf_fd example_thread = 0" "fd_calls example_thread = []"
  using example_slots(1)
  by (simp_all add: init_shmem_data_def ask_def example_calls_def example_thread_def example_lib_def)

theorem thread_life_witness:
  "\<exists>t'. thread_start_wrapper enabled_platform (example_calls True False) print_members
      (example_cjson (example_doc (JText ''text''))) example_file
      (api_program enabled_platform [Set_time_for_throttle 2000000, Clear_time_budget, Test_event 3] [1, 0, 2, 3])
      example_thread = Some ((), t') \<and> calm (library t') \<and> perf_fd t' \<le> 0 \<and>
    (\<forall>fd period. Opened fd period \<in> set (fd_calls t') \<and> fd \<noteq> 0 \<longrightarrow>
      (\<exists>ys. fd_calls t' = ys @ [Disabled fd, Closed fd]))"
  by (rule thread_life [OF example_enabled(1) example_thread_facts(1,3-5) example_in_range _ example_thread_facts(7,8)])
    (simp add: MAX_EVENT_NUM_def)

lemma example_counter:
  "\<exists>r t' t''. setup_perf_ctrl enabled_platform (example_calls True b) print_members
      (example_cjson (example_doc (JText ''text''))) example_file (example_thread\<lparr>library := example_lib\<rparr>) = Some (r, t') \<and>
    perf_ctrl_cleanup enabled_platform print_members t' = Some t'' \<and> (r = 0 \<longleftrightarrow> b)"
proof -
  let ?t = "example_thread\<lparr>library := example_lib\<rparr>"
  have c: "calm (library ?t)" using example_ready by (simp add: calm_def example_lib_def ready_def)
  obtain r t' where s: "setup_perf_ctrl enabled_platform (example_calls True b) print_members
      (example_cjson (example_doc (JText ''text''))) example_file ?t = Some (r, t')" "calm (library t')"
    using setup_perf_ctrl_calm [OF c example_in_range] by metis
  moreover obtain u where "open_counter enabled_platform (example_calls True b) u = (r, t')"
    using setup_fd [OF s(1)] by (auto simp: example_thread_def)
  then have "r = 0 \<longleftrightarrow> b"
    by (auto simp: open_counter_def attach_signal_def ask_def example_calls_def case_prod_beta Let_def split: if_splits)
  ultimately show ?thesis using cleanup_calm [OF s(2)] by blast
qed

theorem counter_life_witness:
  "\<exists>r t' t'' fd period. setup_perf_ctrl enabled_platform (example_calls True True) print_members
      (example_cjson (example_doc (JText ''text''))) example_file (example_thread\<lparr>library := example_lib\<rparr>) = Some (r, t') \<and>
    perf_ctrl_cleanup enabled_platform print_members t' = Some t'' \<and>
    fd_calls t'' = [Opened fd period, Enabled fd, Disabled fd, Closed fd]"
proof -
  obtain r t' t'' where r: "setup_perf_ctrl enabled_platform (example_calls True True) print_members
      (example_cjson (example_doc (JText ''text''))) example_file (example_thread\<lparr>library := example_lib\<rparr>) = Some (r, t')"
    "perf_ctrl_cleanup enabled_platform print_members t' = Some t''" "r = 0"
    using example_counter [of True] by blast
  obtain u where "open_counter enabled_platform (example_calls True True) u = (r, t')"
    using setup_fd [OF r(1)] by (auto simp: example_thread_def)
  then have "perf_fd t' = 7"
    using open_counter_perf_fd by (fastforce simp: example_calls_def)
  then have "fd_calls t'' \<noteq> [Opened 0 period, Enabled 0]" for period
    using cleanup_fd(2) [OF r(2)] by simp
  then show ?thesis
    using counter_life [OF r(1,2)] r example_thread_facts(7,8)
    by (metis thread.select_convs thread.update_convs(1) thread.surjective)
qed

theorem unmapped_thread_aborts_witness:
  "\<exists>t'. setup_robflex_if_enabled enabled_platform (example_calls False True) print_members
      (example_cjson (example_doc (JText ''text''))) example_file example_thread = Some t' \<and> 0 < perf_fd t' \<and>
    last (fd_calls t') = Enabled (perf_fd t') \<and>
    instruction_interrupt_handler enabled_platform (library t') = None"
  by (rule unmapped_thread_aborts [OF example_enabled(1-3) example_thread_facts(2) _ example_thread_facts(6)])
    (use example_thread_facts(5) in \<open>simp_all add: example_calls_def table_ok_def\<close>)

end
