(* ===== verification/ThreadHooks.thy ===== *)
theory ThreadHooks
  imports ThreadSetup
begin

text \<open>
  What is left of \<open>src/dym_hook.c\<close>: the functions that replace \<open>pthread_create\<close> and \<open>clone\<close>, with
  the arguments they pass on, and the handler \<open>handle_tick_predetermined\<close>, which nothing calls.
  The real functions, \<open>malloc\<close> and \<open>nanosleep\<close> are the system's.
\<close>

subsection \<open>Starting threads\<close>

datatype start_fn = Own_fn | Wrapper \<comment> \<open>the program's function, or the wrapper around it\<close>

definition pthread_create_hook :: "bool \<Rightarrow> start_fn option" where
  \<comment> \<open>what \<open>real_pthread_create\<close> is to start; the result of \<open>malloc\<close> is not checked\<close>
  "pthread_create_hook malloc_ok = (if malloc_ok then Some Wrapper else None)"

definition CLONE_SETTLS :: u32 where "CLONE_SETTLS = 0x00080000"
definition CLONE_THREAD :: u32 where "CLONE_THREAD = 0x00010000"
definition CLONE_PARENT_SETTID :: u32 where "CLONE_PARENT_SETTID = 0x00100000"
definition CLONE_CHILD_CLEARTID :: u32 where "CLONE_CHILD_CLEARTID = 0x00200000"
definition CLONE_CHILD_SETTID :: u32 where "CLONE_CHILD_SETTID = 0x01000000"

record clone_call =
  cl_start :: start_fn
  cl_flags :: u32
  cl_args :: "u64 list" \<comment> \<open>the variable arguments: \<open>ptid\<close>, \<open>tls\<close>, \<open>ctid\<close>\<close>

definition va_arg_if :: "bool \<Rightarrow> u64 list \<Rightarrow> (u64 \<times> u64 list) option" where
  \<comment> \<open>\<open>x = NULL; if (b) x = va_arg(ap, void *)\<close>; undefined when there is no argument left\<close>
  "va_arg_if b ap = (if b then (case ap of [] \<Rightarrow> None | x # ap' \<Rightarrow> Some (x, ap')) else Some (0, ap))"

definition clone_hook :: "bool \<Rightarrow> u32 \<Rightarrow> u64 list \<Rightarrow> clone_call option" where
  \<comment> \<open>the call of \<open>real_clone\<close>; \<open>ap\<close> are the variable arguments the program gave\<close>
  "clone_hook malloc_ok flags ap =
     (if flags AND CLONE_THREAD = 0
      then Some \<lparr>cl_start = Own_fn, cl_flags = flags, cl_args = []\<rparr>
      else if \<not> malloc_ok then None
      else do {
        (ptid, ap) \<leftarrow> va_arg_if (flags AND CLONE_PARENT_SETTID \<noteq> 0) ap;
        (tls, ap) \<leftarrow> va_arg_if (flags AND CLONE_SETTLS \<noteq> 0) ap;
        (ctid, ap) \<leftarrow> va_arg_if (flags AND CLONE_CHILD_SETTID \<noteq> 0) ap;
        Some \<lparr>cl_start = Wrapper, cl_flags = flags, cl_args = [ptid, tls, ctid]\<rparr> })"

definition clone_return ::
    "'w platform \<Rightarrow> 'w sys_calls \<Rightarrow> printer \<Rightarrow> 'j cjson_doc \<Rightarrow> ('w \<Rightarrow> string \<Rightarrow> string option) \<Rightarrow>
     u32 \<Rightarrow> int \<Rightarrow> 'w thread \<Rightarrow> (int \<times> 'w thread) option" where
  \<comment> \<open>after \<open>real_clone\<close> has returned \<open>pid\<close>\<close>
  "clone_return P K pr j file flags pid t =
     (if flags AND CLONE_THREAD = 0 \<and> pid = 0
      then map_option (\<lambda>t. (pid, t)) (setup_robflex_if_enabled P K pr j file t)
      else Some (pid, t))"

definition clone_start_wrapper ::
    "'w platform \<Rightarrow> 'w sys_calls \<Rightarrow> printer \<Rightarrow> 'j cjson_doc \<Rightarrow> ('w \<Rightarrow> string \<Rightarrow> string option) \<Rightarrow>
     ('w thread \<Rightarrow> (int \<times> 'w thread) option) \<Rightarrow> 'w thread \<Rightarrow> (int \<times> 'w thread) option" where
  "clone_start_wrapper P K pr j file fn t = do {
     t \<leftarrow> setup_robflex_if_enabled P K pr j file t;
     (ret, t) \<leftarrow> fn t;
     t \<leftarrow> perf_ctrl_cleanup P pr t;
     Some (ret, t) }"

definition clone_child ::
    "'w platform \<Rightarrow> 'w sys_calls \<Rightarrow> printer \<Rightarrow> 'j cjson_doc \<Rightarrow> ('w \<Rightarrow> string \<Rightarrow> string option) \<Rightarrow>
     clone_call \<Rightarrow> ('w thread \<Rightarrow> (int \<times> 'w thread) option) \<Rightarrow> 'w thread \<Rightarrow> (int \<times> 'w thread) option" where
  \<comment> \<open>what the new thread or process runs: \<open>clone\<close> calls the function it was given and does not
    return in the child\<close>
  "clone_child P K pr j file call fn t =
     (case cl_start call of Own_fn \<Rightarrow> fn t | Wrapper \<Rightarrow> clone_start_wrapper P K pr j file fn t)"

definition kernel_reads :: "u32 \<Rightarrow> nat \<Rightarrow> bool" where
  \<comment> \<open>whether the kernel looks at the variable argument of this position\<close>
  "kernel_reads flags i \<longleftrightarrow>
     (if i = 0 then flags AND CLONE_PARENT_SETTID \<noteq> 0
      else if i = 1 then flags AND CLONE_SETTLS \<noteq> 0
      else i = 2 \<and> (flags AND CLONE_CHILD_SETTID \<noteq> 0 \<or> flags AND CLONE_CHILD_CLEARTID \<noteq> 0))"

definition passes_on :: "u32 \<Rightarrow> u64 list \<Rightarrow> clone_call \<Rightarrow> bool" where
  \<comment> \<open>every argument that the kernel reads is the one that was given\<close>
  "passes_on flags given call \<longleftrightarrow> (\<forall>i \<in> {0, 1, 2}. kernel_reads flags i \<longrightarrow>
     i < length (cl_args call) \<and> cl_args call ! i = given ! i)"

lemma clone_hook_args:
  assumes "flags AND CLONE_THREAD \<noteq> 0"
  shows "\<exists>call. clone_hook True flags [p, t, c] = Some call \<and> cl_start call = Wrapper \<and>
    cl_args call =
      (let ps = flags AND CLONE_PARENT_SETTID \<noteq> 0; st = flags AND CLONE_SETTLS \<noteq> 0;
           cs = flags AND CLONE_CHILD_SETTID \<noteq> 0
       in [if ps then p else 0,
           if st then (if ps then t else p) else 0,
           if cs then (if ps \<and> st then c else if ps \<or> st then t else p) else 0])"
  using assms by (simp add: clone_hook_def va_arg_if_def Let_def)

definition compact_flags :: "u32 \<Rightarrow> bool" where
  \<comment> \<open>no flag needs an argument behind one that is left out\<close>
  "compact_flags flags \<longleftrightarrow>
     (flags AND CLONE_SETTLS \<noteq> 0 \<longrightarrow> flags AND CLONE_PARENT_SETTID \<noteq> 0) \<and>
     (flags AND CLONE_CHILD_SETTID \<noteq> 0 \<longrightarrow> flags AND CLONE_PARENT_SETTID \<noteq> 0 \<and> flags AND CLONE_SETTLS \<noteq> 0) \<and>
     (flags AND CLONE_CHILD_CLEARTID \<noteq> 0 \<longrightarrow> flags AND CLONE_CHILD_SETTID \<noteq> 0)"

lemma thread_arguments:
  assumes "flags AND CLONE_THREAD \<noteq> 0"
  shows "(\<forall>p t c. \<exists>call. clone_hook True flags [p, t, c] = Some call \<and> passes_on flags [p, t, c] call) \<longleftrightarrow>
    compact_flags flags" (is "?l \<longleftrightarrow> ?r")
proof
  assume ?r
  show ?l
  proof (intro allI)
    fix p t c
    show "\<exists>call. clone_hook True flags [p, t, c] = Some call \<and> passes_on flags [p, t, c] call"
      using clone_hook_args [OF assms, of p t c] \<open>?r\<close>
      by (auto simp: passes_on_def kernel_reads_def compact_flags_def Let_def)
  qed
next
  assume ?l
  then obtain call where "clone_hook True flags [1, 2, 3] = Some call" "passes_on flags [1, 2, 3] call" by blast
  with clone_hook_args [OF assms, of 1 2 3] show ?r
    by (auto simp: passes_on_def kernel_reads_def compact_flags_def Let_def split: if_splits)
qed

text \<open>
  C15: when the hook of \<open>clone\<close> passes on the arguments that the kernel reads for the four flags
  that take one. For a thread it does so exactly when no flag needs an argument behind one
  that is left out (the flag that clears the child's identifier has to come with the one that
  sets it); otherwise the new thread gets another argument's value as its thread area or as the
  address of its identifier, or none. For a process it passes none on, so it does so exactly
  when none of the four flags is set. When \<open>malloc\<close> fails the hook is undefined for a
  thread, whose wrapper is then written through NULL, and only for a thread.
\<close>

theorem clone_arguments:
  "((\<forall>p t c. \<exists>call. clone_hook True flags [p, t, c] = Some call \<and> passes_on flags [p, t, c] call) \<longleftrightarrow>
    (if flags AND CLONE_THREAD \<noteq> 0
     then (flags AND CLONE_SETTLS \<noteq> 0 \<longrightarrow> flags AND CLONE_PARENT_SETTID \<noteq> 0) \<and>
       (flags AND CLONE_CHILD_SETTID \<noteq> 0 \<longrightarrow> flags AND CLONE_PARENT_SETTID \<noteq> 0 \<and> flags AND CLONE_SETTLS \<noteq> 0) \<and>
       (flags AND CLONE_CHILD_CLEARTID \<noteq> 0 \<longrightarrow> flags AND CLONE_CHILD_SETTID \<noteq> 0)
     else flags AND CLONE_PARENT_SETTID = 0 \<and> flags AND CLONE_SETTLS = 0 \<and>
       flags AND CLONE_CHILD_SETTID = 0 \<and> flags AND CLONE_CHILD_CLEARTID = 0)) \<and>
   (clone_hook False flags ap = None \<longleftrightarrow> flags AND CLONE_THREAD \<noteq> 0)"
proof (cases "flags AND CLONE_THREAD = 0")
  case True
  then show ?thesis by (auto simp: clone_hook_def passes_on_def kernel_reads_def)
next
  case False
  then show ?thesis using thread_arguments [OF False] by (simp add: compact_flags_def clone_hook_def)
qed

theorem clone_arguments_witness:
  "\<not> (\<forall>p t c. \<exists>call. clone_hook True (CLONE_THREAD OR CLONE_SETTLS) [p, t, c] = Some call \<and>
      passes_on (CLONE_THREAD OR CLONE_SETTLS) [p, t, c] call)"
proof -
  have "(CLONE_THREAD OR CLONE_SETTLS) AND CLONE_THREAD \<noteq> 0"
    "(CLONE_THREAD OR CLONE_SETTLS) AND CLONE_SETTLS \<noteq> 0"
    "(CLONE_THREAD OR CLONE_SETTLS) AND CLONE_PARENT_SETTID = 0"
    by (simp_all add: CLONE_THREAD_def CLONE_SETTLS_def CLONE_PARENT_SETTID_def)
  with clone_arguments [of "CLONE_THREAD OR CLONE_SETTLS"] show ?thesis by auto
qed

text \<open>
  A process, as opposed to a thread, that is started by \<open>clone\<close> is never taken under control:
  its function runs as it is, and in the caller the returned identifier is not 0.
\<close>

theorem cloned_process_uncontrolled:
  assumes "flags AND CLONE_THREAD = 0"
  shows "\<exists>call. clone_hook malloc_ok flags ap = Some call \<and> cl_args call = [] \<and>
      clone_child P K pr j file call fn t = fn t"
    and "pid \<noteq> 0 \<Longrightarrow> clone_return P K pr j file flags pid s = Some (pid, s)"
  using assms by (simp_all add: clone_hook_def clone_child_def clone_return_def)

lemma cloned_thread_life:
  "clone_start_wrapper P K pr j file fn t = thread_start_wrapper P K pr j file fn t"
  by (simp add: clone_start_wrapper_def thread_start_wrapper_def)

subsection \<open>The handler that is not used\<close>

definition handle_tick_predetermined ::
    "'w platform \<Rightarrow> (u64 \<Rightarrow> u64 \<Rightarrow> 'w \<Rightarrow> 'w) \<Rightarrow> ctx_ref \<Rightarrow> 'w lib \<Rightarrow> 'w lib option" where
  \<comment> \<open>\<open>nanosleep\<close> takes seconds and nanoseconds; its result is ignored\<close>
  "handle_tick_predetermined P nanosleep r s =
     (let target = time_slice_ns (aux (read_ctx r s)) in
      case system_busy_degree P s of
        None \<Rightarrow> None
      | Some _ \<Rightarrow>
          (let budgets = time_budgets (aux (read_ctx r s));
               (now, s1) = read_clock P s;
               diff = now - past s1;
               s2 = s1\<lparr>now_ns := now, diff_ns := diff\<rparr>;
               budgets = budgets + (target - diff);
               s3 = (if 0 < sint budgets
                     then s2\<lparr>kworld := nanosleep 0 (umin budgets target) (kworld s2)\<rparr> else s2);
               (t, s4) = read_clock P s3;
               yield_time = t - now;
               s5 = s4\<lparr>past := t, sleeped_time := sleeped_time s4 + yield_time,
                      avg_cost := mix (9 / 10) (1 / 10) (avg_cost s4) diff\<rparr>
           in Some (upd_aux r (set_time_budgets (clamp_budgets target (budgets - yield_time))) s5)))"

text \<open>
  The unused handler does what the handler of yielding threads does, with \<open>nanosleep\<close> in the place of
  the wait that the daemon can cut short, when both mappings are there.
\<close>

theorem predetermined_is_vsleep:
  assumes "\<And>n w. nanosleep 0 n w = futex_wait P n w" "ptr_mapped s" "g_mapped s"
  shows "handle_tick_predetermined P nanosleep r s = Some (handle_tick_vsleep P r s)"
proof -
  have "g_mapped (snd (read_clock P s))" using assms(3) by (simp add: read_clock_def case_prod_beta)
  then show ?thesis
    using assms(1,2)
    by (simp add: handle_tick_predetermined_def handle_tick_vsleep_def system_busy_degree_def Let_def
      case_prod_beta)
qed

end
