(* ===== verification/LoadMonitor.thy ===== *)
theory LoadMonitor
  imports CTypes SharedData
begin

text \<open>
  The two background threads of the daemon (\<open>src/server.c\<close>): the monitor, which samples
  \<open>/proc/stat\<close> every ten milliseconds and publishes the load and the busy degree that the tick
  handlers read, and the idle waker, which wakes a waiting thread when the processor has
  been idle for long enough. The loads are \<open>float\<close> values, rounded by \<open>rnd32\<close> after every
  operation; what the file holds at each sample and the clocks are inputs of the steps.
\<close>

subsection \<open>Reading the counters\<close>

record cpu_data =
  user :: u64
  nice :: u64
  system :: u64
  idle :: u64
  iowait :: u64
  irq :: u64
  softirq :: u64
  steal :: u64
  total :: u64
  non_idle :: u64

fun fgets_len :: "nat \<Rightarrow> string \<Rightarrow> nat" where
  \<comment> \<open>how many characters \<open>fgets\<close> takes when it may take \<open>n\<close>: up to a newline, included\<close>
  "fgets_len 0 s = 0"
| "fgets_len (Suc n) [] = 0"
| "fgets_len (Suc n) (c # cs) = (if code c = 10 then 1 else Suc (fgets_len n cs))"

function fgets_lines :: "string \<Rightarrow> string list" where
  \<comment> \<open>the successive contents of the 1024 characters of \<open>buffer\<close>\<close>
  "fgets_lines [] = []"
| "fgets_lines (c # cs) =
     take (fgets_len 1023 (c # cs)) (c # cs) # fgets_lines (drop (fgets_len 1023 (c # cs)) (c # cs))"
  by pat_completeness auto
termination
proof (relation "measure length")
  fix c cs
  have "0 < fgets_len 1023 (c # cs)" by (simp add: numeral_eq_Suc)
  then show "(drop (fgets_len 1023 (c # cs)) (c # cs), c # cs) \<in> measure length"
    by (cases "fgets_len 1023 (c # cs)") simp_all
qed simp

definition scan_word :: "nat \<Rightarrow> string \<Rightarrow> (string \<times> string) option" where
  \<comment> \<open>\<open>%15s\<close> for \<open>n = 15\<close>: blanks, then at least one and at most \<open>n\<close> other characters\<close>
  "scan_word n s =
     (let t = dropWhile c_isspace s; w = take n (takeWhile (\<lambda>c. \<not> c_isspace c) t)
      in if w = [] then None else Some (w, drop (length w) t))"

definition scan_u64 :: "string \<Rightarrow> (u64 \<times> string) option" where
  \<comment> \<open>\<open>%llu\<close>\<close>
  "scan_u64 s =
     (let t = dropWhile c_isspace s;
          u = (if startswith t ''-'' \<or> startswith t ''+'' then tl t else t);
          ds = takeWhile is_decimal u
      in if ds = [] then None else Some (strtoull t, drop (length ds) u))"

fun scan_fields :: "nat \<Rightarrow> string \<Rightarrow> u64 list" where
  "scan_fields 0 s = []"
| "scan_fields (Suc n) s = (case scan_u64 s of None \<Rightarrow> [] | Some (v, t) \<Rightarrow> v # scan_fields n t)"

definition store_fields :: "u64 list \<Rightarrow> cpu_data \<Rightarrow> cpu_data" where
  \<comment> \<open>the conversions that succeed are stored, whatever their number\<close>
  "store_fields vs c =
     (let field = (\<lambda>i old. if i < length vs then vs ! i else old)
      in c\<lparr>user := field 0 (user c), nice := field 1 (nice c), system := field 2 (system c), idle := field 3 (idle c),
           iowait := field 4 (iowait c), irq := field 5 (irq c), softirq := field 6 (softirq c), steal := field 7 (steal c)\<rparr>)"

definition add_up :: "cpu_data \<Rightarrow> cpu_data" where
  "add_up c =
     (let ni = user c + nice c + system c + irq c + softirq c + steal c
      in c\<lparr>non_idle := ni, total := ni + idle c + iowait c\<rparr>)"

fun read_cpu_lines :: "nat \<Rightarrow> nat \<Rightarrow> string list \<Rightarrow> cpu_data list \<Rightarrow> nat \<times> cpu_data list" where
  \<comment> \<open>the loop: \<open>i\<close> entries are read, \<open>ncpu\<close> is the number of processors\<close>
  "read_cpu_lines ncpu i [] cpus = (i, cpus)"
| "read_cpu_lines ncpu i (buffer # ls) cpus =
     (if \<not> i < ncpu + 1 then (i, cpus)
      else if \<not> startswith buffer ''cpu'' then (i, cpus)
      else case scan_word 15 buffer of
        None \<Rightarrow> (i, cpus)
      | Some (name, rest) \<Rightarrow>
          (let vs = scan_fields 8 rest; c = store_fields vs (cpus ! i)
           in if 1 + length vs < 8 then (i, cpus[i := c])
              else read_cpu_lines ncpu (i + 1) ls (cpus[i := add_up c])))"

definition read_cpu_data :: "nat \<Rightarrow> string \<Rightarrow> cpu_data list \<Rightarrow> nat \<times> cpu_data list" where
  "read_cpu_data ncpu content cpus = read_cpu_lines ncpu 0 (fgets_lines content) cpus"

subsection \<open>The load\<close>

definition to_float32 :: "u64 \<Rightarrow> rat" where
  "to_float32 x = rnd32 (of_int (uint x))"

definition read_system_load :: "cpu_data \<Rightarrow> cpu_data \<Rightarrow> rat" where
  "read_system_load cur prev =
     (let total_diff = total cur - total prev;
          idle_diff = (idle cur + iowait cur) - (idle prev + iowait prev)
      in if total_diff = 0 then 0
         else rnd32 (rnd32 (to_float32 (total_diff - idle_diff) / to_float32 total_diff) * 100))"

definition get_system_busy_degree :: "rat \<Rightarrow> busy_degree" where
  "get_system_busy_degree load_1s =
     (if load_1s < 30 then SYSTEM_IDLE else if load_1s < 80 then SYSTEM_MODERATE else SYSTEM_HIGH)"

definition smooth :: "rat \<Rightarrow> rat \<Rightarrow> rat" where
  \<comment> \<open>\<open>load_1s * 0.9f + load_10ms * 0.1f\<close>\<close>
  "smooth load_1s load_10ms = rnd32 (rnd32 (load_1s * rnd32 (9 / 10)) + rnd32 (load_10ms * rnd32 (1 / 10)))"

subsection \<open>The monitor\<close>

record load_data =
  load_10ms :: rat
  load_1s :: rat
  last_update_time :: u64

record monitor =
  prev_cpus :: "cpu_data list"
  curr_cpus :: "cpu_data list"
  avg_load :: rat \<comment> \<open>the local variable \<open>load_1s\<close>\<close>
  published :: load_data
  shm :: system_data

definition monitor_round :: "nat \<Rightarrow> u64 \<Rightarrow> string \<Rightarrow> monitor \<Rightarrow> monitor" where
  "monitor_round ncpu current_time content m =
     (let (n, cs) = read_cpu_data ncpu content (curr_cpus m);
          l10 = read_system_load (cs ! 0) (prev_cpus m ! 0);
          l1 = smooth (avg_load m) l10
      in m\<lparr>curr_cpus := cs, avg_load := l1,
           published := \<lparr>load_10ms = l10, load_1s = l1, last_update_time = current_time\<rparr>,
           shm := (shm m)\<lparr>busy_degree := get_system_busy_degree l1\<rparr>,
           prev_cpus := (prev_cpus m)[0 := cs ! 0]\<rparr>)"

definition monitor_start :: "nat \<Rightarrow> string \<Rightarrow> cpu_data list \<Rightarrow> cpu_data list \<Rightarrow> load_data \<Rightarrow> system_data \<Rightarrow> monitor" where
  \<comment> \<open>the two arrays hold whatever was on the stack\<close>
  "monitor_start ncpu content prev0 curr0 pub sd =
     \<lparr>prev_cpus = snd (read_cpu_data ncpu content prev0), curr_cpus = curr0, avg_load = 30, published = pub, shm = sd\<rparr>"

fun monitor_rounds :: "nat \<Rightarrow> (u64 \<times> string) list \<Rightarrow> monitor \<Rightarrow> monitor" where
  \<comment> \<open>as many turns of the endless loop as there are samples\<close>
  "monitor_rounds ncpu [] m = m"
| "monitor_rounds ncpu ((t, content) # xs) m = monitor_rounds ncpu xs (monitor_round ncpu t content m)"

subsection \<open>The idle waker\<close>

record waker =
  lasting_cpu_time :: u64
  last_cpu_time :: u64
  wakes :: nat \<comment> \<open>how often \<open>futex_wake_one\<close> was called\<close>

definition waker_round :: "u64 \<Rightarrow> waker \<Rightarrow> waker" where
  "waker_round now_cpu w =
     (let delta = now_cpu - last_cpu_time w;
          lasting = (if delta < 3000 then lasting_cpu_time w + delta else 0)
      in if 5000 \<le> lasting
         then w\<lparr>lasting_cpu_time := 0, last_cpu_time := now_cpu, wakes := wakes w + 1\<rparr>
         else w\<lparr>lasting_cpu_time := lasting, last_cpu_time := now_cpu\<rparr>)"

definition waker_start :: "u64 \<Rightarrow> waker" where
  "waker_start now_cpu = \<lparr>lasting_cpu_time = 0, last_cpu_time = now_cpu, wakes = 0\<rparr>"

subsection \<open>Bounds of the load\<close>

lemma rnd32_ints: "rnd32 1 = 1" "rnd32 100 = 100"
  using rnd32_of_int [of 1] rnd32_of_int [of 100] by simp_all

lemma to_float32_bounds:
  assumes "x \<le> y"
  shows "0 \<le> to_float32 x" "to_float32 x \<le> to_float32 y"
proof -
  have "(of_int (uint x) :: rat) \<le> of_int (uint y)" using assms by (simp only: word_le_def of_int_le_iff)
  then show "to_float32 x \<le> to_float32 y" unfolding to_float32_def by (rule r32.mono)
  show "0 \<le> to_float32 x" unfolding to_float32_def
    by (rule r32.nonneg) (simp only: of_int_0_le_iff uint_ge_0)
qed

lemma ratio_bounds:
  assumes "x \<le> y"
  shows "0 \<le> to_float32 x / to_float32 y" "to_float32 x / to_float32 y \<le> 1"
proof -
  note b = to_float32_bounds [OF assms] to_float32_bounds(1) [of y y]
  show "0 \<le> to_float32 x / to_float32 y" using b by simp
  show "to_float32 x / to_float32 y \<le> 1" using b by (cases "to_float32 y = 0") (simp_all add: divide_le_eq)
qed

lemma load_of_bounds:
  assumes "x \<le> y"
  shows "0 \<le> rnd32 (rnd32 (to_float32 x / to_float32 y) * 100)"
    and "rnd32 (rnd32 (to_float32 x / to_float32 y) * 100) \<le> 100"
proof -
  let ?q = "rnd32 (to_float32 x / to_float32 y)"
  have q: "0 \<le> ?q" "?q \<le> 1"
    using ratio_bounds [OF assms] r32.nonneg r32.mono [of _ 1] by (simp_all add: rnd32_ints)
  show "0 \<le> rnd32 (?q * 100)" using q by (intro r32.nonneg) simp
  show "rnd32 (?q * 100) \<le> 100" using q r32.mono [of "?q * 100" 100] by (simp add: rnd32_ints)
qed

lemma sub_le_total:
  assumes "np \<le> nc" "ip \<le> ic" "uint nc + uint ic < 2 ^ 64"
  shows "(ic - ip :: u64) \<le> (nc + ic) - (np + ip)"
proof -
  let ?a = "nc - np" and ?b = "ic - ip"
  have u: "uint ?a = uint nc - uint np" "uint ?b = uint ic - uint ip"
    using assms(1,2) by (simp_all add: uint_sub_lem word_le_def)
  have "uint ?a + uint ?b < 2 ^ 64"
    unfolding u using assms(3) uint_ge_0 [of np] uint_ge_0 [of ip] by linarith
  then have "uint (?a + ?b) = uint ?a + uint ?b"
    by (intro uint_add_lem [THEN iffD1]) (simp only: len_bit0 len_num1, simp)
  moreover have "(nc + ic) - (np + ip) = ?a + ?b" by simp
  ultimately show ?thesis using uint_ge_0 [of ?a] by (simp only: word_le_def)
qed

definition summed :: "cpu_data \<Rightarrow> bool" where
  "summed c \<longleftrightarrow> total c = non_idle c + idle c + iowait c"

lemma summed_add_up [simp]: "summed (add_up c)"
  by (simp add: summed_def add_up_def Let_def)

text \<open>
  The sampled load is a percentage. If between two samples neither the busy time nor
  the idle and waiting time has gone back, and the counters have not reached \<open>2 ^ 64\<close>, the load
  computed from them, with every rounding of \<open>float\<close>, lies between 0 and 100.
\<close>

theorem load_is_percentage:
  assumes "summed cur" "summed prev" and "non_idle prev \<le> non_idle cur"
    and "idle prev + iowait prev \<le> idle cur + iowait cur"
    and "uint (non_idle cur) + uint (idle cur + iowait cur) < 2 ^ 64"
  shows "0 \<le> read_system_load cur prev \<and> read_system_load cur prev \<le> 100"
proof -
  let ?i = "(idle cur + iowait cur) - (idle prev + iowait prev)" and ?t = "total cur - total prev"
  have "?t = (non_idle cur + (idle cur + iowait cur)) - (non_idle prev + (idle prev + iowait prev))"
    using assms(1,2) by (simp add: summed_def add.assoc)
  then have "?i \<le> ?t" using sub_le_total [OF assms(3-5)] by simp
  then have "?t - ?i \<le> ?t" by (rule word_sub_le)
  then show ?thesis using load_of_bounds [of "?t - ?i" ?t] by (simp add: read_system_load_def Let_def)
qed

definition counters :: "u64 \<Rightarrow> u64 \<Rightarrow> u64 \<Rightarrow> cpu_data" where
  "counters u i w = add_up \<lparr>user = u, nice = 0, system = 0, idle = i, iowait = w, irq = 0, softirq = 0,
     steal = 0, total = 0, non_idle = 0\<rparr>"

theorem load_is_percentage_witness:
  "0 \<le> read_system_load (counters 130 270 5) (counters 100 200 5) \<and>
   read_system_load (counters 130 270 5) (counters 100 200 5) \<le> 100"
  by (rule load_is_percentage) (simp_all add: counters_def, simp_all add: add_up_def Let_def)

lemma load_over_100:
  \<comment> \<open>the kernel may decrease \<open>iowait\<close>: ten ticks of work and five of waiting taken back give 200 percent\<close>
  "read_system_load (counters 110 200 15) (counters 100 200 20) = 200"
  by (simp add: read_system_load_def counters_def add_up_def Let_def to_float32_def rnd32_of_int
      rnd32_of_int [of 10, simplified] rnd32_of_int [of 5, simplified] rnd32_of_int [of 2, simplified]
      rnd32_of_int [of 200, simplified])

subsection \<open>Following the load\<close>

fun sampled :: "nat \<Rightarrow> (u64 \<times> string) list \<Rightarrow> monitor \<Rightarrow> rat list" where
  \<comment> \<open>the loads of the rounds\<close>
  "sampled ncpu [] m = []"
| "sampled ncpu ((t, content) # xs) m =
     (let m' = monitor_round ncpu t content m in load_10ms (published m') # sampled ncpu xs m')"

lemma monitor_round_simps:
  "avg_load (monitor_round ncpu t content m) =
     smooth (avg_load m) (load_10ms (published (monitor_round ncpu t content m)))"
  "busy_degree (shm (monitor_round ncpu t content m)) =
     get_system_busy_degree (avg_load (monitor_round ncpu t content m))"
  by (simp_all add: monitor_round_def case_prod_beta Let_def)

lemma monitor_rounds_avg:
  "avg_load (monitor_rounds ncpu xs m) = foldl smooth (avg_load m) (sampled ncpu xs m)"
proof (induction xs arbitrary: m)
  case (Cons x xs)
  then show ?case using monitor_round_simps(1) [of ncpu "fst x" "snd x" m]
    by (cases x) (simp add: Let_def)
qed simp

lemma monitor_rounds_degree:
  "xs \<noteq> [] \<Longrightarrow> busy_degree (shm (monitor_rounds ncpu xs m)) =
     get_system_busy_degree (avg_load (monitor_rounds ncpu xs m))"
proof (induction xs arbitrary: m)
  case (Cons x xs)
  then show ?case using monitor_round_simps(2) [of ncpu "fst x" "snd x" m] by (cases x; cases xs) simp_all
qed simp

lemma smooth_mono:
  assumes "l \<le> l'" "x \<le> x'"
  shows "smooth l x \<le> smooth l' x'"
proof -
  have "0 \<le> rnd32 (9 / 10)" "0 \<le> rnd32 (1 / 10)" by (simp_all add: r32.nonneg)
  then show ?thesis unfolding smooth_def using assms
    by (intro r32.mono add_mono mult_right_mono) simp_all
qed

lemma smooth_ends: "smooth 0 0 = 0" "smooth 100 100 = 100"
  by (simp add: smooth_def) (simp add: smooth_def py_eval)


definition rising :: "rat list" where
  \<comment> \<open>lower bounds of the smoothed load under full load\<close>
  "rising = [0, 10, 19, 27, 34, 40, 46, 51, 55, 59, 63, 66, 69, 72, 74, 76, 78, 80]"

definition falling :: "rat list" where
  \<comment> \<open>upper bounds of the smoothed load of an idle system\<close>
  "falling = [100, 90, 81, 73, 66, 60, 54, 49, 45, 41, 37, 34, 31, 28]"

lemma chains_step:
  "list_all (\<lambda>(a, b). b \<le> smooth a 100) (zip rising (tl rising))"
  "list_all (\<lambda>(a, b). smooth a 0 \<le> b) (zip falling (tl falling))"
  "80 \<le> smooth 80 100" "smooth 28 0 \<le> 28"
  by (simp_all add: rising_def falling_def) (simp_all add: smooth_def py_eval)

lemma chain_nth:
  "i < 17 \<Longrightarrow> rising ! Suc i \<le> smooth (rising ! i) 100"
  "i < 13 \<Longrightarrow> smooth (falling ! i) 0 \<le> falling ! Suc i"
proof -
  have n: "zip xs (tl xs) ! i = (xs ! i, xs ! Suc i)" "i < length (zip xs (tl xs))"
    if "Suc i < length xs" for xs :: "rat list" and i
    using that by (cases xs; simp)+
  have l: "length rising = 18" "length falling = 14" by (simp_all add: rising_def falling_def)
  show "i < 17 \<Longrightarrow> rising ! Suc i \<le> smooth (rising ! i) 100"
    using chains_step(1) n [of i rising] l unfolding list_all_length by fastforce
  show "i < 13 \<Longrightarrow> smooth (falling ! i) 0 \<le> falling ! Suc i"
    using chains_step(2) n [of i falling] l unfolding list_all_length by fastforce
qed

lemma foldl_replicate_Suc: "foldl f l (replicate (Suc n) x) = f (foldl f l (replicate n x)) x"
  by (induction n arbitrary: l) simp_all

lemma full_load_rises:
  assumes "0 \<le> l"
  shows "rising ! min n 17 \<le> foldl smooth l (replicate n 100)"
proof (induction n)
  case 0
  then show ?case using assms by (simp add: rising_def)
next
  case (Suc n)
  let ?x = "foldl smooth l (replicate n 100)"
  note f = foldl_replicate_Suc [of smooth l n 100]
  show ?case
  proof (cases "n < 17")
    case True
    then have "rising ! Suc n \<le> smooth (rising ! n) 100" by (rule chain_nth)
    also have "\<dots> \<le> smooth ?x 100" using Suc True by (intro smooth_mono) simp_all
    finally show ?thesis using True by (simp add: f del: replicate.simps)
  next
    case False
    then have "80 \<le> ?x" using Suc by (simp add: rising_def)
    then have "80 \<le> smooth ?x 100" using chains_step(3) smooth_mono [of 80 ?x 100 100] by simp
    then show ?thesis using False by (simp add: f rising_def del: replicate.simps)
  qed
qed

lemma no_load_falls:
  assumes "l \<le> 100"
  shows "foldl smooth l (replicate n 0) \<le> falling ! min n 13"
proof (induction n)
  case 0
  then show ?case using assms by (simp add: falling_def)
next
  case (Suc n)
  let ?x = "foldl smooth l (replicate n 0)"
  note f = foldl_replicate_Suc [of smooth l n 0]
  show ?case
  proof (cases "n < 13")
    case True
    have "smooth ?x 0 \<le> smooth (falling ! n) 0" using Suc True by (intro smooth_mono) simp_all
    also have "\<dots> \<le> falling ! Suc n" using True by (rule chain_nth)
    finally show ?thesis using True by (simp add: f del: replicate.simps)
  next
    case False
    then have "?x \<le> 28" using Suc by (simp add: falling_def)
    then have "smooth ?x 0 \<le> 28" using chains_step(4) smooth_mono [of ?x 28 0 0] by simp
    then show ?thesis using False by (simp add: f falling_def del: replicate.simps)
  qed
qed

text \<open>
  C23: the smoothed load stays a percentage. Whatever the samples, as long as each gives a
  load between 0 and 100, the smoothed load that the monitor publishes is between 0 and 100
  again, in spite of the rounding of every \<open>float\<close> operation.
\<close>

theorem smoothed_load_bounded:
  assumes "0 \<le> avg_load m" "avg_load m \<le> 100"
    and "list_all (\<lambda>x. 0 \<le> x \<and> x \<le> 100) (sampled ncpu xs m)"
  shows "0 \<le> avg_load (monitor_rounds ncpu xs m) \<and> avg_load (monitor_rounds ncpu xs m) \<le> 100"
proof -
  have "0 \<le> foldl smooth l ys \<and> foldl smooth l ys \<le> 100"
    if "0 \<le> l" "l \<le> 100" "list_all (\<lambda>x. 0 \<le> x \<and> x \<le> 100) ys" for l ys
    using that
  proof (induction ys arbitrary: l)
    case (Cons y ys)
    then have "smooth 0 0 \<le> smooth l y" "smooth l y \<le> smooth 100 100" by (auto intro!: smooth_mono)
    then show ?case using Cons by (simp add: smooth_ends)
  qed simp
  then show ?thesis using assms by (simp only: monitor_rounds_avg)
qed

definition example_stat :: "string \<Rightarrow> string \<Rightarrow> string" where
  "example_stat u i = ''cpu  '' @ u @ '' 0 0 '' @ i @ '' 0 0 0 0'' @ [char_of (10 :: nat)]"

definition example_monitor :: monitor where
  "example_monitor = monitor_start 1 (example_stat ''100'' ''200'') (replicate 2 (counters 0 0 0))
     (replicate 2 (counters 0 0 0)) \<lparr>load_10ms = 0, load_1s = 0, last_update_time = 0\<rparr>
     \<lparr>busy_degree = SYSTEM_IDLE, futex_wake_seq = 0, event_bits = replicate 16 0\<rparr>"

lemma example_prev: "prev_cpus example_monitor ! 0 = counters 100 200 0"
  by code_simp

theorem smoothed_load_bounded_witness:
  "0 \<le> avg_load (monitor_rounds 1 [(7, example_stat ''130'' ''270'')] example_monitor) \<and>
   avg_load (monitor_rounds 1 [(7, example_stat ''130'' ''270'')] example_monitor) \<le> 100"
proof (rule smoothed_load_bounded)
  show "0 \<le> avg_load example_monitor" "avg_load example_monitor \<le> 100"
    by (simp_all add: example_monitor_def monitor_start_def)
  have "snd (read_cpu_data 1 (example_stat ''130'' ''270'') (curr_cpus example_monitor)) ! 0 = counters 130 270 0"
    by code_simp
  moreover have "0 \<le> read_system_load (counters 130 270 0) (counters 100 200 0) \<and>
      read_system_load (counters 130 270 0) (counters 100 200 0) \<le> 100"
    by (simp add: read_system_load_def counters_def add_up_def Let_def to_float32_def py_eval)
  ultimately show "list_all (\<lambda>x. 0 \<le> x \<and> x \<le> 100) (sampled 1 [(7, example_stat ''130'' ''270'')] example_monitor)"
    by (simp add: monitor_round_def case_prod_beta Let_def example_prev)
qed

text \<open>
  C8: the busy degree follows the load. Started with any smoothed load between 0 and 100,
  the monitor reports \<open>SYSTEM_HIGH\<close> from the 17th sample of full load on, and \<open>SYSTEM_IDLE\<close> from
  the 13th sample without load on, for as long as the load stays.
\<close>

theorem degree_follows_load:
  assumes "0 \<le> avg_load m" "avg_load m \<le> 100"
  shows "(17 \<le> length xs \<and> sampled ncpu xs m = replicate (length xs) 100 \<longrightarrow>
      busy_degree (shm (monitor_rounds ncpu xs m)) = SYSTEM_HIGH) \<and>
    (13 \<le> length xs \<and> sampled ncpu xs m = replicate (length xs) 0 \<longrightarrow>
      busy_degree (shm (monitor_rounds ncpu xs m)) = SYSTEM_IDLE)"
proof (intro conjI impI)
  assume a: "17 \<le> length xs \<and> sampled ncpu xs m = replicate (length xs) 100"
  then have "80 \<le> avg_load (monitor_rounds ncpu xs m)"
    using full_load_rises [OF assms(1), of "length xs"] a by (simp add: monitor_rounds_avg rising_def min_absorb2)
  moreover have "xs \<noteq> []" using a by auto
  ultimately show "busy_degree (shm (monitor_rounds ncpu xs m)) = SYSTEM_HIGH"
    by (simp add: monitor_rounds_degree get_system_busy_degree_def)
next
  assume a: "13 \<le> length xs \<and> sampled ncpu xs m = replicate (length xs) 0"
  then have "avg_load (monitor_rounds ncpu xs m) \<le> 28"
    using no_load_falls [OF assms(2), of "length xs"] a by (simp add: monitor_rounds_avg falling_def min_absorb2)
  moreover have "xs \<noteq> []" using a by auto
  ultimately show "busy_degree (shm (monitor_rounds ncpu xs m)) = SYSTEM_IDLE"
    by (simp add: monitor_rounds_degree get_system_busy_degree_def)
qed

theorem degree_follows_load_witness:
  "busy_degree (shm (monitor_rounds 1 (replicate 13 (7, example_stat ''100'' ''200'')) example_monitor)) = SYSTEM_IDLE"
proof -
  let ?c = "example_stat ''100'' ''200''"
  let ?z = "counters 0 0 0" and ?u = "counters 100 200 0"
  have "read_cpu_data 1 ?c [?z, ?z] = (1, [?u, ?z])" "read_cpu_data 1 ?c [?u, ?z] = (1, [?u, ?z])"
    by code_simp+
  then have s: "sampled 1 (replicate n (7, ?c)) m = replicate n 0"
    if "prev_cpus m ! 0 = ?u" "prev_cpus m \<noteq> []" "curr_cpus m = [?z, ?z] \<or> curr_cpus m = [?u, ?z]" for n m
    using that
  proof (induction n arbitrary: m)
    case (Suc n)
    have "read_cpu_data 1 ?c (curr_cpus m) = (1, [?u, ?z])" using Suc.prems by auto
    then show ?case
      using Suc by (simp add: monitor_round_def Let_def) (simp add: read_system_load_def)
  qed simp
  have "prev_cpus example_monitor \<noteq> []" "curr_cpus example_monitor = [?z, ?z]" by code_simp+
  then have "sampled 1 (replicate 13 (7, ?c)) example_monitor = replicate 13 0"
    using s example_prev by blast
  then show ?thesis
    using degree_follows_load [of example_monitor "replicate 13 (7, ?c)" 1]
    by (simp add: example_monitor_def monitor_start_def)
qed


subsection \<open>Waking\<close>

fun waker_rounds :: "u64 list \<Rightarrow> waker \<Rightarrow> waker" where
  \<comment> \<open>as many turns of the endless loop as there are readings of the thread's clock\<close>
  "waker_rounds [] w = w"
| "waker_rounds (t # ts) w = waker_rounds ts (waker_round t w)"

fun increments :: "u64 \<Rightarrow> u64 list \<Rightarrow> u64 list" where
  "increments t0 [] = []"
| "increments t0 (t # ts) = (t - t0) # increments t ts"

lemma waker_round_counts:
  fixes w :: waker and t :: u64
  defines "d \<equiv> uint (t - last_cpu_time w)" and "w' \<equiv> waker_round t w"
  assumes "uint (lasting_cpu_time w) < 5000" "t - last_cpu_time w < 3000"
  shows "uint (lasting_cpu_time w') < 5000" "last_cpu_time w' = t"
    "5000 * int (wakes w') + uint (lasting_cpu_time w') \<le> 5000 * int (wakes w) + uint (lasting_cpu_time w) + d"
    "8000 * int (wakes w) + uint (lasting_cpu_time w) + d \<le> 8000 * int (wakes w') + uint (lasting_cpu_time w')"
proof -
  let ?l = "lasting_cpu_time w + (t - last_cpu_time w)"
  have d: "d < 3000" "0 \<le> d" using assms(4) by (simp_all add: d_def word_less_def)
  have "uint (lasting_cpu_time w) + d < 8000" using assms(3) d by linarith
  then have "uint (lasting_cpu_time w) + d < 2 ^ 64" by (rule less_trans) simp
  then have l: "uint ?l = uint (lasting_cpu_time w) + d"
    unfolding d_def by (intro uint_add_lem [THEN iffD1]) (simp only: len_bit0 len_num1, simp)
  have c: "5000 \<le> ?l \<longleftrightarrow> 5000 \<le> uint ?l" by (simp add: word_le_def)
  have w': "w' = (if 5000 \<le> uint ?l
      then w\<lparr>lasting_cpu_time := 0, last_cpu_time := t, wakes := wakes w + 1\<rparr>
      else w\<lparr>lasting_cpu_time := ?l, last_cpu_time := t\<rparr>)"
    using assms(4) c by (simp add: w'_def waker_round_def Let_def)
  show "uint (lasting_cpu_time w') < 5000" "last_cpu_time w' = t"
    "5000 * int (wakes w') + uint (lasting_cpu_time w') \<le> 5000 * int (wakes w) + uint (lasting_cpu_time w) + d"
    "8000 * int (wakes w) + uint (lasting_cpu_time w) + d \<le> 8000 * int (wakes w') + uint (lasting_cpu_time w')"
    using l d assms(3) by (auto simp: w')
qed

lemma waker_rounds_count:
  assumes "uint (lasting_cpu_time w) < 5000" "list_all (\<lambda>d. d < 3000) (increments (last_cpu_time w) ts)"
  shows "uint (lasting_cpu_time (waker_rounds ts w)) < 5000 \<and>
    5000 * int (wakes (waker_rounds ts w)) + uint (lasting_cpu_time (waker_rounds ts w)) \<le>
      5000 * int (wakes w) + uint (lasting_cpu_time w) + sum_list (map uint (increments (last_cpu_time w) ts)) \<and>
    8000 * int (wakes w) + uint (lasting_cpu_time w) + sum_list (map uint (increments (last_cpu_time w) ts)) \<le>
      8000 * int (wakes (waker_rounds ts w)) + uint (lasting_cpu_time (waker_rounds ts w))"
  using assms
proof (induction ts arbitrary: w)
  case (Cons t ts)
  have d: "t - last_cpu_time w < 3000" using Cons.prems(2) by simp
  note r = waker_round_counts [OF Cons.prems(1) d]
  have "list_all (\<lambda>d. d < 3000) (increments (last_cpu_time (waker_round t w)) ts)"
    using Cons.prems(2) by (simp add: r(2))
  from Cons.IH [OF r(1) this] show ?case using r by (simp add: r(2))
qed simp

text \<open>
  C24: the waker wakes at the rate of the idle time. As long as the waker's clock advances by
  less than 3000 ns from one turn to the next, which means that nothing else runs, it calls
  \<open>futex_wake_one\<close> at most once in 5000 ns and at least once in 8000 ns of the time it has run.
\<close>

theorem waker_rate:
  assumes "list_all (\<lambda>d. d < 3000) (increments t ts)"
  shows "5000 * int (wakes (waker_rounds ts (waker_start t))) \<le> sum_list (map uint (increments t ts)) \<and>
    sum_list (map uint (increments t ts)) < 8000 * int (wakes (waker_rounds ts (waker_start t))) + 5000"
proof -
  let ?w = "waker_start t"
  have s: "uint (lasting_cpu_time ?w) = 0" "last_cpu_time ?w = t" "int (wakes ?w) = 0"
    by (simp_all add: waker_start_def)
  have "list_all (\<lambda>d. d < 3000) (increments (last_cpu_time ?w) ts)" using assms by (simp only: s)
  moreover have "uint (lasting_cpu_time ?w) < 5000" by (simp add: s)
  ultimately have "uint (lasting_cpu_time (waker_rounds ts ?w)) < 5000 \<and>
      5000 * int (wakes (waker_rounds ts ?w)) + uint (lasting_cpu_time (waker_rounds ts ?w)) \<le>
        sum_list (map uint (increments t ts)) \<and>
      sum_list (map uint (increments t ts)) \<le>
        8000 * int (wakes (waker_rounds ts ?w)) + uint (lasting_cpu_time (waker_rounds ts ?w))"
    using waker_rounds_count [of ?w ts] unfolding s by linarith
  then show ?thesis using uint_ge_0 [of "lasting_cpu_time (waker_rounds ts ?w)"] by linarith
qed

theorem waker_rate_witness:
  "5000 * int (wakes (waker_rounds [2000, 4900, 7000, 9000] (waker_start 0))) \<le> 9000 \<and>
   9000 < 8000 * int (wakes (waker_rounds [2000, 4900, 7000, 9000] (waker_start 0))) + 5000"
  using waker_rate [of 0 "[2000, 4900, 7000, 9000]"] by simp

end
