(* ===== verification/LoadSampler.thy ===== *)
theory LoadSampler
  imports LoadMonitor
begin

text \<open>
  The stand-alone sampler \<open>src/proc_stat.c\<close>, which publishes the load like the daemon's monitor.
  Its differences: the number of conversions of \<open>sscanf\<close> is not looked at, \<open>%s\<close> is unbounded (\<open>None\<close>:
  the 16 characters of \<open>name\<close> overflow), and the constants are \<open>double\<close>, so products are rounded to
  53 bits and only the stored result to 24.
\<close>

subsection \<open>The program\<close>

definition MAX_CPUS :: int where "MAX_CPUS = 256"

definition scan_name :: "string \<Rightarrow> string option" where
  \<comment> \<open>\<open>%s\<close> into \<open>name[16]\<close>; what is left to read\<close>
  "scan_name buffer =
     (let t = dropWhile c_isspace buffer; w = takeWhile (\<lambda>c. \<not> c_isspace c) t
      in if 15 < length w then None else Some (drop (length w) t))"

fun sampler_lines :: "nat \<Rightarrow> nat \<Rightarrow> string list \<Rightarrow> cpu_data list \<Rightarrow> (nat \<times> cpu_data list) option" where
  "sampler_lines ncpu i [] cpus = Some (i, cpus)"
| "sampler_lines ncpu i (buffer # ls) cpus =
     (if \<not> i < ncpu + 1 then Some (i, cpus)
      else if \<not> startswith buffer ''cpu'' then Some (i, cpus)
      else case scan_name buffer of
        None \<Rightarrow> None
      | Some rest \<Rightarrow> sampler_lines ncpu (i + 1) ls (cpus[i := add_up (store_fields (scan_fields 8 rest) (cpus ! i))]))"

definition sampler_read :: "nat \<Rightarrow> string \<Rightarrow> cpu_data list \<Rightarrow> (nat \<times> cpu_data list) option" where
  "sampler_read ncpu content cpus = sampler_lines ncpu 0 (fgets_lines content) cpus"

definition sampler_load :: "cpu_data list \<Rightarrow> cpu_data list \<Rightarrow> int \<Rightarrow> rat" where
  "sampler_load cur prev index =
     (if index < 0 \<or> MAX_CPUS + 1 \<le> index then - 1
      else (let c = cur ! nat index; p = prev ! nat index;
                total_diff = total c - total p;
                idle_diff = (idle c + iowait c) - (idle p + iowait p)
            in if total_diff = 0 then 0
               else rnd32 (rnd64 (rnd32 (to_float32 (total_diff - idle_diff) / to_float32 total_diff) * 100))))"

definition sampler_smooth :: "rat \<Rightarrow> rat \<Rightarrow> rat" where
  \<comment> \<open>\<open>load_1s * 0.9 + load_10ms * 0.1\<close>\<close>
  "sampler_smooth l1 l10 = rnd32 (rnd64 (rnd64 (l1 * rnd64 (9 / 10)) + rnd64 (l10 * rnd64 (1 / 10))))"

definition sampler_round :: "nat \<Rightarrow> u64 \<Rightarrow> string \<Rightarrow> monitor \<Rightarrow> monitor option" where
  "sampler_round ncpu current_time content m = do {
     (n, cs) \<leftarrow> sampler_read ncpu content (curr_cpus m);
     let l10 = sampler_load cs (prev_cpus m) 0;
     let l1 = sampler_smooth (avg_load m) l10;
     Some (m\<lparr>curr_cpus := cs, avg_load := l1,
             published := \<lparr>load_10ms = l10, load_1s = l1, last_update_time = current_time\<rparr>,
             shm := (shm m)\<lparr>busy_degree := get_system_busy_degree l1\<rparr>,
             prev_cpus := (prev_cpus m)[0 := cs ! 0]\<rparr>) }"

fun sampler_rounds :: "nat \<Rightarrow> (u64 \<times> string) list \<Rightarrow> monitor \<Rightarrow> monitor option" where
  "sampler_rounds ncpu [] m = Some m"
| "sampler_rounds ncpu ((t, content) # xs) m =
     (case sampler_round ncpu t content m of None \<Rightarrow> None | Some m' \<Rightarrow> sampler_rounds ncpu xs m')"

definition sampler_start ::
    "nat \<Rightarrow> string \<Rightarrow> cpu_data list \<Rightarrow> cpu_data list \<Rightarrow> load_data \<Rightarrow> system_data \<Rightarrow> monitor option" where
  "sampler_start ncpu content prev0 curr0 pub sd =
     map_option (\<lambda>(n, cs). \<lparr>prev_cpus = cs, curr_cpus = curr0, avg_load = 30, published = pub, shm = sd\<rparr>)
       (sampler_read ncpu content prev0)"

definition sampler_main ::
    "bool \<Rightarrow> bool \<Rightarrow> nat \<Rightarrow> string \<Rightarrow> (u64 \<times> string) list \<Rightarrow> cpu_data list \<Rightarrow> cpu_data list \<Rightarrow>
     load_data \<Rightarrow> system_data \<Rightarrow> (int + monitor) option" where
  \<comment> \<open>\<open>Inl\<close> is the exit status when \<open>/proc/stat\<close> cannot be opened or the memory cannot be mapped;
    otherwise the loop runs on, here for as many turns as there are samples\<close>
  "sampler_main stat_opened shm_mapped ncpu content xs prev0 curr0 pub sd =
     (if \<not> stat_opened then Some (Inl 1)
      else if \<not> shm_mapped then Some (Inl 1)
      else do { m \<leftarrow> sampler_start ncpu content prev0 curr0 pub sd;
                m' \<leftarrow> sampler_rounds ncpu xs m; Some (Inr m') })"

subsection \<open>The same numbers as the daemon\<close>

lemma double_times_100: "rnd64 (rnd32 x * 100) = rnd32 x * 100"
proof -
  have "fits_format 23 (- 149) (rnd32 x)" unfolding rnd32_def by (rule fits_rnd_at)
  then obtain n :: int and e where n: "rnd32 x = of_int n * pow2 e" "\<bar>n\<bar> \<le> 2 ^ Suc 23" "- 149 \<le> e"
    unfolding fits_format_def by auto
  have "rnd32 x * 100 = of_int (100 * n) * pow2 e" using n(1) by simp
  moreover have "\<bar>100 * n\<bar> \<le> 2 ^ 53" "- 1074 \<le> e" using n(2,3) by simp_all
  ultimately have "representable (rnd32 x * 100)" unfolding representable_def by blast
  then show ?thesis by (rule rnd64_representable)
qed

lemma sampler_load_0: "sampler_load cur prev 0 = read_system_load (cur ! 0) (prev ! 0)"
  by (simp add: sampler_load_def read_system_load_def MAX_CPUS_def double_times_100 Let_def)

definition regular_line :: "string \<Rightarrow> bool" where
  \<comment> \<open>a line of a processor has a short name and at least seven numbers\<close>
  "regular_line l \<longleftrightarrow> startswith l ''cpu'' \<longrightarrow>
     (case scan_word 15 l of None \<Rightarrow> False
      | Some (name, rest) \<Rightarrow> scan_name l = Some rest \<and> 7 \<le> length (scan_fields 8 rest))"

definition regular_stat :: "string \<Rightarrow> bool" where
  "regular_stat content \<longleftrightarrow> list_all regular_line (fgets_lines content)"

lemma sampler_lines_daemon:
  "list_all regular_line ls \<Longrightarrow> sampler_lines ncpu i ls cpus = Some (read_cpu_lines ncpu i ls cpus)"
proof (induction ncpu i ls cpus rule: sampler_lines.induct)
  case (2 ncpu i buffer ls cpus)
  then show ?case by (auto simp: regular_line_def Let_def split: option.splits)
qed simp

lemma sampler_read_daemon:
  "regular_stat content \<Longrightarrow> sampler_read ncpu content cpus = Some (read_cpu_data ncpu content cpus)"
  by (simp add: regular_stat_def sampler_read_def read_cpu_data_def sampler_lines_daemon)

definition same_samples :: "monitor \<Rightarrow> monitor \<Rightarrow> bool" where
  \<comment> \<open>the sampler and the daemon's monitor agree on everything but the average\<close>
  "same_samples a b \<longleftrightarrow> prev_cpus a = prev_cpus b \<and> curr_cpus a = curr_cpus b \<and>
     load_10ms (published a) = load_10ms (published b) \<and>
     last_update_time (published a) = last_update_time (published b) \<and>
     event_bits (shm a) = event_bits (shm b)"

lemma sampler_round_daemon:
  assumes "regular_stat content" "same_samples a b"
  shows "\<exists>a'. sampler_round ncpu t content a = Some a' \<and> same_samples a' (monitor_round ncpu t content b) \<and>
    avg_load a' = sampler_smooth (avg_load a) (load_10ms (published a')) \<and>
    load_1s (published a') = avg_load a' \<and> event_bits (shm a') = event_bits (shm a) \<and>
    busy_degree (shm a') = get_system_busy_degree (avg_load a')"
  using assms
  by (simp add: sampler_round_def sampler_read_daemon monitor_round_def same_samples_def sampler_load_0
      case_prod_beta Let_def)

subsection \<open>The average\<close>

lemma sampler_smooth_mono: "l \<le> l' \<Longrightarrow> x \<le> x' \<Longrightarrow> sampler_smooth l x \<le> sampler_smooth l' x'"
  unfolding sampler_smooth_def
  by (intro r32.mono r64.mono add_mono mult_right_mono r64.nonneg) simp_all

lemma sampler_smooth_ends: "sampler_smooth 0 0 = 0" "sampler_smooth 100 100 = 100"
  by (simp add: sampler_smooth_def) (simp add: sampler_smooth_def py_eval)

lemma sampler_smooth_bounds:
  "0 \<le> l \<Longrightarrow> l \<le> 100 \<Longrightarrow> 0 \<le> x \<Longrightarrow> x \<le> 100 \<Longrightarrow> 0 \<le> sampler_smooth l x \<and> sampler_smooth l x \<le> 100"
  using sampler_smooth_mono [of 0 l 0 x] sampler_smooth_mono [of l 100 x 100] by (simp add: sampler_smooth_ends)

text \<open>
  C10: started on the same samples of a regular \<open>/proc/stat\<close>, the sampler and the daemon's monitor
  compute the same loads, in spite of the different widths of their products, and keep the
  same counters, and the events stay as they were. The sampler's average is the smoothing of
  the loads in turn, and the busy degree and the load it publishes last are those of the
  average. When moreover the samples and the first average are percentages, so is the average.
\<close>

theorem sampler_agrees:
  assumes "list_all (\<lambda>(t, content). regular_stat content) xs" "same_samples a b"
  shows "\<exists>a'. sampler_rounds ncpu xs a = Some a' \<and> same_samples a' (monitor_rounds ncpu xs b) \<and>
    event_bits (shm a') = event_bits (shm a) \<and>
    avg_load a' = foldl sampler_smooth (avg_load a) (sampled ncpu xs b) \<and>
    (list_all (\<lambda>x. 0 \<le> x \<and> x \<le> 100) (sampled ncpu xs b) \<and> 0 \<le> avg_load a \<and> avg_load a \<le> 100 \<longrightarrow>
      0 \<le> avg_load a' \<and> avg_load a' \<le> 100) \<and>
    (xs \<noteq> [] \<longrightarrow> busy_degree (shm a') = get_system_busy_degree (avg_load a') \<and> load_1s (published a') = avg_load a')"
  using assms
proof (induction xs arbitrary: a b)
  case Nil
  then show ?case by simp
next
  case (Cons x xs)
  obtain t content where x: "x = (t, content)" by (cases x)
  let ?b = "monitor_round ncpu t content b"
  obtain a1 where a1: "sampler_round ncpu t content a = Some a1" "same_samples a1 ?b"
    "avg_load a1 = sampler_smooth (avg_load a) (load_10ms (published a1))"
    "load_1s (published a1) = avg_load a1" "busy_degree (shm a1) = get_system_busy_degree (avg_load a1)"
    "event_bits (shm a1) = event_bits (shm a)"
    using sampler_round_daemon [of content a b ncpu t] Cons.prems x by auto
  have l: "load_10ms (published a1) = load_10ms (published ?b)" using a1(2) by (simp add: same_samples_def)
  have p: "0 \<le> avg_load a1 \<and> avg_load a1 \<le> 100" if "0 \<le> avg_load a" "avg_load a \<le> 100"
    "0 \<le> load_10ms (published ?b)" "load_10ms (published ?b) \<le> 100"
    unfolding a1(3) l using that by (rule sampler_smooth_bounds)
  have rs: "list_all (\<lambda>(t, content). regular_stat content) xs" using Cons.prems(1) by simp
  obtain a' where "sampler_rounds ncpu xs a1 = Some a'" "same_samples a' (monitor_rounds ncpu xs ?b)"
    "event_bits (shm a') = event_bits (shm a1)"
    "avg_load a' = foldl sampler_smooth (avg_load a1) (sampled ncpu xs ?b)"
    "list_all (\<lambda>x. 0 \<le> x \<and> x \<le> 100) (sampled ncpu xs ?b) \<and> 0 \<le> avg_load a1 \<and> avg_load a1 \<le> 100 \<longrightarrow>
      0 \<le> avg_load a' \<and> avg_load a' \<le> 100"
    "xs \<noteq> [] \<longrightarrow> busy_degree (shm a') = get_system_busy_degree (avg_load a') \<and> load_1s (published a') = avg_load a'"
    using Cons.IH [OF rs a1(2)] by blast
  with x a1 l p show ?case by (intro exI [of _ a']) (cases xs; simp add: Let_def)
qed

theorem sampler_agrees_witness:
  "\<exists>a'. sampler_rounds 1 [(7, example_stat ''130'' ''270'')] example_monitor = Some a' \<and>
    0 \<le> avg_load a' \<and> avg_load a' \<le> 100 \<and> event_bits (shm a') = event_bits (shm example_monitor)"
proof -
  let ?xs = "[(7, example_stat ''130'' ''270'')]"
  have "regular_stat (example_stat ''130'' ''270'')" by code_simp
  moreover have "snd (read_cpu_data 1 (example_stat ''130'' ''270'') (curr_cpus example_monitor)) ! 0 = counters 130 270 0"
    by code_simp
  then have "list_all (\<lambda>x. 0 \<le> x \<and> x \<le> 100) (sampled 1 ?xs example_monitor)"
    by (simp add: monitor_round_def case_prod_beta Let_def example_prev)
      (simp add: read_system_load_def counters_def add_up_def Let_def to_float32_def py_eval)
  moreover have "same_samples example_monitor example_monitor" by (simp add: same_samples_def)
  moreover have "avg_load example_monitor = 30" by (simp add: example_monitor_def monitor_start_def)
  ultimately show ?thesis using sampler_agrees [of ?xs example_monitor example_monitor 1] by auto
qed

end
