(* ===== verification/DaemonMain.thy ===== *)
theory DaemonMain
  imports Daemon
begin

text \<open>
  The daemon's \<open>main\<close> (\<open>src/server.c\<close>): its arguments, the steps of the start with their early
  returns, the serving loop and the orderly stop. What the system answers to each step is a
  record, \<open>host\<close>; what the process does to resources that outlive a step is recorded in
  \<open>acts\<close>, the latest action last. The datagrams that arrive until a signal clears \<open>g_running\<close>
  are an argument. The threads are those of LoadMonitor.
\<close>

subsection \<open>Arguments\<close>

record options =
  enable_xsched_xserver :: bool
  xserver_path :: string
  xserver_policy :: string
  xserver_port :: string

datatype arguments = Run options | Help | Unknown_argument string

fun parse_args :: "options \<Rightarrow> string list \<Rightarrow> arguments" where
  \<comment> \<open>an option at the end, without its value, is an unknown argument\<close>
  "parse_args opts [] = Run opts"
| "parse_args opts [a] =
     (if a = ''--enable-xsched-xserver'' then Run (opts\<lparr>enable_xsched_xserver := True\<rparr>)
      else if a = ''--help'' \<or> a = ''-h'' then Help else Unknown_argument a)"
| "parse_args opts (a # v # vs) =
     (if a = ''--enable-xsched-xserver'' then parse_args (opts\<lparr>enable_xsched_xserver := True\<rparr>) (v # vs)
      else if a = ''--xserver-path'' then parse_args (opts\<lparr>xserver_path := v\<rparr>) vs
      else if a = ''--xserver-policy'' then parse_args (opts\<lparr>xserver_policy := v\<rparr>) vs
      else if a = ''--xserver-port'' then parse_args (opts\<lparr>xserver_port := v\<rparr>) vs
      else if a = ''--help'' \<or> a = ''-h'' then Help else Unknown_argument a)"

definition default_options :: "string option \<Rightarrow> options" where
  \<comment> \<open>from the value of \<open>ROBFLEX_XSERVER_PATH\<close>\<close>
  "default_options env = \<lparr>enable_xsched_xserver = False,
     xserver_path = (case env of
        Some p \<Rightarrow> if p = [] then ''third_party/xsched/output/bin/xserver'' else p
      | None \<Rightarrow> ''third_party/xsched/output/bin/xserver''),
     xserver_policy = ''HPF'', xserver_port = ''50000''\<rparr>"

subsection \<open>The steps of the start\<close>

datatype bg_thread = Cpu_monitor | Idle_waker

record host =
  env_path :: "string option"
  sigaction_ok :: "bool \<times> bool" \<comment> \<open>for \<open>SIGINT\<close> and for \<open>SIGTERM\<close>\<close>
  caps_read :: bool \<comment> \<open>\<open>cap_get_proc\<close>\<close>
  sys_nice_flag :: "bool option" \<comment> \<open>\<open>cap_get_flag\<close> of \<open>CAP_SYS_NICE\<close>, unless it fails\<close>
  socket_result :: int
  bind_ok :: bool
  fork_result :: int
  mapping :: "system_data option" \<comment> \<open>what the shared memory holds once it is mapped\<close>
  thread_ok :: "bg_thread \<Rightarrow> bool"
  detach_ok :: "bg_thread \<Rightarrow> bool"
  unlink_ok :: bool \<comment> \<open>of the socket's path, at the end\<close>
  kill_ok :: bool \<comment> \<open>\<open>SIGTERM\<close> could be sent to the child\<close>
  waitpid_ok :: bool \<comment> \<open>the child was waited for; a signal can interrupt \<open>waitpid\<close>\<close>

datatype action =
    Path_removed
  | Socket_opened int
  | Path_bound int
  | Socket_closed int
  | Child_started int string string string
  | Child_signalled int
  | Child_stopped int \<comment> \<open>its end has been waited for\<close>
  | Thread_started bg_thread

record process =
  the_daemon :: daemon
  xserver_pid :: int
  acts :: "action list"

definition act :: "action \<Rightarrow> process \<Rightarrow> process" where
  "act a p = p\<lparr>acts := acts p @ [a]\<rparr>"

definition setup_signal_handlers :: "host \<Rightarrow> int" where
  "setup_signal_handlers h =
     (if \<not> fst (sigaction_ok h) then - 1 else if \<not> snd (sigaction_ok h) then - 1 else 0)"

definition check_capability :: "host \<Rightarrow> int" where
  "check_capability h =
     (if \<not> caps_read h then - 1
      else case sys_nice_flag h of None \<Rightarrow> - 1 | Some has_cap \<Rightarrow> if has_cap then 0 else - 1)"

definition setup_unix_socket :: "host \<Rightarrow> process \<Rightarrow> int \<times> process" where
  "setup_unix_socket h p =
     (if socket_result h < 0 then (- 1, p)
      else let p = act (Socket_opened (socket_result h)) p
           in if bind_ok h then (0, act (Path_bound (socket_result h)) p)
              else (- 1, act (Socket_closed (socket_result h)) p))"

definition start_xsched_xserver :: "host \<Rightarrow> options \<Rightarrow> process \<Rightarrow> int \<times> process" where
  \<comment> \<open>the parent's side: \<open>fork\<close> returns a positive number, or -1\<close>
  "start_xsched_xserver h opts p =
     (if fork_result h < 0 then (- 1, p)
      else (0, (act (Child_started (fork_result h) (xserver_path opts) (xserver_policy opts) (xserver_port opts)) p)
        \<lparr>xserver_pid := fork_result h\<rparr>))"

definition stop_xsched_xserver :: "host \<Rightarrow> process \<Rightarrow> process" where
  \<comment> \<open>\<open>SIGTERM\<close>, then \<open>waitpid\<close>; a failure of the first is only printed, one of the second ignored\<close>
  "stop_xsched_xserver h p =
     (if xserver_pid p \<le> 0 then p
      else let p = (if kill_ok h then act (Child_signalled (xserver_pid p)) p else p);
               p = (if waitpid_ok h then act (Child_stopped (xserver_pid p)) p else p)
           in p\<lparr>xserver_pid := - 1\<rparr>)"

definition get_shmem_data :: "host \<Rightarrow> process \<Rightarrow> process" where
  "get_shmem_data h p =
     (if ptr_shmem (the_daemon p) \<noteq> None then p
      else p\<lparr>the_daemon := (the_daemon p)\<lparr>ptr_shmem := mapping h\<rparr>\<rparr>)"

definition clear_shmem :: "system_data \<Rightarrow> system_data" where
  "clear_shmem sd = sd\<lparr>event_bits := map (\<lambda>x. 0) (event_bits sd), futex_wake_seq := 0\<rparr>"

definition start_thread :: "host \<Rightarrow> bg_thread \<Rightarrow> process \<Rightarrow> bool \<times> process" where
  "start_thread h b p = (if thread_ok h b then (detach_ok h b, act (Thread_started b) p) else (False, p))"

subsection \<open>Serving and stopping\<close>

definition serve_and_stop :: "'j cjson \<Rightarrow> kernel \<Rightarrow> host \<Rightarrow> string list \<Rightarrow> process \<Rightarrow> (int \<times> process) option" where
  "serve_and_stop cj k h datagrams p = do {
     d \<leftarrow> serve cj k datagrams (the_daemon p);
     let p = act (Socket_closed (socket_result h)) (p\<lparr>the_daemon := d\<rparr>);
     let p = (if unlink_ok h then act Path_removed p else p);
     Some (0, stop_xsched_xserver h p) }"

definition start_and_serve :: "'j cjson \<Rightarrow> kernel \<Rightarrow> host \<Rightarrow> string list \<Rightarrow> process \<Rightarrow> (int \<times> process) option" where
  \<comment> \<open>from the mapping of the shared memory on; a refused scheduling policy is only reported\<close>
  "start_and_serve cj k h datagrams p =
     (let p = get_shmem_data h p in
      case ptr_shmem (the_daemon p) of
        None \<Rightarrow> Some (1, p)
      | Some sd \<Rightarrow>
          (let p = p\<lparr>the_daemon := (the_daemon p)\<lparr>ptr_shmem := Some (clear_shmem sd)\<rparr>\<rparr>;
               (ok, p) = start_thread h Cpu_monitor p
           in if \<not> ok then Some (1, p)
              else let (ok, p) = start_thread h Idle_waker p
                   in if \<not> ok then Some (1, p) else serve_and_stop cj k h datagrams p))"

definition server_main ::
    "'j cjson \<Rightarrow> kernel \<Rightarrow> host \<Rightarrow> string list \<Rightarrow> string list \<Rightarrow> process \<Rightarrow> (int \<times> process) option" where
  "server_main cj k h args datagrams p =
     (case parse_args (default_options (env_path h)) args of
        Help \<Rightarrow> Some (0, p)
      | Unknown_argument a \<Rightarrow> Some (1, p)
      | Run opts \<Rightarrow>
          (if setup_signal_handlers h \<noteq> 0 then Some (1, p)
           else if check_capability h \<noteq> 0 then Some (1, p)
           else let (r, p) = setup_unix_socket h (act Path_removed p)
                in if r \<noteq> 0 then Some (1, p)
                   else if enable_xsched_xserver opts then
                     (let (r, p) = start_xsched_xserver h opts p
                      in if r \<noteq> 0 then Some (1, act (Socket_closed (socket_result h)) p)
                         else start_and_serve cj k h datagrams p)
                   else start_and_serve cj k h datagrams p))"

subsection \<open>What is left behind\<close>

fun open_sockets :: "action list \<Rightarrow> int set \<Rightarrow> int set" where
  "open_sockets [] S = S"
| "open_sockets (Socket_opened fd # as1) S = open_sockets as1 (insert fd S)"
| "open_sockets (Socket_closed fd # as1) S = open_sockets as1 (S - {fd})"
| "open_sockets (_ # as1) S = open_sockets as1 S"

fun children :: "action list \<Rightarrow> int set \<Rightarrow> int set" where
  "children [] S = S"
| "children (Child_started pid a b c # as1) S = children as1 (insert pid S)"
| "children (Child_stopped pid # as1) S = children as1 (S - {pid})"
| "children (_ # as1) S = children as1 S"

fun path_bound :: "action list \<Rightarrow> bool \<Rightarrow> bool" where
  "path_bound [] b = b"
| "path_bound (Path_bound fd # as1) b = path_bound as1 True"
| "path_bound (Path_removed # as1) b = path_bound as1 False"
| "path_bound (_ # as1) b = path_bound as1 b"

lemma open_sockets_append [simp]: "open_sockets (xs @ ys) S = open_sockets ys (open_sockets xs S)"
  by (induction xs S rule: open_sockets.induct) simp_all

lemma children_append [simp]: "children (xs @ ys) S = children ys (children xs S)"
  by (induction xs S rule: children.induct) simp_all

lemma path_bound_append [simp]: "path_bound (xs @ ys) b = path_bound ys (path_bound xs b)"
  by (induction xs b rule: path_bound.induct) simp_all

definition fresh :: "daemon \<Rightarrow> process" where
  "fresh d = \<lparr>the_daemon = d, xserver_pid = - 1, acts = []\<rparr>"

definition ran :: "action list \<Rightarrow> bool" where
  \<comment> \<open>the serving loop was reached\<close>
  "ran as1 \<longleftrightarrow> Thread_started Idle_waker \<in> set as1"

text \<open>
  C28: what a daemon that served leaves behind. When \<open>main\<close> returns 0 after its threads have
  started, its socket is closed; the socket's path is still bound only if it could not be
  unlinked; a child that was started has been sent \<open>SIGTERM\<close> unless that failed, and has ended
  unless \<open>waitpid\<close> was interrupted, which \<open>main\<close> ignores: exactly then a child may be left
  running. The two threads were started; and what it served are the datagrams, from a shared
  memory in which no event was raised and the wake counter was zero.
\<close>

theorem orderly_stop:
  assumes "server_main cj k h args datagrams (fresh d) = Some (0, p)" and "ran (acts p)"
    and "ptr_shmem d = None" and "0 < fork_result h \<or> fork_result h = - 1"
  shows "open_sockets (acts p) {} = {} \<and> path_bound (acts p) False = (\<not> unlink_ok h) \<and>
    children (acts p) {} = {pid. (\<exists>a b c. Child_started pid a b c \<in> set (acts p)) \<and> \<not> waitpid_ok h} \<and>
    (\<forall>pid a b c. Child_started pid a b c \<in> set (acts p) \<longrightarrow> (Child_signalled pid \<in> set (acts p)) = kill_ok h) \<and>
    Thread_started Cpu_monitor \<in> set (acts p) \<and>
    (\<exists>sd. mapping h = Some sd \<and> serve cj k datagrams (d\<lparr>ptr_shmem := Some (clear_shmem sd)\<rparr>) = Some (the_daemon p))"
  using assms
  by (auto simp: server_main_def setup_unix_socket_def start_xsched_xserver_def start_and_serve_def serve_and_stop_def
      stop_xsched_xserver_def start_thread_def get_shmem_data_def fresh_def act_def ran_def Let_def bind_eq_Some_conv
      split: arguments.splits if_splits option.splits)

text \<open>
  A start that fails after the child was started leaves it running. Whenever \<open>main\<close>
  returns 1 and has started the xserver, which happens when the memory or a thread is
  refused, the child still runs and the socket's path is still bound.
\<close>

theorem failed_start_leaves_child:
  assumes "server_main cj k h args datagrams (fresh d) = Some (1, p)" and "Child_started pid a b c \<in> set (acts p)"
  shows "pid \<in> children (acts p) {} \<and> path_bound (acts p) False \<and> socket_result h \<in> open_sockets (acts p) {}"
  using assms
  by (auto simp: server_main_def setup_unix_socket_def start_xsched_xserver_def start_and_serve_def serve_and_stop_def
      stop_xsched_xserver_def start_thread_def get_shmem_data_def fresh_def act_def Let_def bind_eq_Some_conv
      split: arguments.splits if_splits option.splits)

subsection \<open>Examples\<close>

definition no_json :: "unit cjson" where
  \<comment> \<open>a parser that refuses every datagram\<close>
  "no_json = \<lparr>cj_parse = (\<lambda>s. None), cj_get = (\<lambda>j k. None), cj_int = (\<lambda>j. 0), cj_str = (\<lambda>j. None)\<rparr>"

definition example_host :: "bool \<Rightarrow> bool \<Rightarrow> host" where
  "example_host maps waits = \<lparr>env_path = Some ''/opt/xserver'', sigaction_ok = (True, True), caps_read = True,
     sys_nice_flag = Some True, socket_result = 3,
     bind_ok = True, fork_result = 4711,
     mapping = (if maps then Some \<lparr>busy_degree = SYSTEM_IDLE, futex_wake_seq = 5, event_bits = replicate 16 9\<rparr> else None),
     thread_ok = (\<lambda>b. True), detach_ok = (\<lambda>b. True), unlink_ok = True, kill_ok = True, waitpid_ok = waits\<rparr>"

definition example_daemon :: daemon where
  "example_daemon = \<lparr>ptr_shmem = None, calls = []\<rparr>"

definition example_main :: "bool \<Rightarrow> bool \<Rightarrow> (int \<times> process) option" where
  "example_main maps waits = server_main no_json (\<lambda>cs c. 0) (example_host maps waits)
     [''--xserver-port'', ''50001'', ''--enable-xsched-xserver''] [''{}'', ''x''] (fresh example_daemon)"

theorem orderly_stop_witness:
  "(\<exists>p. example_main True True = Some (0, p) \<and> children (acts p) {} = {}) \<and>
   (\<exists>p. example_main True False = Some (0, p) \<and> 4711 \<in> children (acts p) {})"
proof -
  let ?c = "Child_started 4711 ''/opt/xserver'' ''HPF'' ''50001''"
  have "map_option (\<lambda>(r, p). (r, ran (acts p), ?c \<in> set (acts p))) (example_main True True) = Some (0, True, True)"
    "map_option (\<lambda>(r, p). (r, ran (acts p), ?c \<in> set (acts p))) (example_main True False) = Some (0, True, True)"
    by (code_simp, code_simp)
  then obtain p q where p: "example_main True True = Some (0, p)" "ran (acts p)" "?c \<in> set (acts p)"
    and q: "example_main True False = Some (0, q)" "ran (acts q)" "?c \<in> set (acts q)" by auto
  show ?thesis
    using p q orderly_stop [OF p(1) [unfolded example_main_def] p(2)] orderly_stop [OF q(1) [unfolded example_main_def] q(2)]
    by (auto simp: example_daemon_def example_host_def)
qed

theorem failed_start_leaves_child_witness:
  "\<exists>p. example_main False True = Some (1, p) \<and> 4711 \<in> children (acts p) {}"
proof -
  have "map_option (\<lambda>(r, p). (r, Child_started 4711 ''/opt/xserver'' ''HPF'' ''50001'' \<in> set (acts p))) (example_main False True) =
      Some (1, True)" by code_simp
  then obtain p where p: "example_main False True = Some (1, p)"
    "Child_started 4711 ''/opt/xserver'' ''HPF'' ''50001'' \<in> set (acts p)" by auto
  show ?thesis using failed_start_leaves_child [OF p(1) [unfolded example_main_def] p(2)] p(1) by simp
qed

end
