(* ===== verification/WholeSystem.thy ===== *)
theory WholeSystem
  imports Protocol CSender
begin

text \<open>
  The parts together: what clients send, the daemon makes of it, and a thread under control sees
  of it. The two sides meet in the shared memory, which the daemon writes (\<open>ptr_shmem\<close>) and the
  tick reads (\<open>shared\<close>), and in the signal by which the daemon hands a new cost to a thread.
\<close>

subsection \<open>The shared memory seen from both sides\<close>

lemma test_event_bit_seen:
  assumes "ptr_mapped s" "\<not> bad_event e"
  shows "test_event P e s = Some (test_event_bit (Some (shared P (kworld s))) e)"
  using assms
  by (simp add: test_event_def test_event_bit_def bad_event_def word_index_def event_mask_def word_bits_def)

lemma served_raised:
  assumes "ready s" "i < ROBFLEX_MAX_LOCAL_EVENT_CTX"
  shows "served P s i \<longleftrightarrow> in_use (entries (event_map s) ! i) \<and>
    ev_idx (entries (event_map s) ! i) \<in> shm.active (Some (shared P (kworld s)))"
proof (cases "in_use (entries (event_map s) ! i)")
  case True
  moreover have "entries (event_map s) ! i \<in> set (entries (event_map s))"
    using assms by (intro nth_mem) (simp add: ready_def table_ok_def)
  ultimately have "\<not> bad_event (ev_idx (entries (event_map s) ! i))"
    using assms(1) by (auto simp: ready_def table_ok_def bad_event_def ROBFLEX_EVENT_NONE_def split: if_splits)
  then show ?thesis
    using True assms(1) test_event_bit_seen [of s "ev_idx (entries (event_map s) ! i)" P]
    by (auto simp: served_def shm.active_def ready_def)
next
  case False
  then show ?thesis by (simp add: served_def)
qed

lemma ctx_of_slot:
  assumes "ready s"
  shows "event_table_get_ctx (event_map s) e = Some c \<longleftrightarrow>
    (\<exists>i < ROBFLEX_MAX_LOCAL_EVENT_CTX. in_use (entries (event_map s) ! i) \<and>
       ev_idx (entries (event_map s) ! i) = e \<and> ev_ctx (entries (event_map s) ! i) = c)"
proof -
  have t: "table_ok (event_map s)" using assms by (simp add: ready_def)
  show ?thesis
  proof (cases "ROBFLEX_EVENT_NONE < e")
    case True
    then show ?thesis using get_ctx_Some [of "event_map s" e c] t by (simp add: table_ok_def)
  next
    case False
    have "ROBFLEX_EVENT_NONE < ev_idx (entries (event_map s) ! i)"
      if "i < ROBFLEX_MAX_LOCAL_EVENT_CTX" "in_use (entries (event_map s) ! i)" for i
      using t that nth_mem [of i "entries (event_map s)"] by (fastforce simp: table_ok_def)
    with False show ?thesis by auto
  qed
qed

subsection \<open>Events\<close>

definition steered :: "int set \<Rightarrow> 'w lib \<Rightarrow> local_context \<Rightarrow> bool" where
  \<comment> \<open>\<open>c\<close> is what a thread should be run by when the events \<open>raised\<close> are raised\<close>
  "steered raised s c \<longleftrightarrow>
     (c = loc_ctx s \<or> (\<exists>e \<in> raised. event_table_get_ctx (event_map s) e = Some c \<and> level (loc_ctx s) < level c)) \<and>
     (\<forall>e \<in> raised. \<forall>c'. event_table_get_ctx (event_map s) e = Some c' \<longrightarrow> level c' \<le> level c)"

lemma tick_steered:
  assumes "ready s"
  shows "\<exists>r. tick_ctx P s = Some r \<and> steered (shm.active (Some (shared P (kworld s)))) s (read_ctx r s)"
proof -
  obtain r where r: "tick_ctx P s = Some r" using tick_ctx_ready [OF assms] by blast
  let ?R = "shm.active (Some (shared P (kworld s)))"
  note h = tick_ctx_highest [OF r]
  have slots: "\<exists>i < ROBFLEX_MAX_LOCAL_EVENT_CTX. served P s i \<and> slot_level s i = level c'"
    if "e \<in> ?R" "event_table_get_ctx (event_map s) e = Some c'" for e c'
    using that served_raised [OF assms] unfolding ctx_of_slot [OF assms] slot_level_def by blast
  have "steered ?R s (read_ctx r s)"
  proof (cases r)
    case Own
    then have "\<forall>i < ROBFLEX_MAX_LOCAL_EVENT_CTX. served P s i \<longrightarrow> slot_level s i \<le> level (loc_ctx s)"
      using h by auto
    then show ?thesis using slots Own by (fastforce simp: steered_def read_ctx_def)
  next
    case (Slot i)
    then have i: "i < ROBFLEX_MAX_LOCAL_EVENT_CTX" "served P s i" "level (loc_ctx s) < slot_level s i"
      "\<forall>j < ROBFLEX_MAX_LOCAL_EVENT_CTX. served P s j \<longrightarrow> slot_level s j \<le> slot_level s i"
      using h by auto
    let ?e = "ev_idx (entries (event_map s) ! i)"
    have "?e \<in> ?R" "event_table_get_ctx (event_map s) ?e = Some (read_ctx r s)"
      using i(1,2) served_raised [OF assms i(1)] unfolding ctx_of_slot [OF assms] by (auto simp: Slot read_ctx_def)
    moreover have "level (read_ctx r s) = slot_level s i" by (simp add: Slot read_ctx_def slot_level_def)
    ultimately show ?thesis using slots i(3,4) unfolding steered_def by metis
  qed
  with r show ?thesis by blast
qed

text \<open>
  C2: commands steer threads. Let clients have sent to the daemon any commands that are in
  range (32-bit integers where the daemon reads them as numbers, ASCII text) and each shorter
  than the daemon's buffer. Then a tick of a thread that sees the daemon's memory serves the
  right context for the events that those commands, in their order, have left raised: that of
  a raised event which has a context of a higher level than the thread's own and which no
  other raised event's context outranks, or else the thread's own context, which then none
  outranks. Events without a context, and unknown names, change nothing.
\<close>

theorem commands_steer_ticks:
  assumes "cjson_ok cj" "list_all (\<lambda>c. in_range c \<and> length (wire c) < BUFFER_SIZE) cs"
    and "mapped (ptr_shmem d)" "ready s"
    and seen: "\<And>d'. serve cj k (map wire cs) d = Some d' \<Longrightarrow> ptr_shmem d' = Some (shared P (kworld s))"
  shows "\<exists>d' r. serve cj k (map wire cs) d = Some d' \<and> tick_ctx P s = Some r \<and>
    steered (fst (fold (meaning k) cs (abs_daemon d))) s (read_ctx r s)"
proof -
  obtain d' where d': "serve cj k (map wire cs) d = Some d'" "abs_daemon d' = fold (meaning k) cs (abs_daemon d)"
    using serve_wires [OF assms(1-3)] by blast
  then have "shm.active (Some (shared P (kworld s))) = fst (fold (meaning k) cs (abs_daemon d))"
    using seen [OF d'(1)] by (simp add: abs_daemon_def prod_eq_iff)
  then show ?thesis using tick_steered [OF assms(4), of P] d'(1) by simp
qed

definition two_events :: "command list" where
  "two_events = [Apply_event ''high_speed'' 0 1, Apply_event ''pedestrian_dense'' 0 1,
     Apply_event ''no such event'' 0 1, Cancel_event ''pedestrian_dense'' 1]"

theorem commands_steer_ticks_witness:
  "\<exists>(P :: u64 platform) r. tick_ctx P example_lib = Some r \<and> steered {0, 3} example_lib (read_ctx r example_lib)"
proof -
  have l: "list_all (\<lambda>c. in_range c \<and> length (wire c) < BUFFER_SIZE) two_events" by code_simp
  obtain d' where d': "serve flat_cjson (\<lambda>_ _. 0) (map wire two_events) example_daemon = Some d'"
    "mapped (ptr_shmem d')"
    using serve_wires [OF flat_cjson_ok l example_daemon_mapped] by blast
  then obtain sd where sd: "ptr_shmem d' = Some sd" by (auto simp: mapped_def)
  let ?P = "example_platform\<lparr>shared := \<lambda>_. sd\<rparr>"
  have "fst (fold (meaning (\<lambda>_ _. 0)) two_events (abs_daemon example_daemon)) = {0, 3}"
    by (auto simp: two_events_def example_daemon_abs robflex_get_event_idx_def robflex_event_name_list_def ROBFLEX_EVENT_NONE_def)
  then show ?thesis
    using commands_steer_ticks [OF flat_cjson_ok l example_daemon_mapped example_ready, of "\<lambda>_ _. 0" ?P] d'(1) sd
    by auto
qed

subsection \<open>Costs\<close>

text \<open>
  C14: a new time cost reaches its thread. A command with a cost of 1 to 2147483 microseconds
  (whose numbers are in 32-bit range and whose datagram is shorter than the daemon's buffer)
  makes the daemon send exactly one signal to the thread it names, with the value as sent;
  and when the thread is outside its critical section with nothing pending and no tick
  arrives meanwhile, its handler, run with that value, returns and has made it the slice of
  the thread's own context, in nanoseconds.
\<close>

theorem cost_command_reaches_thread:
  assumes "cjson_ok cj" "in_range (Update_ctrl_time_cost tid v)"
    "length (wire (Update_ctrl_time_cost tid v)) < BUFFER_SIZE" "mapped (ptr_shmem d)"
    and "calm s" "arrivals s = []" "1 \<le> v" "v \<le> 2147483"
  shows "\<exists>d' s'. serve cj k [wire (Update_ctrl_time_cost tid v)] d = Some d' \<and>
    calls d' = calls d @ [Sys_sigqueue tid v] \<and> shm.active (ptr_shmem d') = shm.active (ptr_shmem d) \<and>
    cpi_set_interrupt_handler P pr True v s = Some s' \<and> calm s' \<and>
    uint (time_slice_ns (aux (loc_ctx s'))) = v * 1000"
proof -
  obtain d' where "serve cj k [wire (Update_ctrl_time_cost tid v)] d = Some d'"
    "abs_daemon d' = meaning k (Update_ctrl_time_cost tid v) (abs_daemon d)"
    using serve_wires [OF assms(1) _ assms(4), of "[Update_ctrl_time_cost tid v]" k] assms(2,3) by auto
  moreover obtain s' where "cpi_set_interrupt_handler P pr True v s = Some s'" "calm s'"
    "uint (time_slice_ns (aux (loc_ctx s'))) = v * 1000"
    using cost_signal_value [OF assms(5,6), of P pr v] assms(7,8) by blast
  ultimately show ?thesis by (simp add: abs_daemon_def)
qed

theorem cost_command_reaches_thread_witness:
  "\<exists>d' s'. serve flat_cjson (\<lambda>_ _. 0) [wire (Update_ctrl_time_cost 77 2500)] example_daemon = Some d' \<and>
    calls d' = [Sys_sigqueue 77 2500] \<and>
    cpi_set_interrupt_handler example_platform print_members True 2500 latency_lib = Some s' \<and>
    uint (time_slice_ns (aux (loc_ctx s'))) = 2500000"
proof -
  have "in_range (Update_ctrl_time_cost 77 2500)" "length (wire (Update_ctrl_time_cost 77 2500)) < BUFFER_SIZE"
    by code_simp+
  moreover have "calls example_daemon = []" by (simp add: example_daemon_def)
  ultimately show ?thesis
    using cost_command_reaches_thread [OF flat_cjson_ok _ _ example_daemon_mapped latency_lib_facts(1,2),
        of 77 2500 "\<lambda>_ _. 0" example_platform print_members] by auto
qed

end
