(* ===== verification/CpuText.thy ===== *)
theory CpuText
  imports PyFloat "HOL-Library.Char_ord" "HOL-Library.List_Lexorder"
begin

text \<open>
  The text utilities of \<open>cpuinfo.py\<close>: field lookup in command output, clock rates as decimal
  strings, byte sizes, brand strings, architecture names. A Python value that may be
  \<open>None\<close> as an argument is an option; a function that may raise returns an option whose
  \<open>None\<close> is the exception (every caller catches \<open>Exception\<close>). The global trace object of an
  imported \<open>cpuinfo\<close> is inactive, so the trace calls do nothing and are left out.
\<close>

subsection \<open>Values of the info dictionary\<close>

datatype pyval =
    VNone
  | VStr string
  | VInt int
  | VTuple "int list"
  | VStrs "string list"

type_synonym info = "(string, pyval) pydict"

fun truthy :: "pyval \<Rightarrow> bool" where
  "truthy VNone = False"
| "truthy (VStr s) = (s \<noteq> [])"
| "truthy (VInt n) = (n \<noteq> 0)"
| "truthy (VTuple ns) = (ns \<noteq> [])"
| "truthy (VStrs ss) = (ss \<noteq> [])"

fun as_str :: "pyval \<Rightarrow> string option" where
  \<comment> \<open>a string method on the value: \<open>AttributeError\<close> on anything else\<close>
  "as_str (VStr s) = Some s"
| "as_str _ = None"

fun as_int :: "pyval \<Rightarrow> int option" where
  "as_int (VInt n) = Some n"
| "as_int _ = None"

definition repr_char :: "char \<Rightarrow> char \<Rightarrow> string" where
  "repr_char q c =
     (let bs = char_of (92 :: int); hex = (\<lambda>n. ''0123456789abcdef'' ! nat n)
      in if c = q \<or> c = bs then [bs, c]
         else if code c = 9 then [bs, CHR ''t'']
         else if code c = 10 then [bs, CHR ''n'']
         else if code c = 13 then [bs, CHR ''r'']
         else if code c < 32 \<or> (127 \<le> code c \<and> code c \<le> 160) \<or> code c = 173
              then [bs, CHR ''x'', hex (code c div 16), hex (code c mod 16)]
         else [c])"

definition py_str_repr :: "string \<Rightarrow> string" where
  "py_str_repr s =
     (let sq = char_of (39 :: int); dq = char_of (34 :: int);
          q = (if sq \<in> set s \<and> dq \<notin> set s then dq else sq)
      in q # concat (map (repr_char q) s) @ [q])"

fun py_format :: "pyval \<Rightarrow> string" where
  \<comment> \<open>\<open>'{0}'.format(v)\<close>\<close>
  "py_format VNone = ''None''"
| "py_format (VStr s) = s"
| "py_format (VInt n) = show_int n"
| "py_format (VTuple ns) = ''('' @ py_join '', '' (map show_int ns) @
     (if length ns = 1 then '','' else []) @ '')''"
| "py_format (VStrs ss) = ''['' @ py_join '', '' (map py_str_repr ss) @ '']''"

definition ljust :: "string \<Rightarrow> int \<Rightarrow> char \<Rightarrow> string" where
  "ljust s w c = s @ replicate (nat (w - int (length s))) c"

definition slice_upto :: "string \<Rightarrow> int \<Rightarrow> string" where
  \<comment> \<open>\<open>s[:i]\<close>\<close>
  "slice_upto s i = take (if 0 \<le> i then nat i else length s - nat (- i)) s"

definition slice_from :: "string \<Rightarrow> int \<Rightarrow> string" where
  \<comment> \<open>\<open>s[i:]\<close>\<close>
  "slice_from s i = drop (if 0 \<le> i then nat i else length s - nat (- i)) s"

definition without_dots :: "string \<Rightarrow> string" where
  "without_dots s = filter (\<lambda>c. c \<noteq> CHR ''.'') s"

definition digits_and_dots :: "string \<Rightarrow> string" where
  "digits_and_dots s = filter (\<lambda>c. is_digit c \<or> c = CHR ''.'') s"

subsection \<open>Fields of command output\<close>

fun field_of_line :: "bool \<Rightarrow> string \<Rightarrow> string list \<Rightarrow> string option" where
  "field_of_line cant_be_number line [] = None"
| "field_of_line cant_be_number line (n # ns) =
     (case cut_at '':'' line of
        None \<Rightarrow> field_of_line cant_be_number line ns
      | Some (l, r) \<Rightarrow>
          (let left = py_lower (py_strip l); right = py_strip r
           in if left = py_lower n \<and> right \<noteq> [] \<and> \<not> (cant_be_number \<and> py_isdigit right)
              then Some right else field_of_line cant_be_number line ns))"

fun first_field :: "bool \<Rightarrow> string list \<Rightarrow> string list \<Rightarrow> string option" where
  "first_field cant_be_number [] names = None"
| "first_field cant_be_number (line # ls) names =
     (case field_of_line cant_be_number line names of
        Some v \<Rightarrow> Some v
      | None \<Rightarrow> first_field cant_be_number ls names)"

definition get_field_actual :: "bool \<Rightarrow> string \<Rightarrow> string list \<Rightarrow> string option" where
  "get_field_actual cant_be_number raw_string field_names =
     first_field cant_be_number (splitlines raw_string) field_names"

definition get_field ::
    "bool \<Rightarrow> string \<Rightarrow> (string \<Rightarrow> pyval option) option \<Rightarrow> pyval \<Rightarrow> string list \<Rightarrow> pyval" where
  "get_field cant_be_number raw_string convert_to default_value field_names =
     (case get_field_actual cant_be_number raw_string field_names of
        None \<Rightarrow> default_value
      | Some v \<Rightarrow>
          (case convert_to of
             None \<Rightarrow> VStr v
           | Some f \<Rightarrow> (case f v of None \<Rightarrow> default_value | Some w \<Rightarrow> w)))"

definition to_int :: "string \<Rightarrow> pyval option" where
  "to_int s = map_option VInt (py_int s)"

subsection \<open>Clock rates\<close>

definition to_decimal_string :: "pyval \<Rightarrow> string" where
  "to_decimal_string ticks =
     (let t = map (\<lambda>c. if c = CHR '','' then CHR ''.'' else c) (py_format ticks);
          t = py_strip (digits_and_dots t);
          t = (if t = [] then ''0'' else t);
          t = (if CHR ''.'' \<notin> set t then t @ ''.0'' else t);
          t = rstrip_chars t ''0'';
          t = (if endswith t ''.'' then t @ ''0'' else t)
      in case py_float t of None \<Rightarrow> ''0.0'' | Some v \<Rightarrow> py_repr v)"

definition hz_short_to_full :: "string option \<Rightarrow> int option \<Rightarrow> int \<times> int" where
  "hz_short_to_full ticks scale =
     (case do {
        t \<leftarrow> ticks;
        v \<leftarrow> py_float t;
        sc \<leftarrow> scale;
        let hz = lstrip_chars (py_repr v) ''0'';
        old_index \<leftarrow> py_find hz ''.'';
        let hz = ljust (without_dots hz) (sc + int old_index + 1) CHR ''0'';
        let new_index = int old_index + sc;
        left \<leftarrow> py_int (slice_upto hz new_index);
        right \<leftarrow> py_int (slice_from hz new_index);
        Some (left, right)
      } of None \<Rightarrow> (0, 0) | Some p \<Rightarrow> p)"

definition hz_friendly_to_full :: "string \<Rightarrow> int \<times> int" where
  "hz_friendly_to_full hz_string =
     (let s = py_lower (py_strip hz_string);
          scale = (if endswith s ''ghz'' then Some 9 else if endswith s ''mhz'' then Some 6
                   else if endswith s ''hz'' then Some 0 else None);
          hz = py_strip (digits_and_dots s);
          hz = (if CHR ''.'' \<notin> set hz then hz @ ''.0'' else hz)
      in hz_short_to_full (Some hz) scale)"

definition hz_unit :: "nat \<Rightarrow> string \<times> nat" where
  "hz_unit dot_index =
     (if 9 < dot_index then (''GHz'', 9) else if 6 < dot_index then (''MHz'', 6)
      else if 3 < dot_index then (''KHz'', 3) else (''Hz'', 0))"

definition hz_short_to_friendly :: "string option \<Rightarrow> int option \<Rightarrow> string" where
  "hz_short_to_friendly ticks scale =
     (let (left, right) = hz_short_to_full ticks scale;
          result = show_int left @ ''.'' @ show_int right
      in case do {
           dot_index \<leftarrow> py_find result ''.'';
           let result = without_dots result;
           let (symbol, scale) = hz_unit dot_index;
           let k = length result - (scale + 1);
           v \<leftarrow> py_float (take k result @ ''.'' @ drop k result);
           Some (rstrip_chars (format_fixed 4 v @ '' '' @ symbol) ''0'')
         } of None \<Rightarrow> ''0.0000 Hz'' | Some r \<Rightarrow> r)"

subsection \<open>Evaluation\<close>

lemma replicate_numeral [py_eval]: "replicate (numeral k) x = x # replicate (pred_numeral k) x"
  by (simp add: numeral_eq_Suc)

lemmas cpu_text_eval [py_eval] =
  to_decimal_string_def hz_short_to_full_def hz_friendly_to_full_def hz_unit_def
  ljust_def slice_upto_def slice_from_def without_dots_def digits_and_dots_def py_repr_def
  take_Cons_numeral drop_Cons_numeral

subsection \<open>Facts\<close>

lemma cut_at_char: "c \<notin> set a \<Longrightarrow> cut_at [c] (a @ c # b) = Some (a, b)"
  by (induction a) auto

lemma lines_acc_line:
  "list_all (\<lambda>c. \<not> is_linebreak c) a \<Longrightarrow>
   lines_acc (a @ CHR 0x0A # r) w = (rev w @ a) # lines_acc r []"
  by (induction a arbitrary: w) (auto simp: is_linebreak_def code_def)

definition plain_text :: "string \<Rightarrow> bool" where
  "plain_text s \<longleftrightarrow> py_strip s = s \<and> list_all (\<lambda>c. \<not> is_linebreak c) s"

definition render_fields :: "(string \<times> string) list \<Rightarrow> string" where
  \<comment> \<open>one line \<open>key: value\<close> per field\<close>
  "render_fields kvs = concat (map (\<lambda>(k, v). k @ '': '' @ v @ [CHR 0x0A]) kvs)"

lemma splitlines_render:
  "\<forall>(k, v) \<in> set kvs. plain_text k \<and> plain_text v \<Longrightarrow>
   splitlines (render_fields kvs) = map (\<lambda>(k, v). k @ '': '' @ v) kvs"
proof (induction kvs)
  case Nil
  then show ?case by (simp add: splitlines_def render_fields_def)
next
  case (Cons p kvs)
  obtain k v where p: "p = (k, v)" by (cases p)
  have "list_all (\<lambda>c. \<not> is_linebreak c) (k @ '': '' @ v)"
    using Cons.prems p by (auto simp: plain_text_def is_linebreak_def code_def)
  from lines_acc_line [OF this, of "render_fields kvs" "[]"] Cons p
  show ?case by (simp add: splitlines_def render_fields_def)
qed

lemma strip_space: "py_strip v = v \<Longrightarrow> py_strip (CHR '' '' # v) = v"
  by (simp add: py_strip_def strip_by_def lstrip_by_def is_space_def code_def)

lemma field_of_rendered:
  assumes "plain_text k" "CHR '':'' \<notin> set k" "plain_text v" "v \<noteq> []"
  shows "field_of_line c (k @ '': '' @ v) names =
    (if py_lower k \<in> py_lower ` set names \<and> \<not> (c \<and> py_isdigit v) then Some v else None)"
  using assms cut_at_char [of "CHR '':''" k "CHR '' '' # v"]
  by (induction names) (auto simp: Let_def plain_text_def strip_space)

text \<open>
  Reading a field of a rendered file. From lines \<open>key: value\<close> the lookup returns the
  value of the first line whose key is one of the names, upper and lower case alike, and
  whose value is not a number where that is asked; \<open>None\<close> when there is no such line.
\<close>

theorem get_field_actual_rendered:
  assumes "\<forall>(k, v) \<in> set kvs. plain_text k \<and> CHR '':'' \<notin> set k \<and> plain_text v \<and> v \<noteq> []"
  shows "get_field_actual c (render_fields kvs) names =
    map_option snd (find (\<lambda>(k, v). py_lower k \<in> py_lower ` set names \<and> \<not> (c \<and> py_isdigit v)) kvs)"
proof -
  have "first_field c (map (\<lambda>(k, v). k @ '': '' @ v) kvs) names =
    map_option snd (find (\<lambda>(k, v). py_lower k \<in> py_lower ` set names \<and> \<not> (c \<and> py_isdigit v)) kvs)"
    using assms
  proof (induction kvs)
    case Nil
    then show ?case by simp
  next
    case (Cons p kvs)
    then show ?case
      by (cases p) (auto simp: field_of_rendered [simplified])
  qed
  moreover have "splitlines (render_fields kvs) = map (\<lambda>(k, v). k @ '': '' @ v) kvs"
    using assms by (intro splitlines_render) auto
  ultimately show ?thesis by (simp add: get_field_actual_def)
qed

theorem get_field_actual_rendered_witness:
  "get_field_actual True
     (render_fields [(''processor'', ''0''), (''CPU MHz'', ''28.5''), (''Processor'', ''ARMv7'')])
     [''model name'', ''PROCESSOR''] = Some ''ARMv7''"
proof -
  have "\<forall>(k, v) \<in> set [(''processor'', ''0''), (''CPU MHz'', ''28.5''), (''Processor'', ''ARMv7'')].
    plain_text k \<and> CHR '':'' \<notin> set k \<and> plain_text v \<and> v \<noteq> []"
    by code_simp
  from get_field_actual_rendered [OF this, of True "[''model name'', ''PROCESSOR'']"] show ?thesis
    by (simp add: py_lower_def lower_char_def code_def py_isdigit_def is_digit_def is_decimal_def
        char_of_def)
qed

lemma rstrip_last: "xs \<noteq> [] \<Longrightarrow> \<not> P (last xs) \<Longrightarrow> rstrip_by P xs = xs"
  by (cases xs rule: rev_cases) (auto simp: rstrip_by_def)

text \<open>
  A friendly clock rate is always a number with four decimals, a blank and one of the
  four units: stripping zeros at the end of the text, as the code does, removes nothing.
\<close>

theorem friendly_shape:
  "\<exists>v u. hz_short_to_friendly ticks scale = format_fixed 4 v @ '' '' @ u \<and>
     u \<in> {''Hz'', ''KHz'', ''MHz'', ''GHz''}"
proof -
  have z: "''0.0000 Hz'' = format_fixed 4 (Fin 0) @ '' '' @ ''Hz''" by (simp add: py_eval)
  have s: "rstrip_chars (x @ '' '' @ fst (hz_unit d)) ''0'' = x @ '' '' @ fst (hz_unit d)" for x d
    unfolding rstrip_chars_def by (rule rstrip_last) (auto simp: hz_unit_def)
  have u: "fst (hz_unit d) \<in> {''Hz'', ''KHz'', ''MHz'', ''GHz''}" for d
    by (simp add: hz_unit_def)
  have e: "\<exists>v' u. format_fixed 4 v @ '' '' @ fst (hz_unit d) = format_fixed 4 v' @ '' '' @ u \<and>
      u \<in> {''Hz'', ''KHz'', ''MHz'', ''GHz''}" for v d
    using u by blast
  have e0: "\<exists>v' u. ''0.0000 Hz'' = format_fixed 4 v' @ '' '' @ u \<and>
      u \<in> {''Hz'', ''KHz'', ''MHz'', ''GHz''}"
    unfolding z by blast
  show ?thesis
    unfolding hz_short_to_friendly_def Let_def case_prod_beta
    by (split option.split, intro conjI impI allI, rule e0, unfold bind_eq_Some_conv s)
      (elim exE conjE, simp only: option.inject, hypsubst, rule e)
qed

lemma digits_val_zeros: "digits_val (xs @ replicate m CHR ''0'') = digits_val xs * 10 ^ m"
proof (induction m)
  case 0
  then show ?case by simp
next
  case (Suc m)
  have "xs @ replicate (Suc m) CHR ''0'' = (xs @ replicate m CHR ''0'') @ [CHR ''0'']"
    by (simp add: replicate_append_same)
  then show ?case using Suc by (simp only: digits_val_snoc) (simp add: digit_val_def code_def)
qed

lemma is_decimal_0: "is_decimal (CHR ''0'')"
  by (simp add: is_decimal_def)

lemma not_dot: "list_all is_decimal s \<Longrightarrow> CHR ''.'' \<notin> set s"
  by (induction s) (auto simp: is_decimal_def)

lemma without_dots_decimal: "list_all is_decimal s \<Longrightarrow> without_dots s = s"
  by (induction s) (auto simp: without_dots_def is_decimal_def)

text \<open>
  Converting a decimal clock rate to Hz is exact. When the shortest text of the float is
  \<open>ds.fs\<close>, does not start with a zero and has no more decimals than the scale, the result
  is the integer \<open>dsfs\<close> shifted by the rest of the scale, with a zero second component.
\<close>

theorem hz_short_to_full_exact:
  assumes t: "py_float t = Some v" "py_repr v = ds @ ''.'' @ fs"
    and ds: "ds \<noteq> []" "list_all is_decimal ds" "hd ds \<noteq> CHR ''0''"
    and fs: "list_all is_decimal fs" "length fs \<le> n"
  shows "hz_short_to_full (Some t) (Some (int n)) = (digits_val (ds @ fs) * 10 ^ (n - length fs), 0)"
proof -
  let ?z = "\<lambda>m. replicate m CHR ''0''"
  have l: "lstrip_chars (ds @ ''.'' @ fs) ''0'' = ds @ ''.'' @ fs"
    using ds by (cases ds) (auto simp: lstrip_chars_def lstrip_by_def)
  have f: "py_find (ds @ ''.'' @ fs) ''.'' = Some (length ds)"
    using cut_at_char [of "CHR ''.''" ds fs] not_dot [OF ds(2)] by (simp add: py_find_def)
  have w: "without_dots (ds @ ''.'' @ fs) = ds @ fs"
    using without_dots_decimal [OF ds(2)] without_dots_decimal [OF fs(1)]
    by (simp add: without_dots_def)
  have j: "ljust (ds @ fs) (int n + int (length ds) + 1) CHR ''0'' = ds @ fs @ ?z (n - length fs) @ ''0''"
  proof -
    have "nat (int n + int (length ds) + 1 - int (length (ds @ fs))) = Suc (n - length fs)"
      using fs(2) by simp
    then show ?thesis by (simp add: ljust_def replicate_append_same)
  qed
  have len: "nat (int (length ds) + int n) = length (ds @ fs @ ?z (n - length fs))"
    using fs(2) by simp
  have up: "slice_upto (ds @ fs @ ?z (n - length fs) @ ''0'') (int (length ds) + int n)
      = ds @ fs @ ?z (n - length fs)"
    unfolding slice_upto_def using len by simp
  have dn: "slice_from (ds @ fs @ ?z (n - length fs) @ ''0'') (int (length ds) + int n) = ''0''"
    unfolding slice_from_def using len by simp
  have "list_all is_decimal (ds @ fs @ ?z (n - length fs))"
    using ds(2) fs(1) is_decimal_0 by (auto simp: list_all_iff)
  then have pi: "py_int (ds @ fs @ ?z (n - length fs)) = Some (digits_val (ds @ fs @ ?z (n - length fs)))"
    using ds(1) by (intro py_int_digits) auto
  have z: "py_int ''0'' = Some 0" by code_simp
  show ?thesis
    using digits_val_zeros [of "ds @ fs" "n - length fs"]
    unfolding hz_short_to_full_def by (simp add: t l f w j up dn pi z Let_def del: append.simps)
qed
theorem hz_short_to_full_exact_witness:
  "hz_short_to_full (Some ''2.8'') (Some 9) = (2800000000, 0)"
proof -
  have f: "py_float ''2.8'' = Some (Fin (3152519739159347 / 1125899906842624))"
    by (simp add: py_eval)
  have r: "py_repr (Fin (3152519739159347 / 1125899906842624)) = ''2'' @ ''.'' @ ''8''"
    by (simp add: py_eval)
  from hz_short_to_full_exact [OF f r, of 9] show ?thesis
    by (simp add: is_decimal_def digits_val_def digit_val_def code_def)
qed

end
