(* ===== verification/CpuParse.thy ===== *)
theory CpuParse
  imports CpuText
begin

text \<open>
  The parsers of \<open>cpuinfo.py\<close> that several sources share: byte sizes, brand strings, the CPU
  lines of a kernel log, the architecture name, and the filter every source ends with.
  \<open>None\<close> is a raised exception throughout.
\<close>

subsection \<open>Byte sizes\<close>

definition chomp :: "string \<Rightarrow> string" where
  \<comment> \<open>a regular expression's \<open>$\<close> also matches before a final newline\<close>
  "chomp s = (if s \<noteq> [] \<and> last s = CHR 0x0A then butlast s else s)"

definition size_match :: "char \<Rightarrow> string \<Rightarrow> bool" where
  \<comment> \<open>\<open>re.match(r"^[0-9]+U$", s)\<close>\<close>
  "size_match u s =
     (let t = chomp s in 2 \<le> length t \<and> last t = u \<and> list_all is_decimal (butlast t))"

definition size_formats :: "(char \<times> string) list" where
  "size_formats = [(CHR ''B'', ''B''), (CHR ''K'', ''KB''), (CHR ''M'', ''MB''), (CHR ''G'', ''GB'')]"

definition to_friendly_bytes :: "pyval \<Rightarrow> pyval" where
  "to_friendly_bytes input =
     (if \<not> truthy input then input
      else let s = py_format input
           in case find (\<lambda>(u, _). size_match u s) size_formats of
                None \<Rightarrow> VStr s
              | Some (_, friendly_size) \<Rightarrow> VStr (py_strip (butlast s) @ '' '' @ friendly_size))"

definition byte_units :: "(string \<times> int) list" where
  "byte_units =
     [(''gb'', 1024 * 1024 * 1024), (''mb'', 1024 * 1024), (''kb'', 1024),
      (''g'', 1024 * 1024 * 1024), (''m'', 1024 * 1024), (''k'', 1024), (''b'', 1)]"

definition friendly_bytes_to_int :: "string \<Rightarrow> pyval" where
  "friendly_bytes_to_int friendly_bytes =
     (let input = py_lower friendly_bytes
      in case find (\<lambda>(pattern, _). endswith input pattern) byte_units of
           None \<Rightarrow> VStr friendly_bytes
         | Some (pattern, multiplier) \<Rightarrow>
             (case py_int (py_strip (hd (split_str input pattern))) of
                None \<Rightarrow> VStr friendly_bytes
              | Some n \<Rightarrow> VInt (n * multiplier)))"

subsection \<open>Brand strings\<close>

definition parse_cpu_brand_string :: "string \<Rightarrow> (string \<times> int) option" where
  "parse_cpu_brand_string cpu_string =
     (let low = py_lower cpu_string
      in if \<not> str_in ''hz'' low then Some (''0.0'', 0)
         else do {
           let scale = (if endswith low ''mhz'' then 6 else if endswith low ''ghz'' then 9 else 0);
           hz \<leftarrow> (if str_in ''@'' low then nth_opt (split_str low ''@'') 1
                 else if 2 \<le> length (split_ws low) then last_opt (split_ws low) else None);
           let hz = py_strip (rstrip_chars (rstrip_chars hz ''mhz'') ''ghz'');
           Some (to_decimal_string (VStr hz), scale)
         })"

record cpu_ids =
  id_vendor :: "string option"
  id_stepping :: "int option"
  id_model :: "int option"
  id_family :: "int option"

definition no_ids :: cpu_ids where
  "no_ids = \<lparr>id_vendor = None, id_stepping = None, id_model = None, id_family = None\<rparr>"

definition int_of_0x :: "string \<Rightarrow> int option" where
  \<comment> \<open>\<open>int(value.lstrip('0x'), 16)\<close>\<close>
  "int_of_0x v = py_int16 (lstrip_chars v ''0x'')"

definition set_id :: "string \<times> string \<Rightarrow> cpu_ids \<Rightarrow> cpu_ids option" where
  "set_id p r = (let (name, v) = p in
     if name = ''origin'' then Some (r\<lparr>id_vendor := Some (strip_chars v [CHR 0x22])\<rparr>)
     else if name = ''stepping'' then map_option (\<lambda>n. r\<lparr>id_stepping := Some n\<rparr>) (int_of_0x v)
     else if name = ''model'' then map_option (\<lambda>n. r\<lparr>id_model := Some n\<rparr>) (int_of_0x v)
     else if name = ''fam'' \<or> name = ''family''
          then map_option (\<lambda>n. r\<lparr>id_family := Some n\<rparr>) (int_of_0x v)
     else Some r)"

definition positions :: "char \<Rightarrow> string \<Rightarrow> nat list" where
  "positions c s = filter (\<lambda>i. s ! i = c) [0..<length s]"

definition bracket_insides :: "string \<Rightarrow> string list" where
  \<comment> \<open>the n-th opening bracket is paired with the n-th closing one\<close>
  "bracket_insides s =
     map (\<lambda>(start, e). drop (start + 1) (take e s))
       (zip (positions (CHR ''('') s) (positions (CHR '')'') s))"

definition inside_pairs :: "string \<Rightarrow> (string \<times> string) list" where
  "inside_pairs inside =
     map (\<lambda>p. (p ! 0, p ! 1))
       (filter (\<lambda>p. 1 < length p)
         (map (\<lambda>pair. map py_strip (split_str pair '':'')) (split_str inside '','')))"

definition strip_inside :: "string \<Rightarrow> string \<times> bool \<Rightarrow> string \<times> bool" where
  "strip_inside inside st =
     (let (brand, is_working) = st; full = ''('' @ inside @ '')''
      in if endswith brand full
         then (py_strip (take (length brand - length full) brand), True) else st)"

lemma length_py_strip [simp]: "length (py_strip s) \<le> length s"
  by (simp add: py_strip_def strip_by_def rstrip_by_def lstrip_by_def)
    (metis dual_order.trans length_dropWhile_le length_rev)

lemma strip_insides_shrink:
  "fold strip_inside insides (b0, w0) = (b, w) \<Longrightarrow>
   length b \<le> length b0 \<and> (w \<longrightarrow> w0 \<or> length b < length b0)"
proof (induction insides arbitrary: b0 w0)
  case Nil
  then show ?case by simp
next
  case (Cons x xs)
  obtain b1 w1 where s: "strip_inside x (b0, w0) = (b1, w1)" by fastforce
  have "length b1 \<le> length b0 \<and> (w1 \<longrightarrow> w0 \<or> length b1 < length b0)"
  proof (cases "endswith b0 (''('' @ x @ '')'')")
    case True
    then obtain t where "b0 = t @ ''('' @ x @ '')''" by (auto simp: endswith_iff)
    with s True show ?thesis
      using length_py_strip [of t] by (auto simp: strip_inside_def)
  next
    case False
    with s show ?thesis by (simp add: strip_inside_def)
  qed
  moreover have "fold strip_inside xs (b1, w1) = (b, w)" using Cons.prems s by simp
  ultimately show ?case using Cons.IH [of b1 w1] by fastforce
qed

function strip_brackets :: "string list \<Rightarrow> string \<Rightarrow> string" where
  \<comment> \<open>the \<open>while is_working\<close> loop\<close>
  "strip_brackets insides brand =
     (let (b, is_working) = fold strip_inside insides (brand, False)
      in if is_working then strip_brackets insides b else b)"
  by pat_completeness auto
termination
  by (relation "measure (\<lambda>(insides, brand). length brand)")
    (auto dest!: strip_insides_shrink [OF sym])

declare strip_brackets.simps [simp del]

definition unit_names :: "string list" where
  "unit_names = [''GHz'', ''MHz'', ''Hz'']"

definition hz_of_inside :: "string \<Rightarrow> string \<times> int \<Rightarrow> (string \<times> int) option" where
  \<comment> \<open>the inner loop over the units breaks at the first one that occurs\<close>
  "hz_of_inside inside cur =
     (case find (\<lambda>entry. str_in entry inside) unit_names of
        None \<Rightarrow> Some cur
      | Some entry \<Rightarrow>
          (case py_find inside entry of
             None \<Rightarrow> Some cur
           | Some i \<Rightarrow> parse_cpu_brand_string (''CPU @ '' @ take (i + length entry) inside)))"

record cpu_line =
  line_hz :: string
  line_scale :: int
  line_brand :: string
  line_ids :: cpu_ids

definition parse_cpu_brand_string_dx :: "string \<Rightarrow> cpu_line option" where
  "parse_cpu_brand_string_dx cpu_string = do {
     let insides = bracket_insides cpu_string;
     ids \<leftarrow> ofold set_id (concat (map inside_pairs insides)) no_ids;
     let brand = strip_brackets insides (py_strip cpu_string);
     (hz_brand, scale) \<leftarrow> parse_cpu_brand_string brand;
     (hz_brand, scale) \<leftarrow>
       (if hz_brand = ''0.0'' then ofold hz_of_inside insides (hz_brand, scale)
        else Some (hz_brand, scale));
     Some \<lparr>line_hz = hz_brand, line_scale = scale, line_brand = brand, line_ids = ids\<rparr>
   }"

subsection \<open>Kernel logs\<close>

definition dmesg_markers :: "string list" where
  "dmesg_markers =
     ['' CPU0:'', '' CPU1:'', '' CPU:'',
      CHR 0x0A # ''CPU0:'', CHR 0x0A # ''CPU1:'', CHR 0x0A # ''CPU:'']"

definition first_line :: "string \<Rightarrow> string" where
  "first_line s = hd (split_str s [CHR 0x0A])"

definition dmesg_lines :: "string \<Rightarrow> string list" where
  "dmesg_lines output =
     map (\<lambda>l. py_strip (first_line l))
       (concat (map (\<lambda>m. tl (split_str output m)) dmesg_markers))"

definition field_count :: "cpu_line \<Rightarrow> nat" where
  \<comment> \<open>the first three members of the tuple are never \<open>None\<close>\<close>
  "field_count l =
     3 + (if id_vendor (line_ids l) = None then 0 else 1)
       + (if id_stepping (line_ids l) = None then 0 else 1)
       + (if id_model (line_ids l) = None then 0 else 1)
       + (if id_family (line_ids l) = None then 0 else 1)"

fun best_line :: "cpu_line list \<Rightarrow> cpu_line option \<Rightarrow> nat \<Rightarrow> cpu_line option" where
  "best_line [] best_string highest_count = best_string"
| "best_line (l # ls) best_string highest_count =
     (if highest_count < field_count l then best_line ls (Some l) (field_count l)
      else best_line ls best_string highest_count)"

definition origin_field :: "string \<Rightarrow> (string \<times> string) option" where
  "origin_field n =
     (let p = split_str (py_strip n) ''=''
      in map_option (\<lambda>v. (py_lower (py_strip (p ! 0)), py_strip v)) (nth_opt p 1))"

definition origin_ids :: "string \<Rightarrow> cpu_ids \<Rightarrow> cpu_ids option" where
  "origin_ids output ids =
     (case cut_at ''  Origin='' output of
        None \<Rightarrow> Some ids
      | Some (_, rest) \<Rightarrow> do {
          let fields = split_ws (py_strip (first_line (''  Origin='' @ rest)));
          pairs \<leftarrow> those (map origin_field fields);
          ofold set_id pairs ids
        })"

definition feature_categories :: "string list" where
  "feature_categories =
     [''  Features='', ''  Features2='', ''  AMD Features='', ''  AMD Features2='']"

definition feature_flags :: "string \<Rightarrow> string list option" where
  "feature_flags line = do {
     x \<leftarrow> nth_opt (split_str line ''<'') 1;
     Some (split_str (py_lower (hd (split_str x ''>''))) '','')
   }"

definition dmesg_flags :: "string \<Rightarrow> string list option" where
  "dmesg_flags output = do {
     let flag_lines = map (\<lambda>category. first_line (split_str output category ! 1))
       (filter (\<lambda>category. str_in category output) feature_categories);
     fs \<leftarrow> those (map feature_flags flag_lines);
     Some (sort (concat fs))
   }"

definition opt_str :: "string option \<Rightarrow> pyval" where
  "opt_str x = (case x of None \<Rightarrow> VNone | Some s \<Rightarrow> VStr s)"

definition opt_int :: "int option \<Rightarrow> pyval" where
  "opt_int x = (case x of None \<Rightarrow> VNone | Some n \<Rightarrow> VInt n)"

definition hz_tuple :: "string option \<Rightarrow> int option \<Rightarrow> pyval" where
  "hz_tuple ticks scale = (let (l, r) = hz_short_to_full ticks scale in VTuple [l, r])"

definition hz_friendly :: "string option \<Rightarrow> int option \<Rightarrow> pyval" where
  "hz_friendly ticks scale = VStr (hz_short_to_friendly ticks scale)"

definition keep_truthy :: "info \<Rightarrow> info" where
  "keep_truthy i = filter (\<lambda>(k, v). truthy v) i"

definition hz_info :: "string \<Rightarrow> int \<Rightarrow> string \<Rightarrow> int \<Rightarrow> info" where
  \<comment> \<open>the four clock entries, advertised and actual\<close>
  "hz_info adv adv_scale act act_scale =
     [(''hz_advertised_friendly'', hz_friendly (Some adv) (Some adv_scale)),
      (''hz_actual_friendly'', hz_friendly (Some act) (Some act_scale)),
      (''hz_advertised'', hz_tuple (Some adv) (Some adv_scale)),
      (''hz_actual'', hz_tuple (Some act) (Some act_scale))]"

definition dmesg_hz :: "string \<Rightarrow> string \<Rightarrow> int \<Rightarrow> info" where
  "dmesg_hz hz_advertised hz_actual scale =
     (if hz_advertised \<noteq> [] \<and> hz_advertised \<noteq> ''0.0''
      then hz_info hz_advertised scale hz_actual scale else [])"

definition dmesg_info :: "string \<Rightarrow> cpu_line \<Rightarrow> info option" where
  "dmesg_info output best = do {
     ids \<leftarrow> origin_ids output (line_ids best);
     flags \<leftarrow> dmesg_flags output;
     (hz_advertised, scale) \<leftarrow> parse_cpu_brand_string (line_brand best);
     let scale = (if hz_advertised = ''0.0'' then 6 else scale);
     let hz_advertised = (if hz_advertised = ''0.0'' then to_decimal_string (VStr (line_hz best))
                          else hz_advertised);
     let info =
       [(''vendor_id_raw'', opt_str (id_vendor ids)), (''brand_raw'', VStr (line_brand best)),
        (''stepping'', opt_int (id_stepping ids)), (''model'', opt_int (id_model ids)),
        (''family'', opt_int (id_family ids)), (''flags'', VStrs flags)];
     Some (keep_truthy (info @ dmesg_hz hz_advertised (line_hz best) scale))
   }"

definition parse_dmesg_output :: "string \<Rightarrow> info" where
  "parse_dmesg_output output =
     (case do {
        cpu_strings \<leftarrow> those (map parse_cpu_brand_string_dx (dmesg_lines output));
        case best_line cpu_strings None 0 of
          None \<Rightarrow> Some []
        | Some best \<Rightarrow> dmesg_info output best
      } of None \<Rightarrow> [] | Some i \<Rightarrow> i)"

subsection \<open>Architecture names\<close>

definition is_az :: "char \<Rightarrow> bool" where
  "is_az c \<longleftrightarrow> 97 \<le> code c \<and> code c \<le> 122"

definition prefix_letter :: "string \<Rightarrow> string \<Rightarrow> bool" where
  \<comment> \<open>\<open>^p[a-z]$\<close>\<close>
  "prefix_letter p s \<longleftrightarrow> startswith s p \<and> length s = Suc (length p) \<and> is_az (last s)"

definition is_ix86 :: "string \<Rightarrow> bool" where
  \<comment> \<open>\<open>^i\d86$\<close>\<close>
  "is_ix86 s \<longleftrightarrow> length s = 4 \<and> startswith s ''i'' \<and> is_decimal (s ! 1) \<and> endswith s ''86''"

definition parse_arch :: "string \<Rightarrow> string option \<times> int option" where
  "parse_arch arch_string_raw =
     (let s = py_lower arch_string_raw; t = chomp s
      in if is_ix86 t \<or> t \<in> set [''x86'', ''x86_32'', ''i86pc'', ''ia32'', ''ia-32'', ''bepc'']
           then (Some ''X86_32'', Some 32)
         else if t \<in> set [''x64'', ''x86_64'', ''x86_64t'', ''i686-64'', ''amd64'', ''ia64'', ''ia-64'']
           then (Some ''X86_64'', Some 64)
         else if startswith s ''armv8-a'' \<or> startswith s ''aarch64'' \<or> t = ''arm64''
           then (Some ''ARM_8'', Some 64)
         else if t = ''armv7'' \<or> prefix_letter ''armv7'' t \<or> prefix_letter ''armv7-'' t \<or>
                 prefix_letter ''armv6'' t
           then (Some ''ARM_7'', Some 32)
         else if t = ''armv8'' \<or> prefix_letter ''armv8'' t \<or> prefix_letter ''armv8-'' t
           then (Some ''ARM_8'', Some 32)
         else if t \<in> set [''ppc32'', ''prep'', ''pmac'', ''powermac''] then (Some ''PPC_32'', Some 32)
         else if t \<in> set [''powerpc'', ''ppc64'', ''ppc64le''] then (Some ''PPC_64'', Some 64)
         else if t \<in> set [''sparc32'', ''sparc''] then (Some ''SPARC_32'', Some 32)
         else if t \<in> set [''sparc64'', ''sun4u'', ''sun4v''] then (Some ''SPARC_64'', Some 64)
         else if t = ''s390x'' then (Some ''S390X'', Some 64)
         else if s = ''mips'' then (Some ''MIPS_32'', Some 32)
         else if s = ''mips64'' then (Some ''MIPS_64'', Some 64)
         else (None, None))"

subsection \<open>Flag tables and the final filter\<close>

definition is_bit_set :: "int \<Rightarrow> nat \<Rightarrow> bool" where
  "is_bit_set reg b \<longleftrightarrow> 0 < and reg (push_bit b 1)"

lemma is_bit_set_bit: "is_bit_set reg b \<longleftrightarrow> bit reg b"
  by (auto simp: is_bit_set_def and_exp_eq_0_iff_not_bit push_bit_eq_mult less_le)

definition set_flags :: "int \<Rightarrow> (string \<times> nat) list \<Rightarrow> string list" where
  \<comment> \<open>\<open>[k for k, v in flags.items() if v]\<close> for a table of \<open>name : _is_bit_set(reg, bit)\<close>\<close>
  "set_flags reg table = map fst (filter (\<lambda>(name, b). is_bit_set reg b) table)"

definition filter_dict_keys_with_empty_values :: "info \<Rightarrow> info" where
  "filter_dict_keys_with_empty_values i =
     (let i = filter (\<lambda>(k, v). truthy v) i;
          i = filter (\<lambda>(k, v). v \<noteq> VTuple [0, 0]) i
      in filter (\<lambda>(k, v). \<not> (case v of VStr s \<Rightarrow> startswith s ''0.0'' | _ \<Rightarrow> False)) i)"

subsection \<open>Facts\<close>

lemma split_str_fresh:
  "hd sep \<notin> set a \<Longrightarrow> sep \<noteq> [] \<Longrightarrow> hd (split_str (a @ sep) sep) = a"
  using cut_at_fresh [of sep a "[]"] by (subst split_str.simps) simp

text \<open>
  A byte size is read with its unit. A decimal number followed by any of the seven
  units, in any mixture of upper and lower case, is that number of units in bytes.
\<close>

theorem friendly_bytes_roundtrip:
  assumes "(u, m) \<in> set byte_units" "0 \<le> n" "py_lower s = show_nat n @ u"
  shows "friendly_bytes_to_int s = VInt (n * m)"
proof -
  have dec: "list_all is_decimal (show_nat n)" using assms(2) by (rule show_nat_decimal)
  then have "list_all is_decimal (rev (show_nat n))" by (simp add: list_all_iff)
  then obtain x xs where x: "rev (show_nat n) = x # xs" "is_decimal x"
    by (cases "rev (show_nat n)") auto
  have "\<not> is_decimal (hd u) \<and> u \<noteq> []"
    using assms(1) by (auto simp: byte_units_def is_decimal_def)
  then have u: "hd u \<notin> set (show_nat n)" "u \<noteq> []"
    using dec by (auto simp: list_all_iff)
  have strip: "py_strip (show_nat n) = show_nat n"
    unfolding py_strip_def using dec
    by (intro strip_by_none) (auto simp: list_all_iff dest: is_decimal_not_space)
  have ne: "x \<noteq> CHR ''g''" "x \<noteq> CHR ''m''" "x \<noteq> CHR ''k''" "x \<noteq> CHR ''b''"
    using x(2) by (auto simp: is_decimal_def)
  have "find (\<lambda>(pattern, _). endswith (show_nat n @ u) pattern) byte_units = Some (u, m)"
    using assms(1) unfolding byte_units_def list.set insert_iff prod.inject empty_iff
    by (elim disjE conjE; simp add: endswith_def x(1) ne)
  moreover have "py_int (py_strip (hd (split_str (show_nat n @ u) u))) = Some n"
    using split_str_fresh [OF u] py_int_show_int [of n] assms(2) by (simp add: strip show_int_def)
  ultimately show ?thesis
    by (simp add: friendly_bytes_to_int_def assms(3))
qed

theorem friendly_bytes_roundtrip_witness:
  "friendly_bytes_to_int ''256Kb'' = VInt 262144"
  using friendly_bytes_roundtrip [of "''kb''" 1024 256 "''256Kb''"]
  by (simp add: byte_units_def show_nat_eval digit_char_def py_lower_def lower_char_def code_def char_of_def)

lemma strip_insides_done:
  "fold strip_inside insides (b, w) = (b', False) \<Longrightarrow>
   \<not> w \<and> b' = b \<and> (\<forall>inside \<in> set insides. \<not> endswith b (''('' @ inside @ '')''))"
proof (induction insides arbitrary: b w)
  case Nil
  then show ?case by simp
next
  case (Cons x xs)
  obtain b1 w1 where s: "strip_inside x (b, w) = (b1, w1)" by fastforce
  then have "\<not> w1 \<and> b' = b1 \<and> (\<forall>inside \<in> set xs. \<not> endswith b1 (''('' @ inside @ '')''))"
    using Cons.IH [of b1 w1] Cons.prems by simp
  with s show ?case by (auto simp: strip_inside_def Let_def split: if_splits)
qed

text \<open>
  The loop that strips bracketed remarks off a brand ends, and the brand it leaves does
  not end in any of them.
\<close>

theorem strip_brackets_done:
  "list_all (\<lambda>inside. \<not> endswith (strip_brackets insides brand) (''('' @ inside @ '')'')) insides"
proof (induction insides brand rule: strip_brackets.induct)
  case (1 insides brand)
  obtain b w where s: "fold strip_inside insides (brand, False) = (b, w)" by fastforce
  show ?case
  proof (cases w)
    case True
    with 1 [OF s [symmetric] refl] s show ?thesis by (simp add: strip_brackets.simps [of insides brand])
  next
    case False
    with s strip_insides_done [of insides brand False b] show ?thesis
      by (simp add: strip_brackets.simps [of insides brand] list_all_iff)
  qed
qed

lemma best_line_max:
  "best_line ls b n = r \<Longrightarrow> (case b of None \<Rightarrow> n = 0 | Some x \<Rightarrow> n = field_count x) \<Longrightarrow>
   (r = None \<longleftrightarrow> b = None \<and> ls = []) \<and>
   (\<forall>l. r = Some l \<longrightarrow> n \<le> field_count l \<and> (r = b \<or> l \<in> set ls) \<and>
      (\<forall>x \<in> set ls. field_count x \<le> field_count l))"
proof (induction ls arbitrary: b n)
  case Nil
  then show ?case by (cases b) auto
next
  case (Cons l ls)
  show ?case
  proof (cases "n < field_count l")
    case True
    with Cons.prems have "best_line ls (Some l) (field_count l) = r" by simp
    from Cons.IH [OF this] True show ?thesis by fastforce
  next
    case False
    with Cons.prems have "best_line ls b n = r" by simp
    moreover have "b \<noteq> None"
      using False Cons.prems(2) by (cases b) (auto simp: field_count_def)
    ultimately show ?thesis using Cons.IH [of b n] Cons.prems(2) False by fastforce
  qed
qed

text \<open>
  Of the CPU lines in a kernel log the one with the most fields is taken: there is a
  choice exactly when there is a line, it is one of the lines, and no line has more fields.
\<close>

theorem best_line_most_fields:
  "case best_line ls None 0 of
     None \<Rightarrow> ls = []
   | Some l \<Rightarrow> l \<in> set ls \<and> list_all (\<lambda>x. field_count x \<le> field_count l) ls"
  using best_line_max [of ls None 0, OF refl] by (auto simp: list_all_iff split: option.split)

lemma lower_char_idem: "\<forall>c. lower_char (lower_char c) = lower_char c"
  by code_simp

lemma py_lower_idem [simp]: "py_lower (py_lower s) = py_lower s"
  by (simp add: py_lower_def lower_char_idem)

lemma if_in: "a \<in> S \<Longrightarrow> b \<in> S \<Longrightarrow> (if c then a else b) \<in> S"
  by simp

text \<open>
  An architecture name is recognised whatever its case, and every name gives one of
  eleven architectures with its word size, or nothing at all; only ARM version 8 has both sizes.
\<close>

theorem parse_arch_result:
  "parse_arch (py_lower s) = parse_arch s \<and>
   parse_arch s \<in> {(None, None), (Some ''X86_32'', Some 32), (Some ''X86_64'', Some 64),
     (Some ''ARM_8'', Some 64), (Some ''ARM_8'', Some 32), (Some ''ARM_7'', Some 32),
     (Some ''PPC_32'', Some 32), (Some ''PPC_64'', Some 64), (Some ''SPARC_32'', Some 32),
     (Some ''SPARC_64'', Some 64), (Some ''S390X'', Some 64), (Some ''MIPS_32'', Some 32),
     (Some ''MIPS_64'', Some 64)}"
  unfolding parse_arch_def Let_def py_lower_idem
  by (rule conjI, rule refl, (rule if_in | simp (no_asm))+)

end
