(* ===== verification/CpuHost.thy ===== *)
theory CpuHost
  imports CpuParse "HOL-Library.Word"
begin

unbundle bit_operations_syntax

text \<open>
  What \<open>cpuinfo.py\<close> asks of the machine it runs on: the class \<open>DataSource\<close>, the search for
  programs on the \<open>PATH\<close>, the commands it runs and the Windows registry. The machine is a
  parameter: a \<open>host\<close> answers each question, and an answer of \<open>None\<close> is an exception. It
  is a snapshot: the host does not change while the functions question it.
\<close>

record host =
  machine :: string
  uname_5 :: string
  cpu_count :: int
  architecture_0 :: string
  platform_system :: string
  path_exists :: "string \<Rightarrow> bool"
  access_x :: "string \<Rightarrow> bool"
  environ :: "string \<Rightarrow> string option"
  pathsep :: string
  path_join :: "string \<Rightarrow> string \<Rightarrow> string"
  popen :: "string list \<Rightarrow> (int \<times> string \<times> string) option"
  decode_utf8 :: "string \<Rightarrow> string option"
  glob :: "string \<Rightarrow> string list"
  winreg_query :: "string \<Rightarrow> string \<Rightarrow> pyval option"
  call_uint32 :: "int list \<Rightarrow> 32 word option"
  call_uint64 :: "int list \<Rightarrow> nat \<Rightarrow> 64 word option"
  call_two_uint32 :: "int list \<Rightarrow> nat \<Rightarrow> (32 word \<times> 32 word) option"
  child_exitcode :: int
  child_answered :: bool
  version_info :: "string list"
  sys_maxsize :: int

subsection \<open>Running programs\<close>

fun search_path :: "host \<Rightarrow> string \<Rightarrow> string list \<Rightarrow> string list \<Rightarrow> string list" where
  \<comment> \<open>\<open>exts\<close> is an iterator: the first directory of the path exhausts it\<close>
  "search_path h program_name [] exts = []"
| "search_path h program_name (d # ds) exts =
     (let p = path_join h d program_name
      in filter (access_x h) (p # map (\<lambda>e. p @ e) exts) @ search_path h program_name ds [])"

definition program_paths :: "host \<Rightarrow> string \<Rightarrow> string list option" where
  \<comment> \<open>\<open>os.environ['PATH']\<close> raises \<open>KeyError\<close> without a path\<close>
  "program_paths h program_name = do {
     let pathext = (case environ h ''PATHEXT'' of None \<Rightarrow> [] | Some e \<Rightarrow> e);
     let exts = filter (\<lambda>e. e \<noteq> []) (split_str pathext (pathsep h));
     path \<leftarrow> environ h ''PATH'';
     Some (search_path h program_name (split_str path (pathsep h)) exts)
   }"

definition has_program :: "host \<Rightarrow> string \<Rightarrow> bool option" where
  "has_program h program_name = map_option (\<lambda>ps. 0 < length ps) (program_paths h program_name)"

definition run_and_get_stdout :: "host \<Rightarrow> string list \<Rightarrow> (int \<times> string) option" where
  "run_and_get_stdout h command = do {
     (returncode, stdout, stderr) \<leftarrow> popen h command;
     stdout_output \<leftarrow> decode_utf8 h stdout;
     stderr_output \<leftarrow> decode_utf8 h stderr;
     Some (returncode, stdout_output)
   }"

definition backslash :: char where
  "backslash = char_of (92 :: int)"

definition read_windows_registry_key :: "host \<Rightarrow> string list \<Rightarrow> string \<Rightarrow> pyval option" where
  "read_windows_registry_key h key_path field_name =
     winreg_query h (py_join [backslash] key_path) field_name"

subsection \<open>The class \<open>DataSource\<close>\<close>

definition is_windows :: "host \<Rightarrow> bool" where
  "is_windows h \<longleftrightarrow> py_lower (platform_system h) = ''windows''"

definition can_cpuid :: bool where
  "can_cpuid = True"

definition has_proc_cpuinfo :: "host \<Rightarrow> bool" where
  "has_proc_cpuinfo h = path_exists h ''/proc/cpuinfo''"

definition system_name :: "host \<Rightarrow> string" where
  \<comment> \<open>\<open>platform.system().strip().strip('"').strip("'").strip().lower()\<close>\<close>
  "system_name h =
     py_lower (py_strip (strip_chars (strip_chars (py_strip (platform_system h)) [CHR 0x22]) [CHR 0x27]))"

definition has_var_run_dmesg_boot :: "host \<Rightarrow> bool" where
  "has_var_run_dmesg_boot h \<longleftrightarrow>
     str_in ''linux'' (system_name h) \<and> path_exists h ''/var/run/dmesg.boot''"

definition has_dmesg :: "host \<Rightarrow> bool option" where
  "has_dmesg h = has_program h ''dmesg''"

definition has_cpufreq_info :: "host \<Rightarrow> bool option" where
  "has_cpufreq_info h = has_program h ''cpufreq-info''"

definition has_sestatus :: "host \<Rightarrow> bool option" where
  "has_sestatus h = has_program h ''sestatus''"

definition has_sysctl :: "host \<Rightarrow> bool option" where
  "has_sysctl h = has_program h ''sysctl''"

definition has_isainfo :: "host \<Rightarrow> bool option" where
  "has_isainfo h = has_program h ''isainfo''"

definition has_kstat :: "host \<Rightarrow> bool option" where
  "has_kstat h = has_program h ''kstat''"

definition has_sysinfo :: "host \<Rightarrow> bool option" where
  "has_sysinfo h =
     (if str_in ''beos'' (system_name h) \<or> str_in ''haiku'' (system_name h)
      then has_program h ''sysinfo'' else Some False)"

definition has_lscpu :: "host \<Rightarrow> bool option" where
  "has_lscpu h = has_program h ''lscpu''"

definition has_ibm_pa_features :: "host \<Rightarrow> bool option" where
  "has_ibm_pa_features h = has_program h ''lsprop''"

definition has_wmic :: "host \<Rightarrow> bool option" where
  "has_wmic h = map_option (\<lambda>(returncode, output). returncode = 0 \<and> 0 < length output)
     (run_and_get_stdout h [''wmic'', ''os'', ''get'', ''Version''])"

definition cat_proc_cpuinfo :: "host \<Rightarrow> (int \<times> string) option" where
  "cat_proc_cpuinfo h = run_and_get_stdout h [''cat'', ''/proc/cpuinfo'']"

definition cpufreq_info :: "host \<Rightarrow> (int \<times> string) option" where
  "cpufreq_info h = run_and_get_stdout h [''cpufreq-info'']"

definition sestatus_b :: "host \<Rightarrow> (int \<times> string) option" where
  "sestatus_b h = run_and_get_stdout h [''sestatus'', ''-b'']"

definition dmesg_a :: "host \<Rightarrow> (int \<times> string) option" where
  "dmesg_a h = run_and_get_stdout h [''dmesg'', ''-a'']"

definition cat_var_run_dmesg_boot :: "host \<Rightarrow> (int \<times> string) option" where
  "cat_var_run_dmesg_boot h = run_and_get_stdout h [''cat'', ''/var/run/dmesg.boot'']"

definition sysctl_machdep_cpu_hw_cpufrequency :: "host \<Rightarrow> (int \<times> string) option" where
  "sysctl_machdep_cpu_hw_cpufrequency h =
     run_and_get_stdout h [''sysctl'', ''machdep.cpu'', ''hw.cpufrequency'']"

definition isainfo_vb :: "host \<Rightarrow> (int \<times> string) option" where
  "isainfo_vb h = run_and_get_stdout h [''isainfo'', ''-vb'']"

definition kstat_m_cpu_info :: "host \<Rightarrow> (int \<times> string) option" where
  "kstat_m_cpu_info h = run_and_get_stdout h [''kstat'', ''-m'', ''cpu_info'']"

definition sysinfo_cpu :: "host \<Rightarrow> (int \<times> string) option" where
  "sysinfo_cpu h = run_and_get_stdout h [''sysinfo'', ''-cpu'']"

definition lscpu :: "host \<Rightarrow> (int \<times> string) option" where
  "lscpu h = run_and_get_stdout h [''lscpu'']"

definition ibm_pa_features :: "host \<Rightarrow> (int \<times> string) option" where
  \<comment> \<open>without a match the method returns Python's \<open>None\<close>, which its caller cannot unpack\<close>
  "ibm_pa_features h =
     (case glob h ''/proc/device-tree/cpus/*/ibm,pa-features'' of
        [] \<Rightarrow> None
      | f # _ \<Rightarrow> run_and_get_stdout h [''lsprop'', f])"

definition wmic_cpu :: "host \<Rightarrow> (int \<times> string) option" where
  "wmic_cpu h = run_and_get_stdout h
     [''wmic'', ''cpu'', ''get'',
      ''Name,CurrentClockSpeed,L2CacheSize,L3CacheSize,Description,Caption,Manufacturer'',
      ''/format:list'']"

definition central_processor :: "string list" where
  "central_processor = [''Hardware'', ''Description'', ''System'', ''CentralProcessor'', ''0'']"

definition winreg_processor_brand :: "host \<Rightarrow> string option" where
  "winreg_processor_brand h = do {
     v \<leftarrow> read_windows_registry_key h central_processor ''ProcessorNameString'';
     s \<leftarrow> as_str v;
     Some (py_strip s)
   }"

definition winreg_vendor_id_raw :: "host \<Rightarrow> pyval option" where
  "winreg_vendor_id_raw h = read_windows_registry_key h central_processor ''VendorIdentifier''"

definition winreg_arch_string_raw :: "host \<Rightarrow> pyval option" where
  "winreg_arch_string_raw h = read_windows_registry_key h
     [''SYSTEM'', ''CurrentControlSet'', ''Control'', ''Session Manager'', ''Environment'']
     ''PROCESSOR_ARCHITECTURE''"

definition winreg_hz_actual :: "host \<Rightarrow> string option" where
  "winreg_hz_actual h =
     map_option to_decimal_string (read_windows_registry_key h central_processor ''~Mhz'')"

definition winreg_feature_bits :: "host \<Rightarrow> pyval option" where
  "winreg_feature_bits h = read_windows_registry_key h central_processor ''FeatureSet''"

subsection \<open>SELinux\<close>

definition is_selinux_enforcing :: "host \<Rightarrow> bool \<Rightarrow> bool option" where
  \<comment> \<open>an active trace splits the Boolean it is asked to write into lines: \<open>AttributeError\<close>\<close>
  "is_selinux_enforcing h trace_active = do {
     found \<leftarrow> has_sestatus h;
     if \<not> found then Some False
     else do {
       (returncode, output) \<leftarrow> sestatus_b h;
       if returncode \<noteq> 0 then Some False
       else
         (let ls = map (\<lambda>l. py_lower (py_strip l)) (splitlines output)
          in case find (\<lambda>l. startswith l ''current mode:'') ls of
               Some l \<Rightarrow> Some (endswith l ''enforcing'')
             | None \<Rightarrow>
                 (let exec_heap = list_ex (\<lambda>l. startswith l ''allow_execheap'' \<and> endswith l ''on'') ls;
                      exec_memory = list_ex (\<lambda>l. startswith l ''allow_execmem'' \<and> endswith l ''on'') ls
                  in if trace_active then None else Some (\<not> exec_heap \<or> \<not> exec_memory)))
     }
   }"

subsection \<open>An example\<close>

definition example_host :: host where
  \<comment> \<open>a machine on which only \<open>lsprop\<close> is installed\<close>
  "example_host =
     \<lparr>machine = ''x86_64'', uname_5 = ''Intel64 Family 6 Model 158 Stepping 10, GenuineIntel'',
      cpu_count = 4, architecture_0 = ''64bit'', platform_system = ''Linux'',
      path_exists = (\<lambda>p. False), access_x = (\<lambda>p. p = ''/bin/lsprop''),
      environ = (\<lambda>k. if k = ''PATH'' then Some ''/sbin:/bin'' else None), pathsep = '':'',
      path_join = (\<lambda>a b. a @ ''/'' @ b),
      popen = (\<lambda>c. if hd c = ''lsprop''
        then Some (0, ''ibm,pa-features 80000006 00000101'', []) else None),
      decode_utf8 = Some, glob = (\<lambda>p. [''/proc/device-tree/cpus/0/ibm,pa-features'']),
      winreg_query = (\<lambda>k f. None), call_uint32 = (\<lambda>c. None), call_uint64 = (\<lambda>c n. None),
      call_two_uint32 = (\<lambda>c n. None), child_exitcode = 0, child_answered = True,
      version_info = [''3'', ''11'', ''2'', ''final'', ''0''], sys_maxsize = 2 ^ 63 - 1\<rparr>"

lemma search_path_no_exts:
  "search_path h n ds [] = filter (access_x h) (map (\<lambda>d. path_join h d n) ds)"
  by (induction ds) (simp_all add: Let_def)

text \<open>
  What the search for a program finds. In every directory of the path the bare name is
  tried; the extensions of \<open>PATHEXT\<close> are tried in the first directory only, because the
  iterator over them is used up there.
\<close>

theorem program_paths_found:
  assumes "environ h ''PATH'' = Some path" "environ h ''PATHEXT'' = Some exts"
    and "split_str path (pathsep h) = d # ds"
  shows "program_paths h n = Some
    (filter (access_x h)
      (path_join h d n # map (\<lambda>e. path_join h d n @ e) (filter (\<lambda>e. e \<noteq> []) (split_str exts (pathsep h)))
       @ map (\<lambda>d. path_join h d n) ds))"
  using assms by (simp add: program_paths_def search_path_no_exts Let_def)

theorem program_paths_found_witness:
  "program_paths (example_host\<lparr>access_x := (\<lambda>p. p = ''b/dmesg.exe''),
      environ := (\<lambda>k. if k = ''PATH'' then Some ''a:b'' else if k = ''PATHEXT'' then Some ''.exe'' else None)\<rparr>)
     ''dmesg'' = Some []"
proof -
  let ?h = "example_host\<lparr>access_x := (\<lambda>p. p = ''b/dmesg.exe''),
      environ := (\<lambda>k. if k = ''PATH'' then Some ''a:b'' else if k = ''PATHEXT'' then Some ''.exe'' else None)\<rparr>"
  have s: "split_str ''a:b'' (pathsep ?h) = [''a'', ''b'']" "split_str ''.exe'' (pathsep ?h) = [''.exe'']"
    by code_simp+
  show ?thesis
    using program_paths_found [of ?h "''a:b''" "''.exe''" "''a''" "[''b'']" "''dmesg''"] s
    by (simp add: example_host_def)
qed

end
