(* ===== verification/CpuContract.thy ===== *)
theory CpuContract
  imports CpuHost
begin

text \<open>
  What a source of CPU information promises. A dictionary is good when its keys are
  distinct, it holds no empty value, and its flags, if it has any, are a sorted list of
  strings; \<open>filter_dict_keys_with_empty_values\<close> also removes \<open>(0, 0)\<close> and the strings that
  start with \<open>0.0\<close>. The locales state the promise; the theories of the sources interpret them.
\<close>

definition put :: "string \<Rightarrow> pyval \<Rightarrow> info \<Rightarrow> info" where
  \<comment> \<open>\<open>info[k] = v\<close>\<close>
  "put k v i = AList.update k v i"

definition get_dflt :: "info \<Rightarrow> string \<Rightarrow> pyval" where
  \<comment> \<open>\<open>info.get(key, None)\<close>\<close>
  "get_dflt i k = (case map_of i k of None \<Rightarrow> VNone | Some v \<Rightarrow> v)"

definition sorted_flags :: "pyval \<Rightarrow> bool" where
  "sorted_flags v = (case v of VStrs fs \<Rightarrow> sorted fs | _ \<Rightarrow> False)"

definition flags_ok :: "info \<Rightarrow> bool" where
  "flags_ok i \<longleftrightarrow> (\<forall>(k, v) \<in> set i. k = ''flags'' \<longrightarrow> truthy v \<longrightarrow> sorted_flags v)"

definition good_info :: "info \<Rightarrow> bool" where
  "good_info i \<longleftrightarrow> distinct (map fst i) \<and> (\<forall>(k, v) \<in> set i. truthy v) \<and> flags_ok i"

lemma good_info_Nil [simp]: "good_info []"
  by (simp add: good_info_def flags_ok_def)

lemma flags_ok_simps [simp]:
  "flags_ok []"
  "flags_ok ((k, v) # i) \<longleftrightarrow> (k = ''flags'' \<longrightarrow> truthy v \<longrightarrow> sorted_flags v) \<and> flags_ok i"
  "flags_ok (i @ j) \<longleftrightarrow> flags_ok i \<and> flags_ok j"
  by (auto simp: flags_ok_def)

lemma sorted_flags_VStrs [simp]: "sorted_flags (VStrs fs) \<longleftrightarrow> sorted fs"
  by (simp add: sorted_flags_def)

lemma good_filter:
  assumes "distinct (map fst i)" "flags_ok i"
  shows "good_info (filter_dict_keys_with_empty_values i)" "good_info (keep_truthy i)"
  using assms
  by (auto simp: good_info_def flags_ok_def keep_truthy_def filter_dict_keys_with_empty_values_def
      Let_def distinct_map_fst_filter)

lemma filter_twice [simp]:
  "filter_dict_keys_with_empty_values (filter_dict_keys_with_empty_values i) =
   filter_dict_keys_with_empty_values i"
  by (simp add: filter_dict_keys_with_empty_values_def Let_def filter_filter case_prod_beta conj_ac)

lemma filter_Nil [simp]: "filter_dict_keys_with_empty_values [] = []"
  by (simp add: filter_dict_keys_with_empty_values_def)

lemma put_distinct [simp]: "distinct (map fst i) \<Longrightarrow> distinct (map fst (put k v i))"
  by (simp add: put_def distinct_update)

lemma put_flags_ok [simp]:
  assumes "flags_ok i" "k = ''flags'' \<longrightarrow> truthy v \<longrightarrow> sorted_flags v"
  shows "flags_ok (put k v i)"
  using assms by (induction i) (auto simp: put_def)

lemma get_dflt_put [simp]: "get_dflt (put k v i) k' = (if k' = k then v else get_dflt i k')"
  by (simp add: get_dflt_def put_def update_conv)

lemma sorted_flags_iff: "sorted_flags v \<longleftrightarrow> (\<exists>fs. v = VStrs fs \<and> sorted fs)"
  by (cases v) (auto simp: sorted_flags_def)

lemma flags_okD: "flags_ok i \<Longrightarrow> map_of i ''flags'' = Some v \<Longrightarrow> truthy v \<Longrightarrow> sorted_flags v"
  by (auto simp: flags_ok_def dest: map_of_SomeD)

lemma good_get_flags:
  "flags_ok i \<Longrightarrow> truthy (get_dflt i ''flags'') \<Longrightarrow>
   \<exists>fs. get_dflt i ''flags'' = VStrs fs \<and> sorted fs"
  unfolding sorted_flags_iff [symmetric]
  by (auto simp: get_dflt_def dest: flags_okD split: option.splits)

lemma filtered_no_zero:
  "(k, v) \<in> set (filter_dict_keys_with_empty_values i) \<Longrightarrow> v \<noteq> VTuple [0, 0] \<and> truthy v"
  by (auto simp: filter_dict_keys_with_empty_values_def Let_def)

definition clean_info :: "info \<Rightarrow> bool" where
  "clean_info i \<longleftrightarrow> good_info i \<and> filter_dict_keys_with_empty_values i = i"

lemma clean_Nil [simp]: "clean_info []"
  by (simp add: clean_info_def)

lemma clean_filter [intro]:
  "distinct (map fst i) \<Longrightarrow> flags_ok i \<Longrightarrow> clean_info (filter_dict_keys_with_empty_values i)"
  by (simp add: clean_info_def good_filter)

lemma clean_filter_body:
  "Some (filter_dict_keys_with_empty_values i) = Some j \<Longrightarrow> distinct (map fst i) \<Longrightarrow> flags_ok i \<Longrightarrow>
   clean_info j"
  by auto

lemma clean_good: "clean_info i \<Longrightarrow> good_info i"
  by (simp add: clean_info_def)

definition solid :: "pyval \<Rightarrow> bool" where
  \<comment> \<open>the values that pass the three filters\<close>
  "solid v \<longleftrightarrow> truthy v \<and> v \<noteq> VTuple [0, 0] \<and>
     \<not> (case v of VStr s \<Rightarrow> startswith s ''0.0'' | _ \<Rightarrow> False)"

lemma filter_solid:
  "filter_dict_keys_with_empty_values i = filter (\<lambda>(k, v). solid v) i"
  unfolding filter_dict_keys_with_empty_values_def Let_def filter_filter
  by (rule filter_cong) (auto simp: solid_def)

lemma clean_iff:
  "clean_info i \<longleftrightarrow> distinct (map fst i) \<and> (\<forall>(k, v) \<in> set i. solid v) \<and> flags_ok i"
  by (auto simp: clean_info_def good_info_def filter_solid filter_id_conv solid_def)

lemma set_put: "set (put k v i) \<subseteq> insert (k, v) (set i)"
  by (induction i) (auto simp: put_def)

lemma clean_put:
  "clean_info i \<Longrightarrow> solid v \<Longrightarrow> (k = ''flags'' \<longrightarrow> sorted_flags v) \<Longrightarrow> clean_info (put k v i)"
  using set_put [of k v i] by (auto simp: clean_iff)

lemma clean_puts:
  "clean_info i \<Longrightarrow> (\<forall>(k, v) \<in> set kvs. solid v) \<Longrightarrow> flags_ok kvs \<Longrightarrow>
   clean_info (fold (\<lambda>(k, v). put k v) kvs i)"
proof (induction kvs arbitrary: i)
  case Nil
  then show ?case by simp
next
  case (Cons p kvs)
  obtain k v where p: "p = (k, v)" by (cases p)
  have "clean_info (put k v i)"
    using Cons.prems p by (intro clean_put) (auto simp: solid_def)
  with Cons p show ?case by simp
qed

text \<open>The promise of one source, and that of a source that also ends with the filter.\<close>

locale info_source =
  fixes src :: "host \<Rightarrow> info option"
  assumes good: "src h = Some i \<Longrightarrow> good_info i"
begin

lemma keys_distinct: "src h = Some i \<Longrightarrow> distinct (map fst i)"
  using good by (simp add: good_info_def)

lemma get_truthy:
  assumes "src h = Some i" "k \<in> fst ` set i"
  shows "truthy (get_dflt i k)"
proof -
  obtain v where "map_of i k = Some v" using assms(2) by (metis map_of_eq_None_iff not_None_eq)
  moreover from this have "(k, v) \<in> set i" by (rule map_of_SomeD)
  ultimately show ?thesis using good [OF assms(1)] by (auto simp: good_info_def get_dflt_def)
qed

lemma flags_sorted:
  "src h = Some i \<Longrightarrow> truthy (get_dflt i ''flags'') \<Longrightarrow>
   \<exists>fs. get_dflt i ''flags'' = VStrs fs \<and> sorted fs"
  using good good_get_flags by (auto simp: good_info_def)

end

locale filtered_source = info_source +
  assumes filtered: "src h = Some i \<Longrightarrow> filter_dict_keys_with_empty_values i = i"
begin

lemma no_zero_hz: "src h = Some i \<Longrightarrow> (k, v) \<in> set i \<Longrightarrow> v \<noteq> VTuple [0, 0]"
  using filtered filtered_no_zero by metis

end

lemma filtered_sourceI: "(\<And>h. clean_info (src h)) \<Longrightarrow> filtered_source (\<lambda>h. Some (src h))"
  by unfold_locales (auto simp: clean_info_def)

end
