(* ===== verification/CpuId.thy ===== *)
theory CpuId
  imports CpuContract
begin

text \<open>
  The class \<open>CPUID\<close> of \<open>cpuinfo.py\<close> and the source that uses it in a child process. Running
  machine code is a parameter: \<open>call_uint32 h code\<close> is what calling \<open>code\<close> as a function
  returns (\<open>None\<close> when \<open>ASM.compile\<close> raises), and the two tick readers number their calls.
\<close>

definition run_asm :: "host \<Rightarrow> int list list \<Rightarrow> int option" where
  "run_asm h machine_code = map_option uint (call_uint32 h (concat machine_code))"

subsection \<open>The instructions\<close>

definition xor_eax_eax :: "int list" where "xor_eax_eax = [0x31, 0xC0]"
definition xor_ecx_ecx :: "int list" where "xor_ecx_ecx = [0x31, 0xC9]"
definition i_cpuid :: "int list" where "i_cpuid = [0x0F, 0xA2]"
definition mov_ax_ax :: "int list" where "mov_ax_ax = [0x89, 0xC0]"
definition mov_ax_bx :: "int list" where "mov_ax_bx = [0x89, 0xD8]"
definition mov_ax_cx :: "int list" where "mov_ax_cx = [0x89, 0xC8]"
definition mov_ax_dx :: "int list" where "mov_ax_dx = [0x89, 0xD0]"
definition i_ret :: "int list" where "i_ret = [0xC3]"

definition mov_eax :: "int \<Rightarrow> int list" where
  \<comment> \<open>\<open>mov eax, n\<close>, little endian\<close>
  "mov_eax n = [0xB8, n AND 0xFF, drop_bit 8 n AND 0xFF, drop_bit 16 n AND 0xFF,
     drop_bit 24 n AND 0xFF]"

definition reg_chars :: "int \<Rightarrow> string" where
  \<comment> \<open>\<open>chr((reg >> n) & 0xFF)\<close> for \<open>n\<close> in 0, 8, 16, 24\<close>
  "reg_chars reg = map (\<lambda>n. char_of (drop_bit n reg AND 0xFF)) [0, 8, 16, 24]"

subsection \<open>The methods\<close>

definition get_vendor_id :: "host \<Rightarrow> string option" where
  "get_vendor_id h = do {
     ebx \<leftarrow> run_asm h [xor_eax_eax, i_cpuid, mov_ax_bx, i_ret];
     ecx \<leftarrow> run_asm h [xor_eax_eax, i_cpuid, mov_ax_cx, i_ret];
     edx \<leftarrow> run_asm h [xor_eax_eax, i_cpuid, mov_ax_dx, i_ret];
     Some (concat (map reg_chars [ebx, edx, ecx]))
   }"

record cpu_signature =
  sig_stepping :: int
  sig_model :: int
  sig_family :: int
  sig_processor_type :: int

definition decode_signature :: "int \<Rightarrow> cpu_signature" where
  "decode_signature eax =
     (let stepping_id = drop_bit 0 eax AND 0xF;
          model = drop_bit 4 eax AND 0xF;
          family_id = drop_bit 8 eax AND 0xF;
          processor_type = drop_bit 12 eax AND 0x3;
          extended_model_id = drop_bit 16 eax AND 0xF;
          extended_family_id = drop_bit 20 eax AND 0xFF;
          family = (if family_id = 15 then extended_family_id + family_id else family_id);
          model = (if family_id \<in> {6, 15} then push_bit 4 extended_model_id + model else model)
      in \<lparr>sig_stepping = stepping_id, sig_model = model, sig_family = family,
          sig_processor_type = processor_type\<rparr>)"

definition get_info :: "host \<Rightarrow> cpu_signature option" where
  "get_info h = map_option decode_signature (run_asm h [mov_eax 1, i_cpuid, i_ret])"

definition get_max_extension_support :: "host \<Rightarrow> int option" where
  "get_max_extension_support h = run_asm h [mov_eax 0x80000000, i_cpuid, i_ret]"

definition std_edx_flags :: "(string \<times> nat) list" where
  "std_edx_flags =
    [(''fpu'', 0), (''vme'', 1), (''de'', 2), (''pse'', 3), (''tsc'', 4), (''msr'', 5),
     (''pae'', 6), (''mce'', 7), (''cx8'', 8), (''apic'', 9), (''sep'', 11), (''mtrr'', 12),
     (''pge'', 13), (''mca'', 14), (''cmov'', 15), (''pat'', 16), (''pse36'', 17),
     (''pn'', 18), (''clflush'', 19), (''dts'', 21), (''acpi'', 22), (''mmx'', 23),
     (''fxsr'', 24), (''sse'', 25), (''sse2'', 26), (''ss'', 27), (''ht'', 28), (''tm'', 29),
     (''ia64'', 30), (''pbe'', 31)]"

definition std_ecx_flags :: "(string \<times> nat) list" where
  "std_ecx_flags =
    [(''pni'', 0), (''pclmulqdq'', 1), (''dtes64'', 2), (''monitor'', 3), (''ds_cpl'', 4),
     (''vmx'', 5), (''smx'', 6), (''est'', 7), (''tm2'', 8), (''ssse3'', 9), (''cid'', 10),
     (''fma'', 12), (''cx16'', 13), (''xtpr'', 14), (''pdcm'', 15), (''pcid'', 17),
     (''dca'', 18), (''sse4_1'', 19), (''sse4_2'', 20), (''x2apic'', 21), (''movbe'', 22),
     (''popcnt'', 23), (''tscdeadline'', 24), (''aes'', 25), (''xsave'', 26),
     (''osxsave'', 27), (''avx'', 28), (''f16c'', 29), (''rdrnd'', 30),
     (''hypervisor'', 31)]"

definition ext7_ebx_flags :: "(string \<times> nat) list" where
  "ext7_ebx_flags =
    [(''sgx'', 2), (''bmi1'', 3), (''hle'', 4), (''avx2'', 5), (''smep'', 7), (''bmi2'', 8),
     (''erms'', 9), (''invpcid'', 10), (''rtm'', 11), (''pqm'', 12), (''mpx'', 14),
     (''pqe'', 15), (''avx512f'', 16), (''avx512dq'', 17), (''rdseed'', 18), (''adx'', 19),
     (''smap'', 20), (''avx512ifma'', 21), (''pcommit'', 22), (''clflushopt'', 23),
     (''clwb'', 24), (''intel_pt'', 25), (''avx512pf'', 26), (''avx512er'', 27),
     (''avx512cd'', 28), (''sha'', 29), (''avx512bw'', 30), (''avx512vl'', 31)]"

definition ext7_ecx_flags :: "(string \<times> nat) list" where
  "ext7_ecx_flags =
    [(''prefetchwt1'', 0), (''avx512vbmi'', 1), (''umip'', 2), (''pku'', 3), (''ospke'', 4),
     (''avx512vbmi2'', 6), (''gfni'', 8), (''vaes'', 9), (''vpclmulqdq'', 10),
     (''avx512vnni'', 11), (''avx512bitalg'', 12), (''avx512vpopcntdq'', 14),
     (''rdpid'', 22), (''sgx_lc'', 30)]"

definition amd_ebx_flags :: "(string \<times> nat) list" where
  "amd_ebx_flags =
    [(''fpu'', 0), (''vme'', 1), (''de'', 2), (''pse'', 3), (''tsc'', 4), (''msr'', 5),
     (''pae'', 6), (''mce'', 7), (''cx8'', 8), (''apic'', 9), (''syscall'', 11),
     (''mtrr'', 12), (''pge'', 13), (''mca'', 14), (''cmov'', 15), (''pat'', 16),
     (''pse36'', 17), (''mp'', 19), (''nx'', 20), (''mmxext'', 22), (''mmx'', 23),
     (''fxsr'', 24), (''fxsr_opt'', 25), (''pdpe1gp'', 26), (''rdtscp'', 27), (''lm'', 29),
     (''3dnowext'', 30), (''3dnow'', 31)]"

definition amd_ecx_flags :: "(string \<times> nat) list" where
  "amd_ecx_flags =
    [(''lahf_lm'', 0), (''cmp_legacy'', 1), (''svm'', 2), (''extapic'', 3),
     (''cr8_legacy'', 4), (''abm'', 5), (''sse4a'', 6), (''misalignsse'', 7),
     (''3dnowprefetch'', 8), (''osvw'', 9), (''ibs'', 10), (''xop'', 11), (''skinit'', 12),
     (''wdt'', 13), (''lwp'', 15), (''fma4'', 16), (''tce'', 17), (''nodeid_msr'', 19),
     (''tbm'', 21), (''topoext'', 22), (''perfctr_core'', 23), (''perfctr_nb'', 24),
     (''dbx'', 26), (''perftsc'', 27), (''pci_l2i'', 28)]"

definition get_flags :: "host \<Rightarrow> int \<Rightarrow> string list option" where
  \<comment> \<open>each table is one \<open>dict\<close> of the source, read from two registers\<close>
  "get_flags h max_extension_support = do {
     edx \<leftarrow> run_asm h [mov_eax 1, i_cpuid, mov_ax_dx, i_ret];
     ecx \<leftarrow> run_asm h [mov_eax 1, i_cpuid, mov_ax_cx, i_ret];
     let flags = set_flags edx std_edx_flags @ set_flags ecx std_ecx_flags;
     flags \<leftarrow> (if 7 \<le> max_extension_support then do {
         ebx \<leftarrow> run_asm h [xor_ecx_ecx, mov_eax 7, i_cpuid, mov_ax_bx, i_ret];
         ecx \<leftarrow> run_asm h [xor_ecx_ecx, mov_eax 7, i_cpuid, mov_ax_cx, i_ret];
         Some (flags @ set_flags ebx ext7_ebx_flags @ set_flags ecx ext7_ecx_flags)
       } else Some flags);
     flags \<leftarrow> (if 0x80000001 \<le> max_extension_support then do {
         ebx \<leftarrow> run_asm h [mov_eax 0x80000001, i_cpuid, mov_ax_bx, i_ret];
         ecx \<leftarrow> run_asm h [mov_eax 0x80000001, i_cpuid, mov_ax_cx, i_ret];
         Some (flags @ set_flags ebx amd_ebx_flags @ set_flags ecx amd_ecx_flags)
       } else Some flags);
     Some (sort flags)
   }"

definition brand_leaf :: "host \<Rightarrow> int \<Rightarrow> string option" where
  "brand_leaf h leaf = do {
     eax \<leftarrow> run_asm h [mov_eax leaf, i_cpuid, mov_ax_ax, i_ret];
     ebx \<leftarrow> run_asm h [mov_eax leaf, i_cpuid, mov_ax_bx, i_ret];
     ecx \<leftarrow> run_asm h [mov_eax leaf, i_cpuid, mov_ax_cx, i_ret];
     edx \<leftarrow> run_asm h [mov_eax leaf, i_cpuid, mov_ax_dx, i_ret];
     Some (concat (map reg_chars [eax, ebx, ecx, edx]))
   }"

definition get_processor_brand :: "host \<Rightarrow> int \<Rightarrow> string option" where
  "get_processor_brand h max_extension_support = do {
     processor_brand \<leftarrow>
       (if 0x80000004 \<le> max_extension_support
        then map_option concat (those (map (brand_leaf h) [0x80000002, 0x80000003, 0x80000004]))
        else Some []);
     Some (py_strip (strip_chars processor_brand [CHR 0x00]))
   }"

record cache_info =
  size_b :: int
  associativity :: int
  line_size_b :: int

definition get_cache :: "host \<Rightarrow> int \<Rightarrow> cache_info option option" where
  \<comment> \<open>\<open>Some None\<close> is the empty dictionary of a processor without the cache leaf\<close>
  "get_cache h max_extension_support =
     (if max_extension_support < 0x80000006 then Some None
      else do {
        ecx \<leftarrow> run_asm h [mov_eax 0x80000006, i_cpuid, mov_ax_cx, i_ret];
        Some (Some \<lparr>size_b = (ecx AND 0xFF) * 1024, associativity = drop_bit 12 ecx AND 0xF,
                    line_size_b = drop_bit 16 ecx AND 0xFFFF\<rparr>)
      })"

definition ticks_x86_32 :: "int list" where
  "ticks_x86_32 = [0x55, 0x89, 0xE5, 0x31, 0xC0, 0x0F, 0xA2, 0x0F, 0x31, 0x8B, 0x5D, 0x08,
     0x8B, 0x4D, 0x0C, 0x89, 0x13, 0x89, 0x01, 0x5D, 0xC3]"

definition ticks_x86_64 :: "int list" where
  "ticks_x86_64 = [0x48, 0x31, 0xC0, 0x0F, 0xA2, 0x0F, 0x31, 0x48, 0xC1, 0xE2, 0x20, 0x48,
     0x09, 0xD0, 0xC3]"

definition join_high_low :: "32 word \<Rightarrow> 32 word \<Rightarrow> int" where
  "join_high_low high low = (push_bit 32 (uint high) AND 0xFFFFFFFF00000000) OR uint low"

definition get_ticks :: "host \<Rightarrow> nat \<Rightarrow> int option" where
  \<comment> \<open>the n-th call of the function \<open>get_ticks_func\<close> returns; without a known word size there
    is none, and calling it raises\<close>
  "get_ticks h n =
     (if architecture_0 h = ''32bit''
      then map_option (\<lambda>(high, low). join_high_low high low) (call_two_uint32 h ticks_x86_32 n)
      else if architecture_0 h = ''64bit''
      then map_option uint (call_uint64 h ticks_x86_64 n)
      else None)"

definition get_raw_hz :: "host \<Rightarrow> int option" where
  "get_raw_hz h = do { s \<leftarrow> get_ticks h 0; e \<leftarrow> get_ticks h 1; Some (e - s) }"

subsection \<open>The source\<close>

definition cpuid_info :: "host \<Rightarrow> info option" where
  \<comment> \<open>the body of the \<open>try\<close> block, once the checks have passed\<close>
  "cpuid_info h = do {
     max_extension_support \<leftarrow> get_max_extension_support h;
     cache \<leftarrow> get_cache h max_extension_support;
     signature \<leftarrow> get_info h;
     processor_brand \<leftarrow> get_processor_brand h max_extension_support;
     raw_hz \<leftarrow> get_raw_hz h;
     let hz_actual = to_decimal_string (VInt raw_hz);
     (hz_advertised, scale) \<leftarrow> parse_cpu_brand_string processor_brand;
     vendor_id \<leftarrow> get_vendor_id h;
     c \<leftarrow> cache;
     flags \<leftarrow> get_flags h max_extension_support;
     Some (filter_dict_keys_with_empty_values
       [(''vendor_id_raw'', VStr vendor_id), (''hardware_raw'', VStr []),
        (''brand_raw'', VStr processor_brand),
        (''hz_advertised_friendly'', hz_friendly (Some hz_advertised) (Some scale)),
        (''hz_actual_friendly'', hz_friendly (Some hz_actual) (Some 0)),
        (''hz_advertised'', hz_tuple (Some hz_advertised) (Some scale)),
        (''hz_actual'', hz_tuple (Some hz_actual) (Some 0)),
        (''l2_cache_size'', VInt (size_b c)), (''l2_cache_line_size'', VInt (line_size_b c)),
        (''l2_cache_associativity'', VInt (associativity c)),
        (''stepping'', VInt (sig_stepping signature)), (''model'', VInt (sig_model signature)),
        (''family'', VInt (sig_family signature)),
        (''processor_type'', VInt (sig_processor_type signature)), (''flags'', VStrs flags)])
   }"

text \<open>
  What the child process reports: its \<open>info\<close>, whether an exception was recorded in \<open>err\<close>,
  and \<open>is_fail\<close>. After an exception \<open>info\<close> is a leftover that nobody reads.
\<close>

record cpuid_report =
  rep_info :: info
  rep_err :: bool
  rep_is_fail :: bool

definition is_x86 :: "host \<Rightarrow> bool" where
  "is_x86 h \<longleftrightarrow> fst (parse_arch (machine h)) \<in> {Some ''X86_32'', Some ''X86_64''}"

definition get_cpu_info_from_cpuid_actual :: "host \<Rightarrow> cpuid_report" where
  "get_cpu_info_from_cpuid_actual h =
     (if \<not> is_x86 h then \<lparr>rep_info = [], rep_err = False, rep_is_fail = True\<rparr>
      else case is_selinux_enforcing h True of
        None \<Rightarrow> \<lparr>rep_info = [], rep_err = True, rep_is_fail = True\<rparr>
      | Some True \<Rightarrow> \<lparr>rep_info = [], rep_err = False, rep_is_fail = True\<rparr>
      | Some False \<Rightarrow>
          (case cpuid_info h of
             None \<Rightarrow> \<lparr>rep_info = [], rep_err = True, rep_is_fail = True\<rparr>
           | Some i \<Rightarrow> \<lparr>rep_info = i, rep_err = False, rep_is_fail = False\<rparr>))"

definition get_cpu_info_from_cpuid :: "host \<Rightarrow> info" where
  "get_cpu_info_from_cpuid h =
     (if \<not> can_cpuid then []
      else if \<not> is_x86 h then []
      else if child_exitcode h \<noteq> 0 then []
      else if \<not> child_answered h then []
      else let output = get_cpu_info_from_cpuid_actual h
           in if rep_err output then []
              else if rep_is_fail output then []
              else rep_info output)"

subsection \<open>The contract\<close>

lemma get_flags_sorted: "get_flags h m = Some fs \<Longrightarrow> sorted fs"
  unfolding get_flags_def bind_eq_Some_conv Let_def by (elim exE conjE) auto

lemma clean_cpuid: "cpuid_info h = Some i \<Longrightarrow> clean_info i"
  unfolding cpuid_info_def bind_eq_Some_conv Let_def case_prod_beta
  by (elim exE conjE, erule clean_filter_body)
    (simp (no_asm), drule get_flags_sorted, simp (no_asm_simp) add: hz_friendly_def hz_tuple_def)

lemma clean_actual: "clean_info (rep_info (get_cpu_info_from_cpuid_actual h))"
  by (auto simp: get_cpu_info_from_cpuid_actual_def clean_cpuid split: option.splits bool.splits)

interpretation cpuid_src: filtered_source "\<lambda>h. Some (get_cpu_info_from_cpuid h)"
  by (rule filtered_sourceI) (simp add: get_cpu_info_from_cpuid_def Let_def clean_actual)

subsection \<open>Properties of the CPUID reader\<close>

lemma and_low_bits:
  "(x :: int) AND 0x3 = x mod 4" "(x :: int) AND 0xF = x mod 16" "(x :: int) AND 0xFF = x mod 256"
  "(x :: int) AND 0xFFFF = x mod 65536"
  using take_bit_eq_mask [of 2 x] take_bit_eq_mask [of 4 x] take_bit_eq_mask [of 8 x]
    take_bit_eq_mask [of 16 x]
  by (simp_all add: take_bit_eq_mod mask_eq_exp_minus_1)

lemma decode_fields:
  "decode_signature eax =
     \<lparr>sig_stepping = eax mod 16,
      sig_model = (if (eax div 256) mod 16 \<in> {6, 15}
        then (eax div 65536) mod 16 * 16 + (eax div 16) mod 16 else (eax div 16) mod 16),
      sig_family = (if (eax div 256) mod 16 = 15
        then (eax div 1048576) mod 256 + (eax div 256) mod 16 else (eax div 256) mod 16),
      sig_processor_type = (eax div 4096) mod 4\<rparr>"
  by (simp add: decode_signature_def and_low_bits drop_bit_eq_div push_bit_eq_mult Let_def)

lemma low_digit:
  fixes r q B :: int
  assumes "0 \<le> r" "r < B"
  shows "(r + B * q) mod B = r" "(r + B * q) div B = q"
  using assms by simp_all

definition encode_signature :: "int \<Rightarrow> int \<Rightarrow> int \<Rightarrow> int \<Rightarrow> int" where
  \<comment> \<open>how a processor encodes its signature: a family above 14 and a model above 15 spill into
    the extended fields\<close>
  "encode_signature st m f t =
     st + m mod 16 * 16 + min f 15 * 256 + t * 4096 + m div 16 * 65536 + (f - min f 15) * 1048576"

text \<open>
  The signature register is decoded to the stepping, model, family and type it encodes,
  for every family and model that the encoding with its extended fields can express.
\<close>

theorem signature_roundtrip:
  assumes "0 \<le> st" "st < 16" "0 \<le> t" "t < 4" "0 \<le> m" "m < 256" "0 \<le> f" "f \<le> 270"
    and "m < 16 \<or> f = 6 \<or> 15 \<le> f"
  shows "decode_signature (encode_signature st m f t) =
    \<lparr>sig_stepping = st, sig_model = m, sig_family = f, sig_processor_type = t\<rparr>"
proof -
  define a where "a = m mod 16"
  define b where "b = m div 16"
  define g where "g = min f 15"
  define e where "e = f - g"
  have bounds: "0 \<le> a" "a < 16" "0 \<le> b" "b < 16" "0 \<le> g" "g < 16" "0 \<le> e" "e < 256"
    using assms by (auto simp: a_def b_def g_def e_def)
  have m: "m = b * 16 + a" by (simp add: a_def b_def)
  define x where "x = encode_signature st m f t"
  have x: "x = st + 16 * (a + 16 * (g + 16 * (t + 16 * (b + 16 * e))))"
    by (simp add: x_def encode_signature_def a_def b_def g_def e_def algebra_simps)
  have st16: "0 \<le> t" "t < 16" using assms by auto
  note digit = low_digit [of _ 16]
  have d1: "x div 16 = a + 16 * (g + 16 * (t + 16 * (b + 16 * e)))"
    unfolding x using assms(1,2) by (rule digit)
  have d2: "x div 256 = g + 16 * (t + 16 * (b + 16 * e))"
    using zdiv_zmult2_eq [of 16 x 16] unfolding d1 digit(2) [OF bounds(1,2)] by simp
  have d3: "x div 4096 = t + 16 * (b + 16 * e)"
    using zdiv_zmult2_eq [of 16 x 256] unfolding d2 digit(2) [OF bounds(5,6)] by simp
  have d4: "x div 65536 = b + 16 * e"
    using zdiv_zmult2_eq [of 16 x 4096] unfolding d3 digit(2) [OF st16] by simp
  have d5: "x div 1048576 = e"
    using zdiv_zmult2_eq [of 16 x 65536] unfolding d4 digit(2) [OF bounds(3,4)] by simp
  have f0: "x mod 16 = st" unfolding x using assms(1,2) by (rule digit)
  have f1: "x div 16 mod 16 = a" unfolding d1 using bounds(1,2) by (rule digit)
  have f2: "x div 256 mod 16 = g" unfolding d2 using bounds(5,6) by (rule digit)
  have f3: "x div 4096 mod 4 = t"
    using low_digit(1) [OF assms(3,4), of "4 * (b + 16 * e)"] unfolding d3 by simp
  have f4: "x div 65536 mod 16 = b" unfolding d4 using bounds(3,4) by (rule digit)
  have f5: "x div 1048576 mod 256 = e" unfolding d5 using bounds(7,8) by simp
  note fields = x_def [symmetric] decode_fields f0 f1 f2 f3 f4 f5
  consider (big) "15 \<le> f" | (six) "f = 6" | (small) "f < 15" "f \<noteq> 6" "m < 16"
    using assms(9) by linarith
  then show ?thesis
  proof cases
    case big
    then have "g = 15" "e + g = f" by (simp_all add: g_def e_def)
    then show ?thesis unfolding fields by (simp add: m)
  next
    case six
    then have "g = 6" by (simp add: g_def)
    then show ?thesis unfolding fields by (simp add: m six)
  next
    case small
    then have "g = f" "a = m" using assms(5) by (simp_all add: g_def a_def)
    then show ?thesis unfolding fields using small by simp
  qed
qed

theorem signature_roundtrip_witness:
  "decode_signature 0x906EA =
     \<lparr>sig_stepping = 10, sig_model = 158, sig_family = 6, sig_processor_type = 0\<rparr>"
  using signature_roundtrip [of 10 0 158 6] by (simp add: encode_signature_def)

lemma of_char_range: "\<forall>c. 0 \<le> (of_char c :: int) \<and> (of_char c :: int) < 256"
  by code_simp

lemmas of_char_bounds = of_char_range [THEN spec, THEN conjunct1] of_char_range [THEN spec, THEN conjunct2]

lemma reg_chars_pack:
  "reg_chars (of_char a + 256 * (of_char b + 256 * (of_char c + 256 * of_char d))) = [a, b, c, d]"
proof -
  define r :: int where "r = of_char a + 256 * (of_char b + 256 * (of_char c + 256 * of_char d))"
  note low = low_digit [OF of_char_bounds]
  have 1: "r mod 256 = of_char a" "r div 256 = of_char b + 256 * (of_char c + 256 * of_char d)"
    unfolding r_def by (rule low)+
  have 2: "r div 65536 = of_char c + 256 * of_char d"
    using zdiv_zmult2_eq [of 256 r 256] unfolding 1(2) low(2) by simp
  have 3: "r div 16777216 = of_char d"
    using zdiv_zmult2_eq [of 256 r 65536] unfolding 2 low(2) by simp
  have "r div 256 mod 256 = of_char b" unfolding 1(2) by (rule low)
  moreover have "r div 65536 mod 256 = of_char c" unfolding 2 by (rule low)
  moreover have "r div 16777216 mod 256 = of_char d" unfolding 3 using of_char_bounds [of d] by simp
  ultimately have "map char_of [r mod 256, r div 256 mod 256, r div 65536 mod 256,
      r div 16777216 mod 256] = [a, b, c, d]"
    by (simp only: 1(1)) simp
  then show ?thesis
    unfolding r_def [symmetric] by (simp add: reg_chars_def and_low_bits drop_bit_eq_div)
qed

text \<open>
  The two 32-bit halves of the tick counter are joined without loss or sign.
\<close>

theorem join_high_low_sum: "join_high_low high low = uint high * 2 ^ 32 + uint low"
proof -
  have m: "(0xFFFFFFFF00000000 :: int) = push_bit 32 (mask 32)"
    by (simp add: push_bit_eq_mult mask_eq_exp_minus_1)
  have "uint high AND mask 32 = uint high"
    unfolding take_bit_eq_mask [symmetric]
    by (intro take_bit_int_eq_self) (use uint_bounded [of high] in auto)
  then have "join_high_low high low = push_bit 32 (uint high) OR uint low"
    unfolding join_high_low_def m by (simp flip: push_bit_and)
  also have "\<dots> = push_bit 32 (uint high) + uint low"
    by (rule disjunctive_add_eq_or [symmetric]) (rule bit_eqI, auto simp: bit_simps dest: bit_imp_le_length)
  finally show ?thesis by (simp add: push_bit_eq_mult)
qed

definition pack4 :: "char \<Rightarrow> char \<Rightarrow> char \<Rightarrow> char \<Rightarrow> int" where
  \<comment> \<open>four characters in a register, the first in the lowest byte\<close>
  "pack4 a b c d = of_char a + 256 * (of_char b + 256 * (of_char c + 256 * of_char d))"

lemma reg_chars_word: "reg_chars (uint (word_of_int (pack4 a b c d) :: 32 word)) = [a, b, c, d]"
proof -
  have "0 \<le> pack4 a b c d \<and> pack4 a b c d < 2 ^ 32"
    using of_char_bounds [of a] of_char_bounds [of b] of_char_bounds [of c] of_char_bounds [of d]
    by (simp add: pack4_def)
  then have "uint (word_of_int (pack4 a b c d) :: 32 word) = pack4 a b c d"
    by (simp add: uint_word_of_int take_bit_int_eq_self)
  then show ?thesis using reg_chars_pack [of a b c d] by (simp add: pack4_def)
qed

text \<open>
  The vendor name is the twelve characters that the processor keeps in EBX, EDX and ECX,
  in this order, four to a register with the first one in the low byte.
\<close>

theorem vendor_id_read:
  assumes "call_uint32 h (concat [xor_eax_eax, i_cpuid, mov_ax_bx, i_ret]) = Some (word_of_int (pack4 a b c d))"
    and "call_uint32 h (concat [xor_eax_eax, i_cpuid, mov_ax_dx, i_ret]) = Some (word_of_int (pack4 e f g k))"
    and "call_uint32 h (concat [xor_eax_eax, i_cpuid, mov_ax_cx, i_ret]) = Some (word_of_int (pack4 m n p q))"
  shows "get_vendor_id h = Some [a, b, c, d, e, f, g, k, m, n, p, q]"
  unfolding get_vendor_id_def run_asm_def assms by (simp add: reg_chars_word)

theorem vendor_id_read_witness:
  "get_vendor_id (example_host\<lparr>call_uint32 := (\<lambda>mc.
     if mc = concat [xor_eax_eax, i_cpuid, mov_ax_bx, i_ret]
     then Some (word_of_int (pack4 (CHR ''G'') (CHR ''e'') (CHR ''n'') (CHR ''u'')))
     else if mc = concat [xor_eax_eax, i_cpuid, mov_ax_dx, i_ret]
     then Some (word_of_int (pack4 (CHR ''i'') (CHR ''n'') (CHR ''e'') (CHR ''I'')))
     else Some (word_of_int (pack4 (CHR ''n'') (CHR ''t'') (CHR ''e'') (CHR ''l''))))\<rparr>)
   = Some ''GenuineIntel''"
  by (rule vendor_id_read) (simp_all add: mov_ax_bx_def mov_ax_cx_def mov_ax_dx_def)

definition flag_tables :: "int \<Rightarrow> (int list list \<times> (string \<times> nat) list) list" where
  \<comment> \<open>the registers read for a given highest extended leaf, and what their bits mean\<close>
  "flag_tables max_extension_support =
     [([mov_eax 1, i_cpuid, mov_ax_dx, i_ret], std_edx_flags),
      ([mov_eax 1, i_cpuid, mov_ax_cx, i_ret], std_ecx_flags)] @
     (if 7 \<le> max_extension_support then
       [([xor_ecx_ecx, mov_eax 7, i_cpuid, mov_ax_bx, i_ret], ext7_ebx_flags),
        ([xor_ecx_ecx, mov_eax 7, i_cpuid, mov_ax_cx, i_ret], ext7_ecx_flags)] else []) @
     (if 0x80000001 \<le> max_extension_support then
       [([mov_eax 0x80000001, i_cpuid, mov_ax_bx, i_ret], amd_ebx_flags),
        ([mov_eax 0x80000001, i_cpuid, mov_ax_cx, i_ret], amd_ecx_flags)] else [])"

definition flags_read :: "host \<Rightarrow> int list list \<Rightarrow> (string \<times> nat) list \<Rightarrow> string list option" where
  "flags_read h mc table = map_option (\<lambda>reg. set_flags reg table) (run_asm h mc)"

lemma get_flags_tables:
  "get_flags h mx = map_option (\<lambda>fs. sort (concat fs))
     (those (map (\<lambda>(mc, table). flags_read h mc table) (flag_tables mx)))"
  unfolding get_flags_def flag_tables_def flags_read_def
  by (auto simp: Let_def split: option.split Option.bind_split)

lemma those_Some_iff: "those xs = Some ys \<longleftrightarrow> xs = map Some ys"
  by (induction xs arbitrary: ys) (auto split: option.splits)

lemma set_set_flags: "name \<in> set (set_flags reg table) \<longleftrightarrow> (\<exists>b. (name, b) \<in> set table \<and> bit reg b)"
  by (force simp: set_flags_def is_bit_set_bit)

lemma flags_read_Some:
  "Some x = flags_read h mc table \<longleftrightarrow> (\<exists>reg. run_asm h mc = Some reg \<and> x = set_flags reg table)"
  by (cases "run_asm h mc") (auto simp: flags_read_def)

text \<open>
  The CPUID flags are sorted, and a name is among them exactly when its bit is set in the
  register whose table lists it, among the registers that the highest extended leaf admits.
\<close>

theorem get_flags_exact:
  assumes "get_flags h mx = Some fs"
  shows "sorted fs \<and>
    (name \<in> set fs \<longleftrightarrow> (\<exists>(mc, table) \<in> set (flag_tables mx). \<exists>reg b.
       run_asm h mc = Some reg \<and> (name, b) \<in> set table \<and> bit reg b))"
proof -
  let ?read = "\<lambda>(mc, table). flags_read h mc table"
  obtain fss where f: "map ?read (flag_tables mx) = map Some fss" "fs = sort (concat fss)"
    using assms by (auto simp: get_flags_tables those_Some_iff)
  have "set (map ?read (flag_tables mx)) = Some ` set fss" unfolding f(1) by simp
  then have "Some x \<in> ?read ` set (flag_tables mx) \<longleftrightarrow> x \<in> set fss" for x by auto
  then have "name \<in> set fs \<longleftrightarrow> (\<exists>x. Some x \<in> ?read ` set (flag_tables mx) \<and> name \<in> set x)"
    by (simp add: f(2)) blast
  also have "\<dots> \<longleftrightarrow> (\<exists>x \<in> set (flag_tables mx). \<exists>reg.
       run_asm h (fst x) = Some reg \<and> name \<in> set (set_flags reg (snd x)))"
    unfolding image_iff case_prod_beta flags_read_Some by blast
  also have "\<dots> \<longleftrightarrow> (\<exists>(mc, table) \<in> set (flag_tables mx). \<exists>reg b.
       run_asm h mc = Some reg \<and> (name, b) \<in> set table \<and> bit reg b)"
    unfolding set_set_flags case_prod_beta by simp
  finally show ?thesis by (simp add: f(2))
qed

theorem get_flags_exact_witness:
  "''fpu'' \<in> set (the (get_flags (example_host\<lparr>call_uint32 := (\<lambda>mc. Some 0x06000001)\<rparr>) 1)) \<and>
   sorted (the (get_flags (example_host\<lparr>call_uint32 := (\<lambda>mc. Some 0x06000001)\<rparr>) 1))"
proof -
  let ?h = "example_host\<lparr>call_uint32 := (\<lambda>mc. Some 0x06000001)\<rparr>"
  have g: "get_flags ?h 1 = Some [''aes'', ''fpu'', ''pni'', ''sse'', ''sse2'', ''xsave'']"
    by code_simp
  have "(''fpu'', 0) \<in> set std_edx_flags" by (simp add: std_edx_flags_def)
  then show ?thesis
    using get_flags_exact [OF g, of "''fpu''"] g
    by (auto simp: flag_tables_def run_asm_def)
qed

end
