(* ===== verification/CpuSources.thy ===== *)
theory CpuSources
  imports CpuContract
begin

text \<open>
  The sources of \<open>cpuinfo.py\<close> other than CPUID: each runs a command (or reads the registry),
  parses what it prints and returns a dictionary. A body is an option whose \<open>None\<close> is an
  exception; \<open>caught\<close> is the \<open>except Exception: return {}\<close> around it. The two sources that
  call their command outside of a \<open>try\<close> block let the exception out, so they are options.
\<close>

definition caught :: "info option \<Rightarrow> info" where
  "caught r = (case r of None \<Rightarrow> [] | Some i \<Rightarrow> i)"

definition with_output ::
    "bool option \<Rightarrow> (int \<times> string) option \<Rightarrow> (string \<Rightarrow> info option) \<Rightarrow> info option" where
  \<comment> \<open>the opening of every source: \<open>{}\<close> without the program or when it fails\<close>
  "with_output available command body = do {
     found \<leftarrow> available;
     if \<not> found then Some []
     else do {
       (returncode, output) \<leftarrow> command;
       if returncode \<noteq> 0 then Some [] else body output
     }
   }"

definition sorted_words :: "pyval \<Rightarrow> pyval" where
  \<comment> \<open>\<open>if flags: flags = flags.split(); flags.sort()\<close>\<close>
  "sorted_words v = (case v of VStr s \<Rightarrow> if s = [] then v else VStrs (sort (split_ws s)) | _ \<Rightarrow> v)"

definition after_text :: "string \<Rightarrow> string \<Rightarrow> string option" where
  \<comment> \<open>\<open>s.split(sep)[1]\<close>\<close>
  "after_text sep s = nth_opt (split_str s sep) 1"

definition before_text :: "string \<Rightarrow> string \<Rightarrow> string" where
  \<comment> \<open>\<open>s.split(sep)[0]\<close>\<close>
  "before_text sep s = hd (split_str s sep)"

definition tab :: char where
  "tab = CHR 0x09"

subsection \<open>/proc/cpuinfo\<close>

definition two_parts :: "string list \<Rightarrow> (string \<times> string) option" where
  \<comment> \<open>an entry of the sequence given to \<open>dict\<close> must have two parts\<close>
  "two_parts p = (case p of [k, v] \<Rightarrow> Some (k, v) | _ \<Rightarrow> None)"

fun level3_size :: "string \<Rightarrow> nat list \<Rightarrow> string option option" where
  \<comment> \<open>the loop over \<open>cache0\<close> to \<open>cache9\<close>: the inner option is the size, if one was found\<close>
  "level3_size output [] = Some None"
| "level3_size output (i # is) =
     (case get_field_actual False output [''cache'' @ show_int (int i)] of
        None \<Rightarrow> level3_size output is
      | Some v \<Rightarrow>
          (case those (map (\<lambda>entry. two_parts (split_str entry ''='')) (split_str v '' '')) of
             None \<Rightarrow> None
           | Some pairs \<Rightarrow>
               (let d = map_of (rev pairs)
                in if d ''level'' = Some ''3'' \<and> d ''size'' \<noteq> None then Some (d ''size'')
                   else level3_size output is)))"

definition proc_cache_size :: "string \<Rightarrow> string" where
  "proc_cache_size output =
     (case get_field_actual False output [''cache size''] of
        Some s \<Rightarrow> s
      | None \<Rightarrow> (case level3_size output [0..<10] of Some (Some s) \<Rightarrow> s | _ \<Rightarrow> []))"

definition hz_positive :: "string \<Rightarrow> int \<Rightarrow> bool" where
  \<comment> \<open>\<open>_hz_short_to_full(ticks, scale) > (0, 0)\<close>\<close>
  "hz_positive ticks scale =
     (let (l, r) = hz_short_to_full (Some ticks) (Some scale) in 0 < l \<or> l = 0 \<and> 0 < r)"

definition proc_hz_info :: "string \<Rightarrow> string \<Rightarrow> int \<Rightarrow> info" where
  \<comment> \<open>the clock entries that are positive; the actual one is tested with the advertised scale
    and stored with the scale of MHz\<close>
  "proc_hz_info hz_advertised hz_actual scale =
     (if hz_positive hz_advertised scale then
        [(''hz_advertised_friendly'', hz_friendly (Some hz_advertised) (Some scale)),
         (''hz_advertised'', hz_tuple (Some hz_advertised) (Some scale))] else []) @
     (if hz_positive hz_actual scale then
        [(''hz_actual_friendly'', hz_friendly (Some hz_actual) (Some 6)),
         (''hz_actual'', hz_tuple (Some hz_actual) (Some 6))] else [])"

definition proc_cpuinfo_body :: "string \<Rightarrow> info option" where
  "proc_cpuinfo_body output = do {
     let vendor_id = get_field False output None (VStr []) [''vendor_id'', ''vendor id'', ''vendor''];
     let processor_brand = get_field True output None VNone [''model name'', ''cpu'', ''processor''];
     let stepping = get_field False output (Some to_int) (VInt 0) [''stepping''];
     let model = get_field False output (Some to_int) (VInt 0) [''model''];
     let family = get_field False output (Some to_int) (VInt 0) [''cpu family''];
     let hardware = get_field False output None (VStr []) [''Hardware''];
     let flags = sorted_words
       (get_field False output None VNone [''flags'', ''Features'', ''ASEs implemented'']);
     let cache_size = proc_cache_size output;
     hz \<leftarrow> as_str (get_field False output None (VStr [])
       [''cpu MHz'', ''cpu speed'', ''clock'', ''cpu MHz dynamic'', ''cpu MHz static'']);
     let hz_actual = to_decimal_string (VStr (py_strip (rstrip_chars (py_lower hz) ''mhz'')));
     let (hz_advertised, scale) =
       (case do { b \<leftarrow> as_str processor_brand; parse_cpu_brand_string b } of
          None \<Rightarrow> (None, 0) | Some (t, sc) \<Rightarrow> (Some t, sc));
     let (hz_adv, hz_act, sc) =
       (case hz_advertised of
          None \<Rightarrow> (hz_actual, hz_actual, 6)
        | Some t \<Rightarrow>
            if t = [] \<or> t = ''0.0'' then (hz_actual, hz_actual, 6)
            else if hz_actual = [] \<or> hz_actual = ''0.0'' then (t, t, scale)
            else (t, hz_actual, scale));
     let info =
       [(''hardware_raw'', hardware), (''brand_raw'', processor_brand),
        (''l3_cache_size'', friendly_bytes_to_int cache_size), (''flags'', flags),
        (''vendor_id_raw'', vendor_id), (''stepping'', stepping), (''model'', model),
        (''family'', family)];
     Some (filter_dict_keys_with_empty_values (info @ proc_hz_info hz_adv hz_act sc))
   }"

definition get_cpu_info_from_proc_cpuinfo :: "host \<Rightarrow> info" where
  "get_cpu_info_from_proc_cpuinfo h =
     caught (with_output (Some (has_proc_cpuinfo h)) (cat_proc_cpuinfo h) proc_cpuinfo_body)"

subsection \<open>cpufreq-info\<close>

definition cpufreq_body :: "string \<Rightarrow> info option" where
  "cpufreq_body output = do {
     x \<leftarrow> after_text ''current CPU frequency is'' output;
     let line = first_line x;
     i \<leftarrow> py_find line ''Hz'';
     let hz_brand = py_lower (py_strip (take (i + 2) line));
     let scale = (if endswith hz_brand ''mhz'' then 6 else if endswith hz_brand ''ghz'' then 9 else 0);
     let hz = py_strip (rstrip_chars (rstrip_chars hz_brand ''mhz'') ''ghz'');
     let hz = to_decimal_string (VStr hz);
     Some (filter_dict_keys_with_empty_values (hz_info hz scale hz scale))
   }"

definition get_cpu_info_from_cpufreq_info :: "host \<Rightarrow> info" where
  "get_cpu_info_from_cpufreq_info h =
     caught (with_output (has_cpufreq_info h) (cpufreq_info h) cpufreq_body)"

subsection \<open>lscpu\<close>

definition put_hz :: "string \<Rightarrow> string list \<Rightarrow> info \<Rightarrow> info" where
  "put_hz output names i =
     (case get_field_actual False output names of
        None \<Rightarrow> i
      | Some v \<Rightarrow> fold (\<lambda>(k, x). put k x) (let t = to_decimal_string (VStr v) in hz_info t 6 t 6) i)"

definition put_text :: "string \<Rightarrow> string \<Rightarrow> string list \<Rightarrow> info \<Rightarrow> info" where
  "put_text key output names i =
     (case get_field_actual False output names of None \<Rightarrow> i | Some v \<Rightarrow> put key (VStr v) i)"

definition put_number :: "string \<Rightarrow> string \<Rightarrow> string list \<Rightarrow> info \<Rightarrow> info option" where
  \<comment> \<open>\<open>isdigit\<close> admits superscripts, on which \<open>int\<close> raises\<close>
  "put_number key output names i =
     (case get_field_actual False output names of
        None \<Rightarrow> Some i
      | Some v \<Rightarrow>
          if py_isdigit v then map_option (\<lambda>n. put key (VInt n) i) (py_int v) else Some i)"

definition put_size :: "string \<Rightarrow> string \<Rightarrow> string list \<Rightarrow> info \<Rightarrow> info" where
  "put_size key output names i =
     (case get_field_actual False output names of
        None \<Rightarrow> i | Some v \<Rightarrow> put key (friendly_bytes_to_int v) i)"

definition put_brand :: "string \<Rightarrow> info \<Rightarrow> info" where
  "put_brand output i =
     (case get_field_actual False output [''Model name''] of
        Some b \<Rightarrow> put ''brand_raw'' (VStr b) i
      | None \<Rightarrow>
          (case get_field_actual False output [''Model''] of
             Some b \<Rightarrow> if \<not> py_isdigit b then put ''brand_raw'' (VStr b) i else i
           | None \<Rightarrow> i))"

definition put_flags :: "string \<Rightarrow> info \<Rightarrow> info" where
  "put_flags output i =
     (case get_field_actual False output [''flags'', ''Features'', ''ASEs implemented''] of
        None \<Rightarrow> i | Some v \<Rightarrow> put ''flags'' (VStrs (sort (split_ws v))) i)"

definition lscpu_body :: "string \<Rightarrow> info option" where
  "lscpu_body output = do {
     let i = put_hz output [''CPU max MHz'', ''CPU MHz''] [];
     let i = put_hz output [''CPU dynamic MHz'', ''CPU static MHz''] i;
     let i = put_text ''vendor_id_raw'' output [''Vendor ID''] i;
     let i = put_brand output i;
     i \<leftarrow> put_number ''family'' output [''CPU family''] i;
     i \<leftarrow> put_number ''stepping'' output [''Stepping''] i;
     i \<leftarrow> put_number ''model'' output [''Model''] i;
     let i = put_size ''l1_data_cache_size'' output [''L1d cache''] i;
     let i = put_size ''l1_instruction_cache_size'' output [''L1i cache''] i;
     let i = put_size ''l2_cache_size'' output [''L2 cache'', ''L2d cache''] i;
     let i = put_size ''l3_cache_size'' output [''L3 cache''] i;
     let i = put_flags output i;
     Some (filter_dict_keys_with_empty_values i)
   }"

definition get_cpu_info_from_lscpu :: "host \<Rightarrow> info" where
  "get_cpu_info_from_lscpu h = caught (with_output (has_lscpu h) (lscpu h) lscpu_body)"

subsection \<open>dmesg and /var/run/dmesg.boot\<close>

definition get_cpu_info_from_dmesg :: "host \<Rightarrow> info option" where
  "get_cpu_info_from_dmesg h =
     (if fst (parse_arch (machine h)) = Some ''S390X'' then Some []
      else with_output (has_dmesg h) (dmesg_a h) (\<lambda>output. Some (parse_dmesg_output output)))"

definition get_cpu_info_from_cat_var_run_dmesg_boot :: "host \<Rightarrow> info option" where
  "get_cpu_info_from_cat_var_run_dmesg_boot h =
     with_output (Some (has_var_run_dmesg_boot h)) (cat_var_run_dmesg_boot h)
       (\<lambda>output. Some (parse_dmesg_output output))"

subsection \<open>lsprop ibm,pa-features\<close>

definition ibm_left_flags :: "(string \<times> nat) list" where
  "ibm_left_flags =
    [(''mmu'', 0), (''fpu'', 1), (''slb'', 2), (''run'', 3), (''dabr'', 5), (''ne'', 6),
     (''wtr'', 7), (''mcr'', 8), (''dsisr'', 9), (''lp'', 10), (''ri'', 11), (''dabrx'', 12),
     (''sprg3'', 13), (''rislb'', 14), (''pp'', 15), (''vpm'', 16), (''dss_2.05'', 17),
     (''dar'', 19), (''ppr'', 21), (''dss_2.02'', 22), (''dss_2.06'', 23),
     (''lsd_in_dscr'', 24), (''ugr_in_dscr'', 25)]"

definition ibm_right_flags :: "(string \<times> nat) list" where
  "ibm_right_flags =
    [(''sso_2.06'', 0), (''le'', 8), (''cfar'', 9), (''eb'', 10), (''lsq_2.07'', 11),
     (''dss_2.07'', 16)]"

definition ibm_pa_features_body :: "string \<Rightarrow> info option" where
  "ibm_pa_features_body output = do {
     x \<leftarrow> after_text ''ibm,pa-features'' output;
     let value = filter (\<lambda>c. c \<in> set ''0123456789abcfed'') (py_lower x);
     left \<leftarrow> py_int16 (take 8 value);
     right \<leftarrow> py_int16 (take 8 (drop 8 value));
     let flags = sort (set_flags left ibm_left_flags @ set_flags right ibm_right_flags);
     Some (filter_dict_keys_with_empty_values [(''flags'', VStrs flags)])
   }"

definition get_cpu_info_from_ibm_pa_features :: "host \<Rightarrow> info" where
  "get_cpu_info_from_ibm_pa_features h =
     caught (with_output (has_ibm_pa_features h) (ibm_pa_features h) ibm_pa_features_body)"

subsection \<open>sysctl\<close>

definition sysctl_words :: "string \<Rightarrow> string \<Rightarrow> string list" where
  \<comment> \<open>\<open>_get_field(False, output, None, '', name).lower().split()\<close>\<close>
  "sysctl_words output name =
     (case get_field_actual False output [name] of None \<Rightarrow> [] | Some v \<Rightarrow> split_ws (py_lower v))"

definition sysctl_body :: "string \<Rightarrow> info option" where
  "sysctl_body output = do {
     let vendor_id = get_field False output None VNone [''machdep.cpu.vendor''];
     let processor_brand = get_field True output None VNone [''machdep.cpu.brand_string''];
     let cache_size = get_field False output (Some to_int) (VInt 0) [''machdep.cpu.cache.size''];
     let stepping = get_field False output (Some to_int) (VInt 0) [''machdep.cpu.stepping''];
     let model = get_field False output (Some to_int) (VInt 0) [''machdep.cpu.model''];
     let family = get_field False output (Some to_int) (VInt 0) [''machdep.cpu.family''];
     let flags = sort (sysctl_words output ''machdep.cpu.features''
       @ sysctl_words output ''machdep.cpu.leaf7_features''
       @ sysctl_words output ''machdep.cpu.extfeatures'');
     b \<leftarrow> as_str processor_brand;
     (hz_advertised, scale) \<leftarrow> parse_cpu_brand_string b;
     let hz_actual = to_decimal_string (get_field False output None VNone [''hw.cpufrequency'']);
     size \<leftarrow> as_int cache_size;
     Some (filter_dict_keys_with_empty_values
       ([(''vendor_id_raw'', vendor_id), (''brand_raw'', processor_brand)] @
        hz_info hz_advertised scale hz_actual 0 @
        [(''l2_cache_size'', VInt (size * 1024)), (''stepping'', stepping), (''model'', model),
         (''family'', family), (''flags'', VStrs flags)]))
   }"

definition get_cpu_info_from_sysctl :: "host \<Rightarrow> info" where
  "get_cpu_info_from_sysctl h =
     caught (with_output (has_sysctl h) (sysctl_machdep_cpu_hw_cpufrequency h) sysctl_body)"

subsection \<open>sysinfo\<close>

definition cpu0_brand :: "string \<Rightarrow> string option" where
  \<comment> \<open>\<open>output.split('CPU #0: "')[1].split('"\n')[0].strip()\<close>\<close>
  "cpu0_brand output = map_option (\<lambda>x. py_strip (before_text [CHR 0x22, CHR 0x0A] x))
     (after_text (''CPU #0: '' @ [CHR 0x22]) output)"

definition number_after :: "string \<Rightarrow> string \<Rightarrow> int option" where
  \<comment> \<open>\<open>int(s.split(sep)[1].split(',')[0].strip())\<close>\<close>
  "number_after sep s = do { x \<leftarrow> after_text sep s; py_int (py_strip (before_text '','' x)) }"

definition sysinfo_v1_body :: "string \<Rightarrow> info option" where
  "sysinfo_v1_body output = do {
     processor_brand \<leftarrow> cpu0_brand output;
     stepping \<leftarrow> number_after '', stepping '' output;
     model \<leftarrow> number_after '', model '' output;
     family \<leftarrow> number_after '', family '' output;
     let flags = sort (concat (map (\<lambda>line. split_ws (py_lower (py_strip line)))
       (filter (\<lambda>line. startswith line [tab, tab]) (split_str output [CHR 0x0A]))));
     (hz_advertised, scale) \<leftarrow> parse_cpu_brand_string processor_brand;
     Some (filter_dict_keys_with_empty_values
       ([(''vendor_id_raw'', VStr []), (''brand_raw'', VStr processor_brand)] @
        hz_info hz_advertised scale hz_advertised scale @
        [(''l2_cache_size'', to_friendly_bytes (VStr [])), (''stepping'', VInt stepping),
         (''model'', VInt model), (''family'', VInt family), (''flags'', VStrs flags)]))
   }"

definition sub_line :: "string \<Rightarrow> bool" where
  "sub_line line \<longleftrightarrow> startswith line (replicate 16 CHR 0x20) \<or> startswith line [tab, tab]"

definition get_subsection_flags :: "string \<Rightarrow> string list" where
  "get_subsection_flags output =
     concat (map (\<lambda>line. split_str (py_lower (py_strip line)) '' '')
       (takeWhile sub_line (tl (split_str output [CHR 0x0A]))))"

definition sysinfo_v2_body :: "string \<Rightarrow> info option" where
  "sysinfo_v2_body output = do {
     processor_brand \<leftarrow> cpu0_brand output;
     sig \<leftarrow> after_text ''Signature:'' output;
     let signature = py_strip (first_line sig);
     stepping \<leftarrow> number_after ''stepping '' signature;
     model \<leftarrow> number_after ''model '' signature;
     family \<leftarrow> number_after ''family '' signature;
     f1 \<leftarrow> after_text ''Features: '' output;
     f2 \<leftarrow> after_text ''Extended Features (0x00000001): '' output;
     f3 \<leftarrow> after_text ''Extended Features (0x80000001): '' output;
     let flags = sort (concat (map get_subsection_flags [f1, f2, f3]));
     let lines = filter (\<lambda>n. n \<noteq> []) (split_str output [CHR 0x0A]);
     line0 \<leftarrow> nth_opt lines 0;
     x \<leftarrow> after_text ''running at '' line0;
     let raw_hz = py_lower (py_strip x);
     let hz = to_decimal_string (VStr (py_strip (rstrip_chars (rstrip_chars raw_hz ''mhz'') ''ghz'')));
     let scale = (if endswith raw_hz ''mhz'' then 6 else if endswith raw_hz ''ghz'' then 9 else 0);
     Some (filter_dict_keys_with_empty_values
       ([(''vendor_id_raw'', VStr []), (''brand_raw'', VStr processor_brand)] @
        hz_info hz scale hz scale @
        [(''l2_cache_size'', to_friendly_bytes (VStr [])), (''stepping'', VInt stepping),
         (''model'', VInt model), (''family'', VInt family), (''flags'', VStrs flags)]))
   }"

definition get_cpu_info_from_sysinfo_v1 :: "host \<Rightarrow> info" where
  "get_cpu_info_from_sysinfo_v1 h =
     caught (with_output (has_sysinfo h) (sysinfo_cpu h) sysinfo_v1_body)"

definition get_cpu_info_from_sysinfo_v2 :: "host \<Rightarrow> info" where
  "get_cpu_info_from_sysinfo_v2 h =
     caught (with_output (has_sysinfo h) (sysinfo_cpu h) sysinfo_v2_body)"

definition get_cpu_info_from_sysinfo :: "host \<Rightarrow> info" where
  "get_cpu_info_from_sysinfo h =
     fold (\<lambda>(k, v). put k v) (get_cpu_info_from_sysinfo_v2 h) (get_cpu_info_from_sysinfo_v1 h)"

subsection \<open>wmic and the Windows registry\<close>

definition rstrip_ws :: "string \<Rightarrow> string" where
  "rstrip_ws s = rstrip_by is_space s"

definition wmic_values :: "string \<Rightarrow> (string \<times> string) list option" where
  \<comment> \<open>unpacking \<open>k, v\<close> raises on a line with more than one equals sign\<close>
  "wmic_values output =
     map_option (filter (\<lambda>(k, v). v \<noteq> []))
       (those (map (\<lambda>s. two_parts (split_str (rstrip_ws s) ''=''))
          (filter (\<lambda>s. str_in ''='' s) (split_str output [CHR 0x0A]))))"

definition index_of :: "string \<Rightarrow> string list \<Rightarrow> nat" where
  "index_of x xs = length (takeWhile (\<lambda>y. y \<noteq> x) xs)"

definition entry_number :: "string \<Rightarrow> pyval \<Rightarrow> string list \<Rightarrow> pyval option" where
  \<comment> \<open>\<open>int(entries[entries.index(name) + 1])\<close> when the name is there and is not the last entry\<close>
  "entry_number name dflt entries =
     (if name \<in> set entries \<and> index_of name entries < length entries - 1
      then map_option VInt (py_int (entries ! (index_of name entries + 1))) else Some dflt)"

definition kilobytes :: "string option \<Rightarrow> pyval option" where
  "kilobytes x = (case x of
     None \<Rightarrow> Some VNone | Some s \<Rightarrow> map_option (\<lambda>n. VInt (n * 1024)) (py_int s))"

definition wmic_body :: "string \<Rightarrow> info option" where
  "wmic_body output = do {
     values \<leftarrow> wmic_values output;
     let value = map_of (rev values);
     processor_brand \<leftarrow> value ''Name'';
     (hz_advertised, scale_advertised) \<leftarrow> parse_cpu_brand_string processor_brand;
     let hz_actual = map_option (\<lambda>v. to_decimal_string (VStr v)) (value ''CurrentClockSpeed'');
     l2_cache_size \<leftarrow> kilobytes (value ''L2CacheSize'');
     l3_cache_size \<leftarrow> kilobytes (value ''L3CacheSize'');
     description \<leftarrow> (case value ''Description'' of None \<Rightarrow> value ''Caption'' | Some d \<Rightarrow> Some d);
     let entries = split_str description '' '';
     family \<leftarrow> entry_number ''Family'' (VStr []) entries;
     model \<leftarrow> entry_number ''Model'' (VStr []) entries;
     stepping \<leftarrow> entry_number ''Stepping'' (VStr []) entries;
     Some (filter_dict_keys_with_empty_values
       [(''vendor_id_raw'', opt_str (value ''Manufacturer'')), (''brand_raw'', VStr processor_brand),
        (''hz_advertised_friendly'', hz_friendly (Some hz_advertised) (Some scale_advertised)),
        (''hz_actual_friendly'', hz_friendly hz_actual (Some 6)),
        (''hz_advertised'', hz_tuple (Some hz_advertised) (Some scale_advertised)),
        (''hz_actual'', hz_tuple hz_actual (Some 6)),
        (''l2_cache_size'', l2_cache_size), (''l3_cache_size'', l3_cache_size),
        (''stepping'', stepping), (''model'', model), (''family'', family)])
   }"

definition get_cpu_info_from_wmic :: "host \<Rightarrow> info" where
  \<comment> \<open>\<open>has_wmic\<close> runs only on Windows\<close>
  "get_cpu_info_from_wmic h =
     caught (with_output (if is_windows h then has_wmic h else Some False) (wmic_cpu h) wmic_body)"

definition is_set :: "int \<Rightarrow> nat \<Rightarrow> bool" where
  "is_set feature_bits b \<longleftrightarrow> 0 < and (drop_bit b 0x80000000) feature_bits"

definition registry_flags :: "(string \<times> nat) list" where
  "registry_flags =
    [(''fpu'', 0), (''vme'', 1), (''de'', 2), (''pse'', 3), (''tsc'', 4), (''msr'', 5),
     (''pae'', 6), (''mce'', 7), (''cx8'', 8), (''apic'', 9), (''sepamd'', 10),
     (''sep'', 11), (''mtrr'', 12), (''pge'', 13), (''mca'', 14), (''cmov'', 15),
     (''pat'', 16), (''pse36'', 17), (''serial'', 18), (''clflush'', 19), (''dts'', 21),
     (''acpi'', 22), (''mmx'', 23), (''fxsr'', 24), (''sse'', 25), (''sse2'', 26),
     (''ss'', 27), (''tm'', 29), (''ia64'', 30), (''3dnow'', 31)]"

definition registry_body :: "host \<Rightarrow> info option" where
  "registry_body h = do {
     b \<leftarrow> winreg_processor_brand h;
     let processor_brand = py_strip b;
     vendor_id \<leftarrow> winreg_vendor_id_raw h;
     a \<leftarrow> winreg_arch_string_raw h;
     arch_string_raw \<leftarrow> as_str a;
     hz \<leftarrow> winreg_hz_actual h;
     let hz_actual = to_decimal_string (VStr hz);
     (adv, sc) \<leftarrow> parse_cpu_brand_string processor_brand;
     let scale = (if adv = ''0.0'' then 6 else sc);
     let hz_advertised = (if adv = ''0.0'' then to_decimal_string (VStr hz_actual) else adv);
     fb \<leftarrow> winreg_feature_bits h;
     feature_bits \<leftarrow> as_int fb;
     let flags = sort (map fst (filter (\<lambda>(name, k). is_set feature_bits k) registry_flags));
     Some (filter_dict_keys_with_empty_values
       ([(''vendor_id_raw'', vendor_id), (''brand_raw'', VStr processor_brand)] @
        hz_info hz_advertised scale hz_actual 6 @ [(''flags'', VStrs flags)]))
   }"

definition get_cpu_info_from_registry :: "host \<Rightarrow> info" where
  "get_cpu_info_from_registry h = (if \<not> is_windows h then [] else caught (registry_body h))"

subsection \<open>kstat\<close>

definition kstat_text :: "string \<Rightarrow> string \<Rightarrow> string option" where
  \<comment> \<open>\<open>kstat.split('\t<name> ')[1].split('\n')[0].strip()\<close>\<close>
  "kstat_text name kstat =
     map_option (\<lambda>x. py_strip (first_line x)) (after_text (tab # name @ '' '') kstat)"

definition kstat_body :: "string \<Rightarrow> string \<Rightarrow> info option" where
  "kstat_body flag_output kstat = do {
     vendor_id \<leftarrow> kstat_text ''vendor_id'' kstat;
     processor_brand \<leftarrow> kstat_text ''brand'' kstat;
     st \<leftarrow> kstat_text ''stepping'' kstat;
     stepping \<leftarrow> py_int st;
     mo \<leftarrow> kstat_text ''model'' kstat;
     model \<leftarrow> py_int mo;
     fa \<leftarrow> kstat_text ''family'' kstat;
     family \<leftarrow> py_int fa;
     let flags = sort (split_ws (py_lower (py_strip
       (last (split_str (py_strip flag_output) [CHR 0x0A])))));
     adv \<leftarrow> kstat_text ''clock_MHz'' kstat;
     act \<leftarrow> kstat_text ''current_clock_Hz'' kstat;
     let hz_advertised = to_decimal_string (VStr adv);
     let hz_actual = to_decimal_string (VStr act);
     Some (filter_dict_keys_with_empty_values
       ([(''vendor_id_raw'', VStr vendor_id), (''brand_raw'', VStr processor_brand)] @
        hz_info hz_advertised 6 hz_actual 0 @
        [(''stepping'', VInt stepping), (''model'', VInt model), (''family'', VInt family),
         (''flags'', VStrs flags)]))
   }"

definition has_isainfo_and_kstat :: "host \<Rightarrow> bool option" where
  "has_isainfo_and_kstat h = do {
     isainfo \<leftarrow> has_isainfo h;
     if \<not> isainfo then Some False else has_kstat h
   }"

definition get_cpu_info_from_kstat :: "host \<Rightarrow> info" where
  "get_cpu_info_from_kstat h =
     caught (with_output (has_isainfo_and_kstat h) (isainfo_vb h) (\<lambda>flag_output.
       with_output (Some True) (kstat_m_cpu_info h) (kstat_body flag_output)))"

subsection \<open>platform.uname\<close>

definition platform_uname_body :: "string \<Rightarrow> info option" where
  "platform_uname_body uname_string_raw = do {
     let uname = before_text '','' uname_string_raw;
     let entries = split_str uname '' '';
     family \<leftarrow> entry_number ''Family'' VNone entries;
     model \<leftarrow> entry_number ''Model'' VNone entries;
     stepping \<leftarrow> entry_number ''Stepping'' VNone entries;
     Some (filter_dict_keys_with_empty_values
       [(''family'', family), (''model'', model), (''stepping'', stepping)])
   }"

definition get_cpu_info_from_platform_uname :: "host \<Rightarrow> info" where
  "get_cpu_info_from_platform_uname h = caught (platform_uname_body (uname_5 h))"

subsection \<open>The contracts\<close>

lemma caught_ind: "(\<And>i. r = Some i \<Longrightarrow> P i) \<Longrightarrow> P [] \<Longrightarrow> P (caught r)"
  by (auto simp: caught_def split: option.splits)

lemma with_output_ind:
  "with_output available command body = Some i \<Longrightarrow>
   (\<And>output. body output = Some i \<Longrightarrow> P i) \<Longrightarrow> P [] \<Longrightarrow> P i"
  by (auto simp: with_output_def bind_eq_Some_conv split: if_splits)

lemma clean_caught:
  assumes "\<And>output i. body output = Some i \<Longrightarrow> clean_info i"
  shows "clean_info (caught (with_output available command body))"
  by (rule caught_ind, erule with_output_ind) (simp_all add: assms)

lemma hz_info_ok [simp]:
  "map fst (hz_info a s b t) =
     [''hz_advertised_friendly'', ''hz_actual_friendly'', ''hz_advertised'', ''hz_actual'']"
  "flags_ok (hz_info a s b t)"
  by (simp_all add: hz_info_def)

lemma sorted_words_ok:
  "truthy (sorted_words (get_field c raw None VNone names)) \<Longrightarrow>
   sorted_flags (sorted_words (get_field c raw None VNone names))"
  by (auto simp: sorted_words_def get_field_def split: option.splits)

lemma proc_hz_keys [simp]:
  "map fst (proc_hz_info a b c) =
     (if hz_positive a c then [''hz_advertised_friendly'', ''hz_advertised''] else []) @
     (if hz_positive b c then [''hz_actual_friendly'', ''hz_actual''] else [])"
  "flags_ok (proc_hz_info a b c)"
  by (simp_all add: proc_hz_info_def)

lemma distinct_proc_keys:
  "distinct (map fst ([(''hardware_raw'', v1), (''brand_raw'', v2), (''l3_cache_size'', v3),
     (''flags'', v4), (''vendor_id_raw'', v5), (''stepping'', v6), (''model'', v7),
     (''family'', v8)] @ proc_hz_info a b c))"
  unfolding map_append proc_hz_keys by auto

lemma clean_proc_cpuinfo: "proc_cpuinfo_body output = Some i \<Longrightarrow> clean_info i"
  unfolding proc_cpuinfo_body_def bind_eq_Some_conv Let_def case_prod_beta
  by (elim exE conjE, erule clean_filter_body, rule distinct_proc_keys)
    (simp (no_asm) add: sorted_words_ok)

lemma clean_cpufreq: "cpufreq_body output = Some i \<Longrightarrow> clean_info i"
  unfolding cpufreq_body_def bind_eq_Some_conv Let_def case_prod_beta
  by (elim exE conjE, erule clean_filter_body; simp (no_asm) add: sorted_words_ok)

lemma clean_ibm: "ibm_pa_features_body output = Some i \<Longrightarrow> clean_info i"
  unfolding ibm_pa_features_body_def bind_eq_Some_conv Let_def case_prod_beta
  by (elim exE conjE, erule clean_filter_body; simp (no_asm) add: sorted_words_ok)

lemma clean_sysctl: "sysctl_body output = Some i \<Longrightarrow> clean_info i"
  unfolding sysctl_body_def bind_eq_Some_conv Let_def case_prod_beta
  by (elim exE conjE, erule clean_filter_body; simp (no_asm) add: sorted_words_ok)

lemma clean_sysinfo_v1: "sysinfo_v1_body output = Some i \<Longrightarrow> clean_info i"
  unfolding sysinfo_v1_body_def bind_eq_Some_conv Let_def case_prod_beta
  by (elim exE conjE, erule clean_filter_body; simp (no_asm) add: sorted_words_ok)

lemma clean_sysinfo_v2: "sysinfo_v2_body output = Some i \<Longrightarrow> clean_info i"
  unfolding sysinfo_v2_body_def bind_eq_Some_conv Let_def case_prod_beta
  by (elim exE conjE, erule clean_filter_body; simp (no_asm) add: sorted_words_ok)

lemma clean_wmic: "wmic_body output = Some i \<Longrightarrow> clean_info i"
  unfolding wmic_body_def bind_eq_Some_conv Let_def case_prod_beta
  by (elim exE conjE, erule clean_filter_body; simp (no_asm) add: sorted_words_ok)

lemma clean_registry: "registry_body h = Some i \<Longrightarrow> clean_info i"
  unfolding registry_body_def bind_eq_Some_conv Let_def case_prod_beta
  by (elim exE conjE, erule clean_filter_body; simp (no_asm) add: sorted_words_ok)

lemma clean_kstat: "kstat_body a b = Some i \<Longrightarrow> clean_info i"
  unfolding kstat_body_def bind_eq_Some_conv Let_def case_prod_beta
  by (elim exE conjE, erule clean_filter_body; simp (no_asm) add: sorted_words_ok)

lemma clean_uname: "platform_uname_body u = Some i \<Longrightarrow> clean_info i"
  unfolding platform_uname_body_def bind_eq_Some_conv Let_def case_prod_beta
  by (elim exE conjE, erule clean_filter_body; simp (no_asm) add: sorted_words_ok)

text \<open>lscpu builds its dictionary by assignments, which keep this shape.\<close>

definition assignable :: "info \<Rightarrow> bool" where
  "assignable i \<longleftrightarrow> distinct (map fst i) \<and> flags_ok i"

lemma assignable_Nil [simp]: "assignable []"
  by (simp add: assignable_def)

lemma assignable_put [simp]:
  "assignable i \<Longrightarrow> (k = ''flags'' \<longrightarrow> truthy v \<longrightarrow> sorted_flags v) \<Longrightarrow> assignable (put k v i)"
  by (simp add: assignable_def)

lemma assignable_puts:
  "assignable i \<Longrightarrow> flags_ok kvs \<Longrightarrow> assignable (fold (\<lambda>(k, v). put k v) kvs i)"
  by (induction kvs arbitrary: i) auto

lemma assignable_steps [simp]:
  "assignable i \<Longrightarrow> assignable (put_hz output names i)"
  "assignable i \<Longrightarrow> key \<noteq> ''flags'' \<Longrightarrow> assignable (put_text key output names i)"
  "assignable i \<Longrightarrow> key \<noteq> ''flags'' \<Longrightarrow> assignable (put_size key output names i)"
  "assignable i \<Longrightarrow> assignable (put_brand output i)"
  "assignable i \<Longrightarrow> assignable (put_flags output i)"
  by (simp_all add: put_hz_def put_text_def put_size_def put_brand_def put_flags_def Let_def
      assignable_puts split: option.split)

lemma assignable_put_number:
  "put_number key output names i = Some j \<Longrightarrow> assignable i \<Longrightarrow> key \<noteq> ''flags'' \<Longrightarrow> assignable j"
  by (auto simp: put_number_def split: option.splits if_splits)

lemma clean_assignable: "assignable i \<Longrightarrow> clean_info (filter_dict_keys_with_empty_values i)"
  by (auto simp: assignable_def)

lemma clean_lscpu:
  assumes "lscpu_body output = Some i"
  shows "clean_info i"
proof -
  define i0 where "i0 = put_brand output (put_text ''vendor_id_raw'' output [''Vendor ID'']
    (put_hz output [''CPU dynamic MHz'', ''CPU static MHz'']
      (put_hz output [''CPU max MHz'', ''CPU MHz''] [])))"
  obtain i1 i2 i3 where steps:
    "put_number ''family'' output [''CPU family''] i0 = Some i1"
    "put_number ''stepping'' output [''Stepping''] i1 = Some i2"
    "put_number ''model'' output [''Model''] i2 = Some i3"
    "filter_dict_keys_with_empty_values (put_flags output
       (put_size ''l3_cache_size'' output [''L3 cache'']
         (put_size ''l2_cache_size'' output [''L2 cache'', ''L2d cache'']
           (put_size ''l1_instruction_cache_size'' output [''L1i cache'']
             (put_size ''l1_data_cache_size'' output [''L1d cache''] i3))))) = i"
    using assms unfolding lscpu_body_def Let_def i0_def [symmetric] bind_eq_Some_conv
    by (elim exE conjE) (simp only: option.inject)
  have "assignable i0" by (simp add: i0_def)
  then have "assignable i1" by (rule assignable_put_number [OF steps(1)]) simp
  then have "assignable i2" by (rule assignable_put_number [OF steps(2)]) simp
  then have "assignable i3" by (rule assignable_put_number [OF steps(3)]) simp
  then show ?thesis unfolding steps(4) [symmetric] by (intro clean_assignable) simp
qed

lemma keep_truthy_good:
  "Some (keep_truthy i) = Some j \<Longrightarrow> distinct (map fst i) \<Longrightarrow> flags_ok i \<Longrightarrow> good_info j"
  by (auto intro: good_filter)

lemma dmesg_hz_ok [simp]:
  "map fst (dmesg_hz a b c) = (if a \<noteq> [] \<and> a \<noteq> ''0.0'' then
     [''hz_advertised_friendly'', ''hz_actual_friendly'', ''hz_advertised'', ''hz_actual''] else [])"
  "flags_ok (dmesg_hz a b c)"
  by (simp_all add: dmesg_hz_def)

lemma distinct_dmesg_keys:
  "distinct (map fst ([(''vendor_id_raw'', v1), (''brand_raw'', v2), (''stepping'', v3),
     (''model'', v4), (''family'', v5), (''flags'', v6)] @ dmesg_hz a b c))"
  unfolding map_append dmesg_hz_ok by auto

lemma dmesg_flags_sorted: "dmesg_flags output = Some fs \<Longrightarrow> sorted fs"
  by (auto simp: dmesg_flags_def bind_eq_Some_conv Let_def)

lemma good_dmesg_info: "dmesg_info output best = Some i \<Longrightarrow> good_info i"
  unfolding dmesg_info_def bind_eq_Some_conv Let_def case_prod_beta
  by (elim exE conjE, erule keep_truthy_good, rule distinct_dmesg_keys)
    (drule dmesg_flags_sorted, simp (no_asm_simp))

lemma good_dmesg: "good_info (parse_dmesg_output output)"
  by (auto simp: parse_dmesg_output_def bind_eq_Some_conv good_dmesg_info split: option.splits)

lemma clean_sources:
  "clean_info (get_cpu_info_from_proc_cpuinfo h)"
  "clean_info (get_cpu_info_from_cpufreq_info h)"
  "clean_info (get_cpu_info_from_lscpu h)"
  "clean_info (get_cpu_info_from_ibm_pa_features h)"
  "clean_info (get_cpu_info_from_sysctl h)"
  "clean_info (get_cpu_info_from_sysinfo_v1 h)"
  "clean_info (get_cpu_info_from_sysinfo_v2 h)"
  "clean_info (get_cpu_info_from_wmic h)"
  unfolding get_cpu_info_from_proc_cpuinfo_def get_cpu_info_from_cpufreq_info_def
    get_cpu_info_from_lscpu_def get_cpu_info_from_ibm_pa_features_def get_cpu_info_from_sysctl_def
    get_cpu_info_from_sysinfo_v1_def get_cpu_info_from_sysinfo_v2_def get_cpu_info_from_wmic_def
  by (rule clean_caught, erule clean_proc_cpuinfo clean_cpufreq clean_lscpu clean_ibm clean_sysctl
      clean_sysinfo_v1 clean_sysinfo_v2 clean_wmic)+

lemma clean_sysinfo: "clean_info (get_cpu_info_from_sysinfo h)"
  unfolding get_cpu_info_from_sysinfo_def
  using clean_sources(7) [of h] by (intro clean_puts clean_sources) (auto simp: clean_iff)

lemma clean_registry_source: "clean_info (get_cpu_info_from_registry h)"
  unfolding get_cpu_info_from_registry_def by (simp, rule impI, rule caught_ind, erule clean_registry, simp)

lemma clean_uname_source: "clean_info (get_cpu_info_from_platform_uname h)"
  unfolding get_cpu_info_from_platform_uname_def by (rule caught_ind, erule clean_uname, simp)

lemma clean_kstat_source: "clean_info (get_cpu_info_from_kstat h)"
  unfolding get_cpu_info_from_kstat_def
  by (rule clean_caught, erule with_output_ind, erule clean_kstat, simp)

interpretation proc_cpuinfo_src: filtered_source "\<lambda>h. Some (get_cpu_info_from_proc_cpuinfo h)"
  by (rule filtered_sourceI) (rule clean_sources)

interpretation cpufreq_src: filtered_source "\<lambda>h. Some (get_cpu_info_from_cpufreq_info h)"
  by (rule filtered_sourceI) (rule clean_sources)

interpretation lscpu_src: filtered_source "\<lambda>h. Some (get_cpu_info_from_lscpu h)"
  by (rule filtered_sourceI) (rule clean_sources)

interpretation ibm_src: filtered_source "\<lambda>h. Some (get_cpu_info_from_ibm_pa_features h)"
  by (rule filtered_sourceI) (rule clean_sources)

interpretation sysctl_src: filtered_source "\<lambda>h. Some (get_cpu_info_from_sysctl h)"
  by (rule filtered_sourceI) (rule clean_sources)

interpretation sysinfo_src: filtered_source "\<lambda>h. Some (get_cpu_info_from_sysinfo h)"
  by (rule filtered_sourceI) (rule clean_sysinfo)

interpretation wmic_src: filtered_source "\<lambda>h. Some (get_cpu_info_from_wmic h)"
  by (rule filtered_sourceI) (rule clean_sources)

interpretation registry_src: filtered_source "\<lambda>h. Some (get_cpu_info_from_registry h)"
  by (rule filtered_sourceI) (rule clean_registry_source)

interpretation kstat_src: filtered_source "\<lambda>h. Some (get_cpu_info_from_kstat h)"
  by (rule filtered_sourceI) (rule clean_kstat_source)

interpretation uname_src: filtered_source "\<lambda>h. Some (get_cpu_info_from_platform_uname h)"
  by (rule filtered_sourceI) (rule clean_uname_source)

text \<open>The two kernel-log sources keep \<open>(0, 0)\<close>, so theirs is the weaker promise.\<close>

interpretation dmesg_src: info_source get_cpu_info_from_dmesg
proof unfold_locales
  fix h i
  assume "get_cpu_info_from_dmesg h = Some i"
  then show "good_info i"
    by (cases "fst (parse_arch (machine h)) = Some ''S390X''")
      (simp_all add: get_cpu_info_from_dmesg_def, erule with_output_ind, auto simp: good_dmesg)
qed

interpretation dmesg_boot_src: info_source get_cpu_info_from_cat_var_run_dmesg_boot
  by unfold_locales
    (unfold get_cpu_info_from_cat_var_run_dmesg_boot_def, erule with_output_ind, auto simp: good_dmesg)

subsection \<open>The bits of the registry\<close>

text \<open>
  The registry's feature word is read from its other end: flag number \<open>b\<close> of the table
  is bit \<open>31 - b\<close> of the value.
\<close>

theorem is_set_reversed: "b \<le> 31 \<Longrightarrow> is_set fb b \<longleftrightarrow> bit fb (31 - b)"
proof -
  assume "b \<le> 31"
  moreover have "(0x80000000 :: int) = 2 ^ 31" by simp
  ultimately have "drop_bit b (0x80000000 :: int) = push_bit (31 - b) 1"
    by (simp only: drop_bit_exp_eq) (simp add: push_bit_eq_mult possible_bit_def)
  then show ?thesis
    using is_bit_set_bit [of fb "31 - b"] by (simp add: is_set_def is_bit_set_def and.commute)
qed

theorem is_set_reversed_witness: "is_set 0x80000000 0 \<and> \<not> is_set 0x80000000 31"
  using is_set_reversed [of 0 "0x80000000"] is_set_reversed [of 31 "0x80000000"]
  by (simp add: bit_iff_odd)

end
