(* ===== verification/CpuInfo.thy ===== *)
theory CpuInfo
  imports CpuId CpuSources
begin

text \<open>
  How \<open>cpuinfo.py\<close> combines its sources: \<open>_copy_new_fields\<close>, the sequence of sources in
  \<open>_get_cpu_info_internal\<close>, the architecture check and the command line entry point. The
  contract of a source is the locale \<open>info_source\<close>, interpreted for each of the thirteen
  sources; what is proved inside it is what the properties of the result rest on.
\<close>

subsection \<open>Merging\<close>

definition field_keys :: "string list" where
  "field_keys =
     [''vendor_id_raw'', ''hardware_raw'', ''brand_raw'', ''hz_advertised_friendly'',
      ''hz_actual_friendly'', ''hz_advertised'', ''hz_actual'', ''arch'', ''bits'', ''count'',
      ''arch_string_raw'', ''uname_string_raw'', ''l2_cache_size'', ''l2_cache_line_size'',
      ''l2_cache_associativity'', ''stepping'', ''model'', ''family'', ''processor_type'',
      ''flags'', ''l3_cache_size'', ''l1_data_cache_size'', ''l1_instruction_cache_size'']"

fun append_new :: "string list \<Rightarrow> string list \<Rightarrow> string list" where
  \<comment> \<open>\<open>for f in new: if f not in fs: fs.append(f)\<close>\<close>
  "append_new [] fs = fs"
| "append_new (f # new) fs = append_new new (if f \<in> set fs then fs else fs @ [f])"

definition merge_flags :: "pyval \<Rightarrow> pyval \<Rightarrow> pyval option" where
  \<comment> \<open>both values are lists of strings; a value of another type has no \<open>append\<close> or \<open>sort\<close>\<close>
  "merge_flags new old = (case (new, old) of
     (VStrs ns, VStrs fs) \<Rightarrow> Some (VStrs (sort (append_new ns fs)))
   | _ \<Rightarrow> None)"

definition copy_key :: "info \<Rightarrow> string \<Rightarrow> info \<Rightarrow> info option" where
  "copy_key new_info key i =
     (if truthy (get_dflt new_info key) \<and> \<not> truthy (get_dflt i key)
      then Some (put key (get_dflt new_info key) i)
      else if key = ''flags'' \<and> truthy (get_dflt new_info ''flags'')
      then map_option (\<lambda>v. put ''flags'' v i)
             (merge_flags (get_dflt new_info ''flags'') (get_dflt i ''flags''))
      else Some i)"

definition copy_new_fields :: "info \<Rightarrow> info \<Rightarrow> info option" where
  "copy_new_fields i new_info = ofold (copy_key new_info) field_keys i"

subsection \<open>The whole query\<close>

definition CPUINFO_VERSION :: "int list" where
  "CPUINFO_VERSION = [8, 0, 0]"

definition CPUINFO_VERSION_STRING :: string where
  "CPUINFO_VERSION_STRING = py_join ''.'' (map show_int CPUINFO_VERSION)"

definition PYTHON_VERSION :: "host \<Rightarrow> string" where
  "PYTHON_VERSION h =
     py_join ''.'' (take 5 (version_info h)) @ '' ('' @
     (if sys_maxsize h = 2 ^ 31 - 1 then ''32 bit'' else if sys_maxsize h = 2 ^ 63 - 1 then ''64 bit''
      else ''unknown bits'') @ '')''"

definition base_info :: "host \<Rightarrow> info" where
  "base_info h =
     (let (arch, bits) = parse_arch (machine h)
      in [(''python_version'', VStr (PYTHON_VERSION h)),
          (''cpuinfo_version'', VTuple CPUINFO_VERSION),
          (''cpuinfo_version_string'', VStr CPUINFO_VERSION_STRING),
          (''arch'', opt_str arch), (''bits'', opt_int bits), (''count'', VInt (cpu_count h)),
          (''arch_string_raw'', VStr (machine h))])"

definition sources :: "(host \<Rightarrow> info option) list" where
  "sources =
     [\<lambda>h. Some (get_cpu_info_from_wmic h),
      \<lambda>h. Some (get_cpu_info_from_registry h),
      \<lambda>h. Some (get_cpu_info_from_proc_cpuinfo h),
      \<lambda>h. Some (get_cpu_info_from_cpufreq_info h),
      \<lambda>h. Some (get_cpu_info_from_lscpu h),
      \<lambda>h. Some (get_cpu_info_from_sysctl h),
      \<lambda>h. Some (get_cpu_info_from_kstat h),
      get_cpu_info_from_dmesg,
      get_cpu_info_from_cat_var_run_dmesg_boot,
      \<lambda>h. Some (get_cpu_info_from_ibm_pa_features h),
      \<lambda>h. Some (get_cpu_info_from_sysinfo h),
      \<lambda>h. Some (get_cpu_info_from_cpuid h),
      \<lambda>h. Some (get_cpu_info_from_platform_uname h)]"

definition get_cpu_info_internal :: "host \<Rightarrow> info option" where
  "get_cpu_info_internal h =
     ofold (\<lambda>source i. do { new_info \<leftarrow> source h; copy_new_fields i new_info }) sources (base_info h)"

subsection \<open>The command line\<close>

definition check_arch :: "host \<Rightarrow> bool" where
  \<comment> \<open>\<open>False\<close> is the exception\<close>
  "check_arch h \<longleftrightarrow> fst (parse_arch (machine h)) \<in> set (map Some
     [''X86_32'', ''X86_64'', ''ARM_7'', ''ARM_8'', ''PPC_64'', ''S390X'', ''MIPS_32'', ''MIPS_64''])"

definition report_lines :: "(string \<times> string) list" where
  "report_lines =
     [(''Python Version'', ''python_version''), (''Cpuinfo Version'', ''cpuinfo_version_string''),
      (''Vendor ID Raw'', ''vendor_id_raw''), (''Hardware Raw'', ''hardware_raw''),
      (''Brand Raw'', ''brand_raw''), (''Hz Advertised Friendly'', ''hz_advertised_friendly''),
      (''Hz Actual Friendly'', ''hz_actual_friendly''), (''Hz Advertised'', ''hz_advertised''),
      (''Hz Actual'', ''hz_actual''), (''Arch'', ''arch''), (''Bits'', ''bits''),
      (''Count'', ''count''), (''Arch String Raw'', ''arch_string_raw''),
      (''L1 Data Cache Size'', ''l1_data_cache_size''),
      (''L1 Instruction Cache Size'', ''l1_instruction_cache_size''),
      (''L2 Cache Size'', ''l2_cache_size''), (''L2 Cache Line Size'', ''l2_cache_line_size''),
      (''L2 Cache Associativity'', ''l2_cache_associativity''), (''L3 Cache Size'', ''l3_cache_size''),
      (''Stepping'', ''stepping''), (''Model'', ''model''), (''Family'', ''family''),
      (''Processor Type'', ''processor_type'')]"

definition get_empty :: "info \<Rightarrow> string \<Rightarrow> pyval" where
  \<comment> \<open>\<open>info.get(key, '')\<close>\<close>
  "get_empty i k = (case map_of i k of None \<Rightarrow> VStr [] | Some v \<Rightarrow> v)"

definition joined_flags :: "info \<Rightarrow> string option" where
  \<comment> \<open>\<open>', '.join(info.get('flags', ''))\<close>; a string would be joined character by character\<close>
  "joined_flags i = (case get_empty i ''flags'' of
     VStrs fs \<Rightarrow> Some (py_join '', '' fs)
   | VStr s \<Rightarrow> Some (py_join '', '' (map (\<lambda>c. [c]) s))
   | _ \<Rightarrow> None)"

definition text_report :: "info \<Rightarrow> string list option" where
  "text_report i = map_option
     (\<lambda>fs. map (\<lambda>(label, k). label @ '': '' @ py_format (get_empty i k)) report_lines
           @ [''Flags: '' @ fs]) (joined_flags i)"

subsection \<open>What merging computes\<close>

definition flags_of :: "pyval \<Rightarrow> string list" where
  "flags_of v = (case v of VStrs fs \<Rightarrow> fs | _ \<Rightarrow> [])"

definition merged :: "string \<Rightarrow> pyval \<Rightarrow> pyval \<Rightarrow> pyval" where
  \<comment> \<open>the value of a key after a merge, from the new value and the old one\<close>
  "merged k new old =
     (if truthy new \<and> \<not> truthy old then new
      else if k = ''flags'' \<and> truthy new
      then VStrs (sort (append_new (flags_of new) (flags_of old)))
      else old)"

definition flags_typed :: "pyval \<Rightarrow> bool" where
  "flags_typed v \<longleftrightarrow> (truthy v \<longrightarrow> sorted_flags v)"

lemma set_append_new [simp]: "set (append_new new fs) = set new \<union> set fs"
  by (induction new arbitrary: fs) auto

lemma append_new_Nil_iff [simp]: "append_new new fs = [] \<longleftrightarrow> new = [] \<and> fs = []"
  by (metis Un_empty set_append_new set_empty)

lemma flags_typed_merged:
  "flags_typed new \<Longrightarrow> flags_typed old \<Longrightarrow> flags_typed (merged ''flags'' new old)"
  by (auto simp: flags_typed_def merged_def)

lemma flags_of_merged:
  assumes "flags_typed new" "flags_typed old"
  shows "set (flags_of (merged ''flags'' new old)) = set (flags_of new) \<union> set (flags_of old)"
proof -
  have "set (flags_of v) = {}" if "\<not> truthy v" for v
    using that by (cases v) (auto simp: flags_of_def)
  then show ?thesis by (auto simp: merged_def flags_of_def)
qed

lemma copy_key_merged:
  assumes "flags_typed (get_dflt n ''flags'')" "flags_typed (get_dflt i ''flags'')"
  shows "\<exists>j. copy_key n k i = Some j \<and>
    (\<forall>k'. get_dflt j k' = (if k' = k then merged k (get_dflt n k) (get_dflt i k) else get_dflt i k'))"
proof (cases "truthy (get_dflt n k) \<and> \<not> truthy (get_dflt i k)")
  case True
  then show ?thesis by (simp add: copy_key_def merged_def)
next
  case False
  show ?thesis
  proof (cases "k = ''flags'' \<and> truthy (get_dflt n ''flags'')")
    case True
    with False assms obtain ns fs where "get_dflt n ''flags'' = VStrs ns" "get_dflt i ''flags'' = VStrs fs"
      by (auto simp: flags_typed_def sorted_flags_iff)
    with True False show ?thesis by (auto simp: copy_key_def merged_def merge_flags_def flags_of_def)
  next
    case not_flags: False
    with False show ?thesis by (auto simp: copy_key_def merged_def)
  qed
qed

lemma ofold_copy_key:
  assumes "distinct ks" "flags_typed (get_dflt n ''flags'')" "flags_typed (get_dflt i ''flags'')"
  shows "\<exists>j. ofold (copy_key n) ks i = Some j \<and>
    (\<forall>k. get_dflt j k =
       (if k \<in> set ks then merged k (get_dflt n k) (get_dflt i k) else get_dflt i k))"
  using assms
proof (induction ks arbitrary: i)
  case Nil
  then show ?case by simp
next
  case (Cons k ks)
  obtain j where j: "copy_key n k i = Some j"
    "\<And>k'. get_dflt j k' = (if k' = k then merged k (get_dflt n k) (get_dflt i k) else get_dflt i k')"
    using copy_key_merged [OF Cons.prems(2,3)] by metis
  have "flags_typed (get_dflt j ''flags'')"
    using Cons.prems(2,3) flags_typed_merged by (auto simp: j(2))
  from Cons.IH [OF _ Cons.prems(2) this] Cons.prems(1)
  obtain j' where "ofold (copy_key n) ks j = Some j'"
    "\<And>k'. get_dflt j' k' =
      (if k' \<in> set ks then merged k' (get_dflt n k') (get_dflt j k') else get_dflt j k')"
    by auto
  with j Cons.prems(1) show ?case by auto
qed

lemma distinct_field_keys [simp]: "distinct field_keys" "''flags'' \<in> set field_keys"
  by (simp_all add: field_keys_def)

lemma copy_new_fields_merged:
  assumes "flags_typed (get_dflt n ''flags'')" "flags_typed (get_dflt i ''flags'')"
  obtains j where "copy_new_fields i n = Some j"
    "\<And>k. get_dflt j k =
       (if k \<in> set field_keys then merged k (get_dflt n k) (get_dflt i k) else get_dflt i k)"
    "flags_typed (get_dflt j ''flags'')"
proof -
  obtain j where "copy_new_fields i n = Some j"
    "\<And>k. get_dflt j k =
       (if k \<in> set field_keys then merged k (get_dflt n k) (get_dflt i k) else get_dflt i k)"
    using ofold_copy_key [OF distinct_field_keys(1) assms] by (auto simp: copy_new_fields_def)
  moreover from this assms have "flags_typed (get_dflt j ''flags'')"
    using flags_typed_merged by simp
  ultimately show ?thesis using that by blast
qed

lemma good_flags_typed: "good_info i \<Longrightarrow> flags_typed (get_dflt i ''flags'')"
  unfolding flags_typed_def by (auto simp: sorted_flags_iff good_info_def intro: good_get_flags)

definition first_truthy :: "pyval \<Rightarrow> pyval list \<Rightarrow> pyval" where
  "first_truthy v vs =
     (if truthy v then v else case find truthy vs of None \<Rightarrow> v | Some w \<Rightarrow> w)"

definition merge_all :: "(host \<Rightarrow> info option) list \<Rightarrow> host \<Rightarrow> info \<Rightarrow> info option" where
  "merge_all srcs h i =
     ofold (\<lambda>source i. do { new_info \<leftarrow> source h; copy_new_fields i new_info }) srcs i"

definition answer :: "(host \<Rightarrow> info option) \<Rightarrow> host \<Rightarrow> string \<Rightarrow> pyval" where
  "answer source h k = (case source h of None \<Rightarrow> VNone | Some i \<Rightarrow> get_dflt i k)"

lemma first_truthy_merged:
  "k \<noteq> ''flags'' \<Longrightarrow> first_truthy (merged k new old) vs = first_truthy old (new # vs)"
  by (simp add: first_truthy_def merged_def)

text \<open>A sequence of sources that keep their promise is merged without an exception of its own.\<close>

locale source_list =
  fixes srcs :: "(host \<Rightarrow> info option) list"
  assumes all_good: "s \<in> set srcs \<Longrightarrow> info_source s"
begin

lemma merge_from:
  assumes "set ss \<subseteq> set srcs" "flags_typed (get_dflt i ''flags'')"
  shows "(merge_all ss h i = None \<longleftrightarrow> (\<exists>s \<in> set ss. s h = None)) \<and>
    (\<forall>j. merge_all ss h i = Some j \<longrightarrow>
      flags_typed (get_dflt j ''flags'') \<and>
      set (flags_of (get_dflt j ''flags'')) =
        set (flags_of (get_dflt i ''flags'')) \<union> (\<Union>s \<in> set ss. set (flags_of (answer s h ''flags''))) \<and>
      (\<forall>k. k \<noteq> ''flags'' \<longrightarrow> get_dflt j k =
        (if k \<in> set field_keys then first_truthy (get_dflt i k) (map (\<lambda>s. answer s h k) ss)
         else get_dflt i k)))"
  using assms
proof (induction ss arbitrary: i)
  case Nil
  then show ?case by (simp add: merge_all_def first_truthy_def)
next
  case (Cons s ss)
  show ?case
  proof (cases "s h")
    case None
    then show ?thesis by (simp add: merge_all_def)
  next
    case (Some n)
    have n: "flags_typed (get_dflt n ''flags'')"
      using all_good [of s] Cons.prems(1) Some
      by (auto intro: good_flags_typed info_source.good)
    obtain j where j: "copy_new_fields i n = Some j"
      "\<And>k. get_dflt j k =
         (if k \<in> set field_keys then merged k (get_dflt n k) (get_dflt i k) else get_dflt i k)"
      "flags_typed (get_dflt j ''flags'')"
      using copy_new_fields_merged [OF n Cons.prems(2)] by blast
    have step: "merge_all (s # ss) h i = merge_all ss h j"
      by (simp add: merge_all_def Some j(1))
    have flags: "set (flags_of (get_dflt j ''flags'')) =
        set (flags_of (answer s h ''flags'')) \<union> set (flags_of (get_dflt i ''flags''))"
      using flags_of_merged [OF n Cons.prems(2)] by (simp add: j(2) answer_def Some)
    have other: "first_truthy (get_dflt j k) vs = first_truthy (get_dflt i k) (answer s h k # vs)"
      if "k \<noteq> ''flags''" "k \<in> set field_keys" for k vs
      using that by (simp add: j(2) first_truthy_merged answer_def Some)
    have same: "get_dflt j k = get_dflt i k" if "k \<notin> set field_keys" for k
      using that by (simp add: j(2))
    have "set ss \<subseteq> set srcs" using Cons.prems(1) by simp
    note IH = Cons.IH [OF this j(3)]
    show ?thesis
      unfolding step using IH by (auto simp: Some flags other same)
  qed
qed

lemmas merge_all_from = merge_from [OF subset_refl]

lemma merge_raises:
  "flags_typed (get_dflt i ''flags'') \<Longrightarrow>
   merge_all srcs h i = None \<longleftrightarrow> (\<exists>s \<in> set srcs. s h = None)"
  by (drule merge_all_from) (erule conjunct1)

lemma merge_first:
  assumes "merge_all srcs h i = Some j" "flags_typed (get_dflt i ''flags'')" "k \<noteq> ''flags''"
  shows "get_dflt j k =
    (if k \<in> set field_keys then first_truthy (get_dflt i k) (map (\<lambda>s. answer s h k) srcs)
     else get_dflt i k)"
  using merge_all_from [OF assms(2)] assms(1,3) by blast

lemma merge_flags_union:
  assumes "merge_all srcs h i = Some j" "flags_typed (get_dflt i ''flags'')"
  shows "flags_typed (get_dflt j ''flags'') \<and>
    set (flags_of (get_dflt j ''flags'')) =
      set (flags_of (get_dflt i ''flags'')) \<union> (\<Union>s \<in> set srcs. set (flags_of (answer s h ''flags'')))"
  using merge_all_from [OF assms(2)] assms(1) by blast

end

lemma sources_good: "\<forall>s \<in> set sources. info_source s"
  unfolding sources_def
  by (simp add: wmic_src.info_source_axioms registry_src.info_source_axioms
      proc_cpuinfo_src.info_source_axioms cpufreq_src.info_source_axioms
      lscpu_src.info_source_axioms sysctl_src.info_source_axioms kstat_src.info_source_axioms
      dmesg_src.info_source_axioms dmesg_boot_src.info_source_axioms ibm_src.info_source_axioms
      sysinfo_src.info_source_axioms cpuid_src.info_source_axioms uname_src.info_source_axioms)

interpretation cpu: source_list sources
  by (rule source_list.intro) (use sources_good in blast)

lemma internal_merge: "get_cpu_info_internal h = merge_all sources h (base_info h)"
  by (simp add: get_cpu_info_internal_def merge_all_def)

lemma base_flags [simp]: "get_dflt (base_info h) ''flags'' = VNone"
  by (simp add: base_info_def get_dflt_def case_prod_beta)

lemma base_typed [simp]: "flags_typed (get_dflt (base_info h) ''flags'')"
  by (simp add: flags_typed_def)

subsection \<open>Properties of the query\<close>

definition example_info :: info where
  "example_info =
     [(''python_version'', VStr ''3.11.2.final.0 (64 bit)''),
      (''cpuinfo_version'', VTuple [8, 0, 0]), (''cpuinfo_version_string'', VStr ''8.0.0''),
      (''arch'', VStr ''X86_64''), (''bits'', VInt 64), (''count'', VInt 4),
      (''arch_string_raw'', VStr ''x86_64''),
      (''flags'', VStrs [''fpu'', ''le'', ''slb'', ''sso_2.06'']),
      (''stepping'', VInt 10), (''model'', VInt 158), (''family'', VInt 6)]"

lemma example_query: "get_cpu_info_internal example_host = Some example_info"
  by code_simp

text \<open>
  C39: the first source wins. Every key other than the flags that the query reports has the
  value of the first of: the values known without a source, then the thirteen sources in
  their fixed order, that is not empty; the keys that are not fields keep their initial value.
\<close>

theorem internal_first_source_wins:
  assumes "get_cpu_info_internal h = Some i" "k \<noteq> ''flags''"
  shows "get_dflt i k =
    (if k \<in> set field_keys
     then first_truthy (get_dflt (base_info h) k) (map (\<lambda>s. answer s h k) sources)
     else get_dflt (base_info h) k)"
  using cpu.merge_first [OF assms(1) [unfolded internal_merge] base_typed assms(2)] .

theorem internal_first_source_wins_witness:
  "first_truthy (get_dflt (base_info example_host) ''family'')
     (map (\<lambda>s. answer s example_host ''family'') sources) = VInt 6"
  using internal_first_source_wins [OF example_query, of "''family''"]
  by (simp add: example_info_def get_dflt_def field_keys_def)

text \<open>
  The flags of the query are a sorted list that holds exactly the flags some source
  reported; none is lost and none is invented.
\<close>

theorem internal_flags_union:
  assumes "get_cpu_info_internal h = Some i"
  shows "sorted (flags_of (get_dflt i ''flags'')) \<and>
    set (flags_of (get_dflt i ''flags'')) = (\<Union>s \<in> set sources. set (flags_of (answer s h ''flags'')))"
proof -
  note * = cpu.merge_flags_union [OF assms [unfolded internal_merge] base_typed]
  have "flags_of VNone = []" by (simp add: flags_of_def)
  with * show ?thesis
    by (cases "get_dflt i ''flags''") (auto simp: flags_typed_def flags_of_def)
qed

theorem internal_flags_union_witness:
  "(\<Union>s \<in> set sources. set (flags_of (answer s example_host ''flags''))) =
     {''fpu'', ''le'', ''slb'', ''sso_2.06''}"
  using internal_flags_union [OF example_query]
  by (simp add: example_info_def get_dflt_def flags_of_def)

text \<open>
  The query raises exactly when reading one of the two kernel logs raises: every other
  source turns its exceptions into an empty dictionary, and merging never raises.
\<close>

theorem internal_raises_iff:
  "get_cpu_info_internal h = None \<longleftrightarrow>
   get_cpu_info_from_dmesg h = None \<or> get_cpu_info_from_cat_var_run_dmesg_boot h = None"
  unfolding internal_merge cpu.merge_raises [OF base_typed] by (auto simp: sources_def)

text \<open>
  Every source but the two kernel logs answers with a filtered dictionary: distinct
  keys, sorted flags, no empty value, no \<open>(0, 0)\<close> and no string that starts with \<open>0.0\<close>,
  whatever the programs print and whether they run at all.
\<close>

theorem sources_answer_clean:
  "list_all (\<lambda>i. good_info i \<and> filter_dict_keys_with_empty_values i = i)
     [get_cpu_info_from_wmic h, get_cpu_info_from_registry h, get_cpu_info_from_proc_cpuinfo h,
      get_cpu_info_from_cpufreq_info h, get_cpu_info_from_lscpu h, get_cpu_info_from_sysctl h,
      get_cpu_info_from_kstat h, get_cpu_info_from_ibm_pa_features h, get_cpu_info_from_sysinfo h,
      get_cpu_info_from_cpuid h, get_cpu_info_from_platform_uname h]"
  using wmic_src.good registry_src.good proc_cpuinfo_src.good cpufreq_src.good lscpu_src.good
    sysctl_src.good kstat_src.good ibm_src.good sysinfo_src.good cpuid_src.good uname_src.good
    wmic_src.filtered registry_src.filtered proc_cpuinfo_src.filtered cpufreq_src.filtered
    lscpu_src.filtered sysctl_src.filtered kstat_src.filtered ibm_src.filtered
    sysinfo_src.filtered cpuid_src.filtered uname_src.filtered
  by simp

end
