(* ===== verification/CpuJson.thy ===== *)
theory CpuJson
  imports Json CpuText
begin

text \<open>
  \<open>json.dumps\<close> and \<open>json.loads\<close> with their default separators, on the dictionaries \<open>cpuinfo.py\<close>
  passes through them: text keys, and as values \<open>null\<close>, texts, integers and arrays of these. The
  decoder reads what the encoder writes, with white space where JSON allows it; its fuel is the
  length of the text.
\<close>

datatype json = JNull | JText string | JNumber int | JArray "json list"

fun to_json :: "pyval \<Rightarrow> json" where
  \<comment> \<open>a tuple is written like a list\<close>
  "to_json VNone = JNull"
| "to_json (VStr s) = JText s"
| "to_json (VInt n) = JNumber n"
| "to_json (VTuple ns) = JArray (map JNumber ns)"
| "to_json (VStrs ss) = JArray (map JText ss)"

subsection \<open>Writing\<close>

fun json_text :: "json \<Rightarrow> string" where
  "json_text JNull = ''null''"
| "json_text (JText s) = json_string s"
| "json_text (JNumber n) = show_int n"
| "json_text (JArray xs) = ''['' @ py_join '', '' (map json_text xs) @ '']''"

definition member_text :: "string \<times> json \<Rightarrow> string" where
  "member_text kv = json_string (fst kv) @ '': '' @ json_text (snd kv)"

definition dumps :: "(string \<times> json) list \<Rightarrow> string" where
  "dumps kvs = ''{'' @ py_join '', '' (map member_text kvs) @ ''}''"

subsection \<open>Reading\<close>

definition skip_space :: "string \<Rightarrow> string" where
  "skip_space s = dropWhile (\<lambda>c. code c \<in> {9, 10, 13, 32}) s"

fun read_value :: "nat \<Rightarrow> string \<Rightarrow> (json \<times> string) option"
  and read_items :: "nat \<Rightarrow> string \<Rightarrow> (json list \<times> string) option" where
  "read_value 0 s = None"
| "read_value (Suc f) s = (case s of
     [] \<Rightarrow> None
   | c # cs \<Rightarrow>
       (if c = quote then map_option (\<lambda>(x, t). (JText x, t)) (dec_chars cs)
        else if c = CHR ''['' then
          (case skip_space cs of
             [] \<Rightarrow> None
           | d # ds \<Rightarrow> (if d = CHR '']'' then Some (JArray [], ds)
                       else map_option (\<lambda>(xs, t). (JArray xs, t)) (read_items f (d # ds))))
        else if startswith s ''null'' then Some (JNull, drop 4 s)
        else map_option (\<lambda>(n, t). (JNumber n, t)) (dec_int s)))"
| "read_items 0 s = None"
| "read_items (Suc f) s = (case read_value f s of
     None \<Rightarrow> None
   | Some (x, t) \<Rightarrow>
       (case skip_space t of
          [] \<Rightarrow> None
        | d # ds \<Rightarrow> (if d = CHR '']'' then Some ([x], ds)
                    else if d = CHR '','' then map_option (\<lambda>(xs, u). (x # xs, u)) (read_items f (skip_space ds))
                    else None)))"

fun read_members :: "nat \<Rightarrow> string \<Rightarrow> ((string \<times> json) list \<times> string) option" where
  "read_members 0 s = None"
| "read_members (Suc f) s =
     (if s = [] \<or> hd s \<noteq> quote then None
      else case dec_chars (tl s) of
        None \<Rightarrow> None
      | Some (k, t) \<Rightarrow>
          (case skip_space t of
             [] \<Rightarrow> None
           | e # es \<Rightarrow>
               (if e \<noteq> CHR '':'' then None
                else case read_value (length es) (skip_space es) of
                  None \<Rightarrow> None
                | Some (v, u) \<Rightarrow>
                    (case skip_space u of
                       [] \<Rightarrow> None
                     | d # ds \<Rightarrow>
                         (if d = CHR ''}'' then Some ([(k, v)], ds)
                          else if d = CHR '','' then
                            map_option (\<lambda>(kvs, w). ((k, v) # kvs, w)) (read_members f (skip_space ds))
                          else None)))))"

definition loads :: "string \<Rightarrow> (string \<times> json) list option" where
  \<comment> \<open>a later member replaces an earlier one of the same name\<close>
  "loads s = (case skip_space s of
     [] \<Rightarrow> None
   | c # cs \<Rightarrow>
       (if c \<noteq> CHR ''{'' then None
        else case (case skip_space cs of
               [] \<Rightarrow> None
             | d # ds \<Rightarrow> (if d = CHR ''}'' then Some ([], ds) else read_members (length s) (d # ds))) of
          None \<Rightarrow> None
        | Some (kvs, rest) \<Rightarrow> (if skip_space rest = [] then Some (dict_of_pairs kvs) else None)))"

subsection \<open>What is written is read\<close>

definition ends_value :: "string \<Rightarrow> bool" where
  "ends_value t \<longleftrightarrow> t = [] \<or> (hd t \<noteq> CHR ''-'' \<and> \<not> is_decimal (hd t))"

definition opens :: "char \<Rightarrow> bool" where
  \<comment> \<open>a character that a value begins with\<close>
  "opens c \<longleftrightarrow> code c = 34 \<or> c = CHR ''['' \<or> c = CHR ''n'' \<or> c = CHR ''-'' \<or> is_decimal c"

lemma show_int_Cons: "\<exists>c cs. show_int n = c # cs \<and> (c = CHR ''-'' \<or> is_decimal c)"
proof -
  have "show_int n \<noteq> []" by (simp add: show_int_def)
  then obtain c cs where "show_int n = c # cs" by (cases "show_int n") auto
  then show ?thesis using show_int_chars [of c n] by auto
qed

lemma json_text_opens: "\<exists>c cs. json_text v = c # cs \<and> opens c"
proof (cases v)
  case (JText s)
  then show ?thesis by (intro exI [of _ quote]) (simp add: opens_def json_string_def)
next
  case (JNumber n)
  obtain c cs where "show_int n = c # cs" "c = CHR ''-'' \<or> is_decimal c" using show_int_Cons by blast
  with JNumber show ?thesis by (auto simp: opens_def)
qed (auto simp: opens_def)

lemma opens_simps:
  assumes "opens c"
  shows "code c \<notin> {9, 10, 13, 32}" "c \<noteq> CHR '']''"
  using assms by (auto simp: opens_def is_decimal_def code_def dest: arg_cong [where f = "of_char :: char \<Rightarrow> int"])

lemma skip_space_simps [simp]:
  "skip_space [] = []" "skip_space (CHR '' '' # s) = skip_space s"
  "skip_space (CHR '','' # s) = CHR '','' # s" "skip_space (CHR '']'' # s) = CHR '']'' # s"
  "skip_space (CHR ''}'' # s) = CHR ''}'' # s" "skip_space (CHR '':'' # s) = CHR '':'' # s"
  "skip_space (CHR ''{'' # s) = CHR ''{'' # s" "skip_space (quote # s) = quote # s"
  "skip_space [CHR 0x0A] = []"
  by (simp_all add: skip_space_def) (simp_all add: code_def)

lemma skip_space_value [simp]: "skip_space (json_text v @ t) = json_text v @ t"
proof -
  obtain c cs where "json_text v = c # cs" "opens c" using json_text_opens by blast
  then show ?thesis using opens_simps(1) by (simp add: skip_space_def)
qed

lemma read_number:
  assumes "ends_value t"
  shows "read_value (Suc f) (show_int n @ t) = Some (JNumber n, t)"
proof -
  obtain c cs where c: "show_int n = c # cs" "c = CHR ''-'' \<or> is_decimal c" using show_int_Cons by blast
  then have "code c \<noteq> 34" "c \<noteq> CHR ''[''" "c \<noteq> CHR ''n''" by (auto simp: is_decimal_def code_def)
  moreover have "dec_int (show_int n @ t) = Some (n, t)"
    using assms by (intro dec_int_show_int) (simp add: ends_value_def)
  ultimately show ?thesis using c(1) by simp
qed

lemma read_items_text:
  assumes "\<And>x f t. x \<in> set xs \<Longrightarrow> length (json_text x) \<le> f \<Longrightarrow> ends_value t \<Longrightarrow>
      read_value f (json_text x @ t) = Some (x, t)"
    and "xs \<noteq> []" "length (py_join '', '' (map json_text xs)) < f"
  shows "read_items f (py_join '', '' (map json_text xs) @ CHR '']'' # t) = Some (xs, t)"
  using assms
proof (induction xs arbitrary: f)
  case Nil
  then show ?case by simp
next
  case (Cons x xs)
  obtain g where f: "f = Suc g" using Cons.prems(3) by (cases f) auto
  show ?case
  proof (cases xs)
    case Nil
    then have "read_value g (json_text x @ CHR '']'' # t) = Some (x, CHR '']'' # t)"
      using Cons.prems f by (intro Cons.prems(1)) (simp_all add: ends_value_def is_decimal_def)
    then show ?thesis by (simp add: f Nil)
  next
    case (Cons y ys)
    let ?r = "py_join '', '' (map json_text xs)"
    have r: "read_value g (json_text x @ CHR '','' # CHR '' '' # ?r @ CHR '']'' # t) =
        Some (x, CHR '','' # CHR '' '' # ?r @ CHR '']'' # t)"
      using Cons.prems(1,3) f Cons by (intro Cons.prems(1)) (simp_all add: ends_value_def is_decimal_def)
    have s: "skip_space (?r @ CHR '']'' # t) = ?r @ CHR '']'' # t"
      unfolding Cons by (cases ys) simp_all
    have "read_items g (?r @ CHR '']'' # t) = Some (xs, t)"
      using Cons.prems f Cons by (intro Cons.IH) simp_all
    then show ?thesis using r s by (simp add: f Cons)
  qed
qed

lemma read_value_text:
  "length (json_text v) \<le> f \<Longrightarrow> ends_value t \<Longrightarrow> read_value f (json_text v @ t) = Some (v, t)"
proof (induction v arbitrary: f t)
  case JNull
  then obtain g where "f = Suc g" by (cases f) auto
  then show ?case by (simp add: code_def)
next
  case (JText s)
  then obtain g where "f = Suc g" by (cases f) (auto simp: json_string_def)
  then show ?case by (simp add: json_string_def)
next
  case (JNumber n)
  then obtain g where "f = Suc g" using show_int_Cons [of n] by (cases f) auto
  then show ?case using read_number JNumber.prems(2) by simp
next
  case (JArray xs)
  then obtain g where f: "f = Suc g" by (cases f) auto
  show ?case
  proof (cases xs)
    case Nil
    then show ?thesis by (simp add: f code_def)
  next
    case (Cons y ys)
    let ?r = "py_join '', '' (map json_text xs)"
    have "read_items g (?r @ CHR '']'' # t) = Some (xs, t)"
      using JArray Cons f by (intro read_items_text) simp_all
    moreover obtain d ds where d: "?r @ CHR '']'' # t = d # ds" "opens d"
      using json_text_opens [of y] by (cases ys) (auto simp: Cons)
    then have "skip_space (?r @ CHR '']'' # t) = d # ds" "d \<noteq> CHR '']''"
      using opens_simps [OF d(2)] by (simp_all add: skip_space_def)
    ultimately show ?thesis using d(1) by (simp add: f code_def)
  qed
qed

lemma read_members_text:
  assumes "kvs \<noteq> []" "length kvs \<le> f"
  shows "read_members f (py_join '', '' (map member_text kvs) @ CHR ''}'' # t) = Some (kvs, t)"
  using assms
proof (induction kvs arbitrary: f)
  case Nil
  then show ?case by simp
next
  case (Cons kv kvs)
  obtain k v where kv: "kv = (k, v)" by (cases kv)
  obtain g where f: "f = Suc g" using Cons.prems(2) by (cases f) auto
  note simps = member_text_def [of "(k, v)"] json_string_def ends_value_def is_decimal_def read_value_text
  show ?case
  proof (cases kvs)
    case Nil
    then show ?thesis by (simp add: f kv simps del: read_value.simps)
  next
    case (Cons kw kws)
    let ?r = "py_join '', '' (map member_text kvs)"
    have "read_members g (?r @ CHR ''}'' # t) = Some (kvs, t)"
      using Cons.prems f Cons by (intro Cons.IH) simp_all
    moreover have "skip_space (?r @ CHR ''}'' # t) = ?r @ CHR ''}'' # t"
      unfolding Cons by (cases kws) (simp_all add: member_text_def json_string_def)
    moreover have j: "py_join '', '' (map member_text (kv # kvs)) = member_text kv @ CHR '','' # CHR '' '' # ?r"
      by (simp add: Cons)
    ultimately show ?thesis unfolding j by (simp add: f kv simps del: read_value.simps)
  qed
qed

lemma length_members: "length kvs \<le> Suc (length (py_join '', '' (map member_text kvs)))"
proof (induction kvs)
  case (Cons kv kvs)
  then show ?case by (cases kvs) (auto simp: member_text_def)
qed simp

lemma update_new: "k \<notin> fst ` set d \<Longrightarrow> AList.update k v d = d @ [(k, v)]"
  by (induction d) auto

lemma dict_of_pairs_distinct: "distinct (map fst kvs) \<Longrightarrow> dict_of_pairs kvs = kvs"
proof (induction kvs rule: rev_induct)
  case (snoc kv kvs)
  then show ?case by (cases kv) (simp add: dict_of_pairs_def update_new)
qed (simp add: dict_of_pairs_def)

lemma loads_dumps:
  assumes "skip_space rest = []" "distinct (map fst kvs)"
  shows "loads (dumps kvs @ rest) = Some kvs"
proof (cases kvs)
  case Nil
  with assms(1) show ?thesis by (simp add: loads_def dumps_def dict_of_pairs_def)
next
  case (Cons kv kws)
  let ?r = "py_join '', '' (map member_text kvs)"
  have "read_members (length (dumps kvs @ rest)) (?r @ CHR ''}'' # rest) = Some (kvs, rest)"
    using length_members [of kvs] Cons by (intro read_members_text) (simp_all add: dumps_def)
  moreover obtain cs where "?r @ CHR ''}'' # rest = quote # cs"
    unfolding Cons by (cases kws) (simp_all add: member_text_def json_string_def)
  moreover have "quote \<noteq> CHR ''}''" by (simp add: code_def)
  moreover have "dict_of_pairs kvs = kvs" using assms(2) by (rule dict_of_pairs_distinct)
  ultimately show ?thesis using assms(1) by (simp add: loads_def dumps_def)
qed

end
