(* ===== verification/CpuOutput.thy ===== *)
theory CpuOutput
  imports CpuInfo CpuJson
begin








subsection \<open>What the callers get\<close>








end
