(* ===== verification/Timeline.thy ===== *)
theory Timeline
  imports PyFloat "HOL-Library.Product_Lexorder"
begin

text \<open>
  The scheduling timelines of \<open>benchmark/thread_switch_ebpf\<close>: the lines \<open>monitor_task.py\<close>
  prints, the parsers of \<open>plot.py\<close> and \<open>plot_compare.py\<close>, and the segments the two scripts
  draw. Milliseconds are binary64 numbers: every quotient and difference is rounded by
  \<^const>\<open>rnd64\<close>. The nanosecond timestamps are 64-bit, far from the overflow of a float. The
  calls of the plotting library are output; what is drawn is the list of rectangles and ticks.
\<close>

subsection \<open>Log lines\<close>

record log =
  l_ts :: int
  l_tid :: int
  l_event :: string
  l_comm :: string

definition apostrophe :: string where
  "apostrophe = [char_of (39 :: int)]"

definition event_line :: "int \<Rightarrow> int \<Rightarrow> int \<Rightarrow> char \<Rightarrow> string \<Rightarrow> string" where
  \<comment> \<open>\<open>print_event\<close>: the event type is printed as a bytes literal\<close>
  "event_line ts pid tid ty comm =
     ''['' @ show_int ts @ ''] PID:'' @ show_int pid @ '' TID:'' @ show_int tid @ '' EVENT:b'' @
     apostrophe @ [ty] @ apostrophe @ '' COMM:'' @ comm"

definition external_line :: "int \<Rightarrow> string \<Rightarrow> string" where
  "external_line ts data = ''['' @ show_int ts @ ''] EXTERNAL_EVENT: '' @ py_strip data"

definition part :: "string \<Rightarrow> string \<Rightarrow> nat \<Rightarrow> string option" where
  "part s sep i = nth_opt (split_str s sep) i"

text \<open>
  The result of a parser is \<open>None\<close> for an exception, \<open>Some None\<close> for a line that is skipped.
\<close>

definition parse_parts :: "int \<Rightarrow> string list \<Rightarrow> log option option" where
  \<comment> \<open>from the second word on the two parsers agree\<close>
  "parse_parts ts parts =
     (if parts ! 1 = ''EXTERNAL_EVENT:'' then
        (if str_in ''tick'' (py_lower (py_join '' '' (drop 2 parts)))
         then Some (Some \<lparr>l_ts = ts, l_tid = 0, l_event = ''TICK'', l_comm = []\<rparr>) else Some None)
      else if length parts < 5 then Some None
      else do {
        t \<leftarrow> part (parts ! 2) '':'' 1;
        tid \<leftarrow> py_int t;
        event \<leftarrow> part (parts ! 3) apostrophe 1;
        comm \<leftarrow> part (parts ! 4) '':'' 1;
        Some (Some \<lparr>l_ts = ts, l_tid = tid, l_event = event, l_comm = comm\<rparr>)
      })"

definition plot_parse_log_line :: "string \<Rightarrow> log option option" where
  "plot_parse_log_line line =
     (let parts = split_ws (py_strip line)
      in if length parts < 2 then Some None
         else do {
           ts \<leftarrow> py_int (strip_chars (parts ! 0) ''[]'');
           parse_parts ts parts
         })"

definition compare_parse_log_line :: "string \<Rightarrow> log option option" where
  "compare_parse_log_line line =
     (let parts = split_ws (py_strip line)
      in if length parts < 2 then Some None
         else if \<not> startswith (parts ! 0) ''['' \<or> \<not> str_in '']'' (parts ! 0) then Some None
         else case py_int (strip_chars (parts ! 0) ''[]'') of
                None \<Rightarrow> Some None
              | Some ts \<Rightarrow> parse_parts ts parts)"

definition load_logs :: "string list \<Rightarrow> log list option" where
  "load_logs lines = map_option (\<lambda>ls. concat (map (\<lambda>x. case x of None \<Rightarrow> [] | Some l \<Rightarrow> [l]) ls))
     (those (map compare_parse_log_line lines))"

definition plot_logs :: "string list \<Rightarrow> log list option" where
  \<comment> \<open>the main program of \<open>plot.py\<close> reads the lines \<open>[10:32]\<close>\<close>
  "plot_logs lines = map_option (\<lambda>ls. concat (map (\<lambda>x. case x of None \<Rightarrow> [] | Some l \<Rightarrow> [l]) ls))
     (those (map plot_parse_log_line (take 22 (drop 10 lines))))"

subsection \<open>Segments\<close>

type_synonym segment = "rat \<times> rat \<times> string"

record timeline =
  segments :: "segment list"
  ticks :: "rat list"
  last_end_ms :: rat
  active :: "(rat \<times> string) option"

definition empty_timeline :: timeline where
  "empty_timeline = \<lparr>segments = [], ticks = [], last_end_ms = 0, active = None\<rparr>"

definition log_order :: "log list \<Rightarrow> log list" where
  \<comment> \<open>\<open>sorted(logs, key=...)\<close>: by time, and at one time the starts come last; stable\<close>
  "log_order logs = sort_key (\<lambda>l. (l_ts l, if l_event l = ''S'' then 1 else 0 :: int)) logs"

definition to_ms :: "int \<Rightarrow> int \<Rightarrow> rat" where
  \<comment> \<open>\<open>(ts - start_ts) / 1e6\<close>\<close>
  "to_ms start_ts ts = rnd64 (rnd64 (of_int (ts - start_ts)) / 1000000)"

definition draw_step :: "int \<Rightarrow> log \<Rightarrow> timeline \<Rightarrow> timeline" where
  "draw_step start_ts l t =
     (let ms = to_ms start_ts (l_ts l)
      in if l_event l = ''S'' then
           (let t' = (if last_end_ms t < ms
                      then t\<lparr>segments := segments t @ [(last_end_ms t, rnd64 (ms - last_end_ms t), ''other'')]\<rparr>
                      else t)
            in t'\<lparr>active := Some (ms, l_comm l)\<rparr>)
         else case active t of
           Some (s, comm) \<Rightarrow>
             if l_event l = ''E'' \<and> comm = l_comm l
             then t\<lparr>segments := segments t @ [(s, rnd64 (ms - s), l_comm l)], last_end_ms := ms,
                    active := None\<rparr>
             else if l_event l = ''TICK'' then t\<lparr>ticks := ticks t @ [ms]\<rparr> else t
         | None \<Rightarrow> if l_event l = ''TICK'' then t\<lparr>ticks := ticks t @ [ms]\<rparr> else t)"

definition draw_timeline :: "log list \<Rightarrow> timeline option" where
  \<comment> \<open>\<open>logs[0]\<close> raises on an empty list\<close>
  "draw_timeline logs = (case logs of
     [] \<Rightarrow> None
   | l # _ \<Rightarrow> Some (fold (draw_step (l_ts l)) (log_order logs) empty_timeline))"

definition START_MS :: rat where "START_MS = 110"
definition MAX_MS :: rat where "MAX_MS = 200"

definition on_start :: "rat \<Rightarrow> rat \<Rightarrow> string \<Rightarrow> timeline \<Rightarrow> timeline" where
  \<comment> \<open>a task that starts before the window starts at its left edge\<close>
  "on_start ms_raw ms comm t =
     (if START_MS \<le> ms_raw then
        (let dur = min (rnd64 (ms - last_end_ms t)) (rnd64 (MAX_MS - last_end_ms t));
             t' = (if last_end_ms t < ms \<and> 0 < dur
                   then t\<lparr>segments := segments t @ [(last_end_ms t, dur, ''other'')]\<rparr> else t)
         in t'\<lparr>active := Some (ms, comm)\<rparr>)
      else t\<lparr>active := Some (0, comm)\<rparr>)"

definition on_end :: "rat \<Rightarrow> rat \<Rightarrow> rat \<Rightarrow> string \<Rightarrow> timeline \<Rightarrow> timeline" where
  \<comment> \<open>the end of the active task, which started at \<open>s\<close>\<close>
  "on_end ms_raw ms s comm t =
     (if START_MS \<le> ms_raw then
        (let seg_start = max s 0;
             dur = min (rnd64 (ms - seg_start)) (rnd64 (MAX_MS - seg_start));
             t' = (if 0 < dur then t\<lparr>segments := segments t @ [(seg_start, dur, comm)]\<rparr> else t)
         in t'\<lparr>last_end_ms := ms, active := None\<rparr>)
      else t\<lparr>active := None\<rparr>)"

definition on_tick :: "bool \<Rightarrow> rat \<Rightarrow> string \<Rightarrow> timeline \<Rightarrow> timeline" where
  "on_tick in_window ms event t =
     (if event = ''TICK'' \<and> in_window then t\<lparr>ticks := ticks t @ [ms]\<rparr> else t)"

definition build_step :: "rat \<Rightarrow> log \<Rightarrow> timeline \<Rightarrow> timeline" where
  \<comment> \<open>the body of the loop after the \<open>break\<close>\<close>
  "build_step ms_raw l t =
     (let in_window = (START_MS \<le> ms_raw \<and> ms_raw \<le> START_MS + MAX_MS);
          ms = (if in_window then rnd64 (ms_raw - START_MS) else 0)
      in if l_event l = ''S'' then on_start ms_raw ms (l_comm l) t
         else case active t of
           None \<Rightarrow> on_tick in_window ms (l_event l) t
         | Some (s, comm) \<Rightarrow>
             if l_event l = ''E'' \<and> comm = l_comm l then on_end ms_raw ms s comm t
             else on_tick in_window ms (l_event l) t)"

fun build_loop :: "int \<Rightarrow> log list \<Rightarrow> timeline \<Rightarrow> timeline" where
  "build_loop start_ts [] t = t"
| "build_loop start_ts (l # ls) t =
     (if START_MS + MAX_MS < to_ms start_ts (l_ts l) then t
      else build_loop start_ts ls (build_step (to_ms start_ts (l_ts l)) l t))"

definition build_segments :: "log list \<Rightarrow> segment list \<times> rat list" where
  "build_segments logs = (case logs of
     [] \<Rightarrow> ([], [])
   | l # _ \<Rightarrow> (let t = build_loop (l_ts l) (log_order logs) empty_timeline in (segments t, ticks t)))"

subsection \<open>The merged drawing\<close>

datatype style = Dashed | HatchA | HatchB

definition style_of :: "string \<Rightarrow> style" where
  "style_of task_type =
     (if task_type = ''other'' then Dashed
      else if str_in ''cycle1'' task_type \<or> task_type = ''taskA'' then HatchA else HatchB)"

definition draw_row :: "segment list \<Rightarrow> rat \<Rightarrow> (rat \<times> rat \<times> style) list" where
  "draw_row segs x_right = concat (map (\<lambda>(start, dur, task_type).
     if x_right \<le> start then []
     else (let dur = min dur (rnd64 (x_right - start))
           in if dur \<le> 0 then [] else [(start, dur, style_of task_type)])) segs)"

definition data_max :: "segment list \<Rightarrow> rat" where
  "data_max segs = (case segs of
     [] \<Rightarrow> 0
   | (s, d, _) # ss \<Rightarrow> fold (\<lambda>(s, d, _) m. max m (rnd64 (s + d))) ss (rnd64 (s + d)))"

definition ticks_shown :: "rat list \<Rightarrow> rat \<Rightarrow> rat list" where
  "ticks_shown ts x_right = filter (\<lambda>x. x < x_right) (sort ts)"

definition intervals :: "rat list \<Rightarrow> rat list" where
  \<comment> \<open>the lengths \<open>dt\<close> written under consecutive ticks\<close>
  "intervals ts = map (\<lambda>i. rnd64 (ts ! (i + 1) - ts ! i)) [0..<length ts - 1]"

record drawing =
  row_rt :: "(rat \<times> rat \<times> style) list"
  row_pmu :: "(rat \<times> rat \<times> style) list"
  ticks_rt_show :: "rat list"
  ticks_pmu_show :: "rat list"
  x_limit :: rat

definition right_edge :: "segment list \<Rightarrow> segment list \<Rightarrow> rat" where
  \<comment> \<open>the shorter of the two timelines, at least 1 and at most the window\<close>
  "right_edge segs_rt segs_pmu =
     min MAX_MS (max (min (data_max segs_rt) (data_max segs_pmu)) 1)"

definition draw_timeline_merged :: "log list \<Rightarrow> log list \<Rightarrow> drawing" where
  "draw_timeline_merged logs_rt logs_pmu =
     (let (segs_rt, ticks_rt) = build_segments logs_rt;
          (segs_pmu, ticks_pmu) = build_segments logs_pmu;
          x_right = right_edge segs_rt segs_pmu
      in \<lparr>row_rt = draw_row segs_rt x_right, row_pmu = draw_row segs_pmu x_right,
          ticks_rt_show = ticks_shown ticks_rt x_right,
          ticks_pmu_show = ticks_shown ticks_pmu x_right, x_limit = x_right\<rparr>)"

subsection \<open>The window\<close>

lemma rnd_const [simp]: "rnd64 110 = 110" "rnd64 200 = 200"
  using rnd64_of_int [of 110] rnd64_of_int [of 200] by simp_all

lemma window_ms:
  "START_MS \<le> x \<Longrightarrow> x \<le> START_MS + MAX_MS \<Longrightarrow> 0 \<le> rnd64 (x - START_MS) \<and> rnd64 (x - START_MS) \<le> MAX_MS"
  using r64.diff_nonneg [of START_MS x] r64.mono [of "x - START_MS" 200]
  by (simp add: START_MS_def MAX_MS_def)

definition in_window :: "timeline \<Rightarrow> bool" where
  "in_window t \<longleftrightarrow>
     list_all (\<lambda>(s, d, _). 0 \<le> s \<and> s \<le> MAX_MS \<and> 0 < d \<and> d \<le> rnd64 (MAX_MS - s)) (segments t) \<and>
     list_all (\<lambda>x. 0 \<le> x \<and> x \<le> MAX_MS) (ticks t) \<and>
     0 \<le> last_end_ms t \<and> last_end_ms t \<le> MAX_MS \<and>
     (case active t of None \<Rightarrow> True | Some (s, _) \<Rightarrow> 0 \<le> s \<and> s \<le> MAX_MS)"

lemma in_window_on_start:
  assumes "in_window t" "START_MS \<le> x \<Longrightarrow> 0 \<le> ms \<and> ms \<le> MAX_MS"
  shows "in_window (on_start x ms c t)"
  using assms by (auto simp: on_start_def in_window_def Let_def MAX_MS_def)

lemma in_window_on_end:
  assumes "in_window t" "START_MS \<le> x \<Longrightarrow> 0 \<le> ms \<and> ms \<le> MAX_MS" "0 \<le> s" "s \<le> MAX_MS"
  shows "in_window (on_end x ms s c t)"
  using assms by (auto simp: on_end_def in_window_def Let_def)

lemma in_window_on_tick:
  "in_window t \<Longrightarrow> (w \<Longrightarrow> 0 \<le> ms \<and> ms \<le> MAX_MS) \<Longrightarrow> in_window (on_tick w ms e t)"
  by (auto simp: on_tick_def in_window_def)

lemma in_window_step:
  assumes t: "in_window t" and x: "x \<le> START_MS + MAX_MS"
  shows "in_window (build_step x l t)"
proof -
  have w: "0 \<le> rnd64 (x - START_MS) \<and> rnd64 (x - START_MS) \<le> MAX_MS" if "START_MS \<le> x"
    using that x by (rule window_ms)
  have s: "0 \<le> s \<and> s \<le> MAX_MS" if "active t = Some (s, c)" for s c
    using t that by (simp add: in_window_def)
  show ?thesis
    unfolding build_step_def Let_def using t x w s
    by (auto intro!: in_window_on_start in_window_on_end in_window_on_tick split: option.split)
qed

lemma in_window_loop: "in_window t \<Longrightarrow> in_window (build_loop start ls t)"
  by (induction ls arbitrary: t) (simp_all add: in_window_step not_less)

lemma in_window_empty: "in_window empty_timeline"
  by (simp add: in_window_def empty_timeline_def MAX_MS_def)

lemma build_in_window:
  "list_all (\<lambda>(s, d, _). 0 \<le> s \<and> s \<le> MAX_MS \<and> 0 < d \<and> d \<le> rnd64 (MAX_MS - s)) (fst (build_segments logs)) \<and>
   list_all (\<lambda>x. 0 \<le> x \<and> x \<le> MAX_MS) (snd (build_segments logs))"
  using in_window_loop [OF in_window_empty]
  by (auto simp: build_segments_def in_window_def Let_def split: list.split)

text \<open>
  Whatever the log, every segment starts inside the recorded window, lasts, and ends at
  most at its right edge, and every tick lies in the window.
\<close>

theorem segments_in_window:
  "list_all (\<lambda>(s, d, _). 0 \<le> s \<and> s \<le> MAX_MS \<and> 0 < d \<and> d \<le> rnd64 (MAX_MS - s)) (fst (build_segments logs)) \<and>
   list_all (\<lambda>x. 0 \<le> x \<and> x \<le> MAX_MS) (snd (build_segments logs))"
  by (rule build_in_window)

subsection \<open>Ticks in order\<close>

lemma to_ms_mono: "a \<le> b \<Longrightarrow> to_ms s a \<le> to_ms s b"
  unfolding to_ms_def by (intro rnd64_mono divide_right_mono) auto

lemma log_order_sorted: "sorted (map l_ts (log_order logs))"
proof -
  have "sorted (map (\<lambda>l. (l_ts l, if l_event l = ''S'' then 1 else 0 :: int)) (log_order logs))"
    unfolding log_order_def by (rule sorted_sort_key)
  then have "sorted_wrt (\<lambda>x y. l_ts x \<le> l_ts y) (log_order logs)"
    unfolding sorted_map by (rule sorted_wrt_mono_rel [rotated]) (auto simp: less_eq_prod_def)
  then show ?thesis by (simp add: sorted_map)
qed

definition ticks_until :: "rat \<Rightarrow> timeline \<Rightarrow> bool" where
  \<comment> \<open>the ticks so far are in order and none is later than the raw time \<open>x\<close>\<close>
  "ticks_until x t \<longleftrightarrow> sorted (ticks t) \<and> list_all (\<lambda>y. y \<le> rnd64 (x - START_MS)) (ticks t)"

lemma ticks_step:
  assumes "ticks_until x t" "x \<le> y"
  shows "ticks_until y (build_step y l t)"
proof -
  have m: "rnd64 (x - START_MS) \<le> rnd64 (y - START_MS)" using assms(2) by (intro rnd64_mono) simp
  have t: "ticks_until y t"
    using assms(1) m by (force simp: ticks_until_def list_all_iff)
  then have "ticks_until y (on_start a b c t)" "ticks_until y (on_end a b s c t)" for a b c s
    by (simp_all add: on_start_def on_end_def ticks_until_def Let_def)
  moreover have "ticks_until y (on_tick True (rnd64 (y - START_MS)) e t)"
    "ticks_until y (on_tick False z e t)" for e z
    using t by (auto simp: on_tick_def ticks_until_def list_all_iff sorted_append)
  ultimately show ?thesis
    unfolding build_step_def Let_def by (auto split: option.split)
qed

lemma ticks_loop:
  "ticks_until x t \<Longrightarrow> sorted (map l_ts ls) \<Longrightarrow> (\<forall>l \<in> set ls. x \<le> to_ms start (l_ts l)) \<Longrightarrow>
   sorted (ticks (build_loop start ls t))"
proof (induction ls arbitrary: t x)
  case Nil
  then show ?case by (simp add: ticks_until_def)
next
  case (Cons l ls)
  have "ticks_until (to_ms start (l_ts l)) (build_step (to_ms start (l_ts l)) l t)"
    using Cons.prems by (intro ticks_step) auto
  from Cons.IH [OF this] show ?case
    using Cons.prems to_ms_mono by (auto simp: ticks_until_def)
qed

text \<open>
  The ticks are recorded in the order of time, although the log need not be.
\<close>

theorem ticks_sorted: "sorted (snd (build_segments logs))"
proof (cases logs)
  case Nil
  then show ?thesis by (simp add: build_segments_def)
next
  case (Cons l0 rest)
  let ?ls = "log_order logs"
  define x where "x = (if ?ls = [] then 0 else to_ms (l_ts l0) (l_ts (hd ?ls)))"
  have "\<forall>l \<in> set ?ls. x \<le> to_ms (l_ts l0) (l_ts l)"
    using log_order_sorted [of logs] by (cases ?ls) (auto simp: x_def intro: to_ms_mono)
  moreover have "ticks_until x empty_timeline" by (simp add: ticks_until_def empty_timeline_def)
  ultimately have "sorted (ticks (build_loop (l_ts l0) ?ls empty_timeline))"
    using log_order_sorted by (intro ticks_loop)
  with Cons show ?thesis by (simp add: build_segments_def Let_def)
qed

subsection \<open>Runs one after the other\<close>

type_synonym run = "int \<times> int \<times> string"

definition run_logs :: "int \<Rightarrow> run \<Rightarrow> log list" where
  "run_logs tid r = (case r of (s, e, comm) \<Rightarrow>
     [\<lparr>l_ts = s, l_tid = tid, l_event = ''S'', l_comm = comm\<rparr>,
      \<lparr>l_ts = e, l_tid = tid, l_event = ''E'', l_comm = comm\<rparr>])"

fun runs_from :: "int \<Rightarrow> run list \<Rightarrow> bool" where
  \<comment> \<open>each run lasts, and starts when the previous one has ended\<close>
  "runs_from b [] = True"
| "runs_from b ((s, e, comm) # rs) = (b \<le> s \<and> s < e \<and> runs_from e rs)"

fun tiles :: "int \<Rightarrow> rat \<Rightarrow> run list \<Rightarrow> segment list" where
  \<comment> \<open>the bar from \<open>b\<close> on, without a gap: the other task, then the run, and so on\<close>
  "tiles start b [] = []"
| "tiles start b ((s, e, comm) # rs) =
     (let ms = to_ms start s; me = to_ms start e
      in (if b < ms then [(b, rnd64 (ms - b), ''other'')] else []) @
         (ms, rnd64 (me - ms), comm) # tiles start me rs)"

definition run_logs_of :: "(int \<times> run) list \<Rightarrow> log list" where
  \<comment> \<open>the log of the runs of several threads\<close>
  "run_logs_of rs = concat (map (\<lambda>(tid, r). run_logs tid r) rs)"

lemma run_logs_of_one: "concat (map (run_logs tid) rs) = run_logs_of (map (Pair tid) rs)"
  by (induction rs) (auto simp: run_logs_of_def)

lemma run_logs_of_Cons: "run_logs_of ((tid, r) # rs) = run_logs tid r @ run_logs_of rs"
  by (simp add: run_logs_of_def)

lemma run_logs_of_sorted:
  "runs_from b (map snd rs) \<Longrightarrow>
   sorted (map (\<lambda>l. (l_ts l, if l_event l = ''S'' then 1 else 0 :: int)) (run_logs_of rs)) \<and>
   (\<forall>l \<in> set (run_logs_of rs). b \<le> l_ts l \<and> (l_ts l = b \<longrightarrow> l_event l = ''S''))"
proof (induction rs arbitrary: b)
  case Nil
  then show ?case by (simp add: run_logs_of_def)
next
  case (Cons r rs)
  obtain tid s e c where r: "r = (tid, s, e, c)" by (cases r)
  from Cons.IH [of e] Cons.prems r show ?case
    by (auto simp: run_logs_of_Cons run_logs_def less_eq_prod_def) (force+)?
qed

lemma runs_log_order: "runs_from b (map snd rs) \<Longrightarrow> log_order (run_logs_of rs) = run_logs_of rs"
  unfolding log_order_def using run_logs_of_sorted by (intro sort_key_id_if_sorted) blast

lemma fold_run:
  "fold (draw_step start) (run_logs tid (s, e, c)) t =
     t\<lparr>segments := segments t @ tiles start (last_end_ms t) [(s, e, c)],
       last_end_ms := to_ms start e, active := None\<rparr>"
  by (simp add: run_logs_def draw_step_def Let_def)

lemma fold_runs:
  "segments (fold (draw_step start) (run_logs_of rs) t) =
     segments t @ tiles start (last_end_ms t) (map snd rs) \<and>
   ticks (fold (draw_step start) (run_logs_of rs) t) = ticks t"
proof (induction rs arbitrary: t)
  case Nil
  then show ?case by (simp add: run_logs_of_def)
next
  case (Cons r rs)
  obtain tid s e c where r: "r = (tid, s, e, c)" by (cases r)
  show ?case
    by (simp add: r run_logs_of_Cons fold_run Cons.IH Let_def)
qed

lemma runs_drawn:
  assumes "rs \<noteq> []" "runs_from (fst (snd (hd rs))) (map snd rs)" "log_order logs = run_logs_of rs"
    "logs \<noteq> []" "l_ts (hd logs) = fst (snd (hd rs))"
  shows "\<exists>t. draw_timeline logs = Some t \<and>
    segments t = tiles (fst (snd (hd rs))) 0 (map snd rs) \<and> ticks t = []"
  using assms(3,4,5) fold_runs [of "fst (snd (hd rs))" rs empty_timeline]
  by (cases logs) (simp_all add: draw_timeline_def empty_timeline_def)

text \<open>
  The timeline of a log in which runs follow one another, each a start and an end of one
  task, is the bar without gaps: the runs in order and between them the other task, each
  segment from the end of the one before, whatever the rounding of the milliseconds.
\<close>

theorem timeline_tiles:
  assumes "rs \<noteq> []" "runs_from (fst (hd rs)) rs"
  shows "\<exists>t. draw_timeline (concat (map (run_logs tid) rs)) = Some t \<and>
    segments t = tiles (fst (hd rs)) 0 rs \<and> ticks t = []"
proof -
  obtain s e c rs' where rs: "rs = (s, e, c) # rs'" using assms(1) by (cases rs) auto
  have "fst (snd (hd (map (Pair tid) rs))) = fst (hd rs)" "map snd (map (Pair tid) rs) = rs"
    by (simp_all add: rs comp_def)
  with runs_drawn [of "map (Pair tid) rs" "concat (map (run_logs tid) rs)"] runs_log_order [of _ "map (Pair tid) rs"]
  show ?thesis using assms by (simp add: run_logs_of_one) (simp add: rs run_logs_of_Cons run_logs_def)
qed

theorem timeline_tiles_witness:
  "\<exists>t. draw_timeline (concat (map (run_logs 7) [(0, 1000000, ''A''), (3000000, 4000000, ''B'')])) = Some t \<and>
    segments t = tiles 0 0 [(0, 1000000, ''A''), (3000000, 4000000, ''B'')] \<and> ticks t = []"
  using timeline_tiles [of "[(0, 1000000, ''A''), (3000000, 4000000, ''B'')]" 7] by simp

subsection \<open>The merged drawing\<close>

lemma draw_row_inside:
  "list_all (\<lambda>(s, d, _). 0 \<le> s) segs \<Longrightarrow>
   list_all (\<lambda>(s, d, _). 0 \<le> s \<and> s < x \<and> 0 < d \<and> d \<le> rnd64 (x - s)) (draw_row segs x)"
  by (induction segs) (auto simp: draw_row_def Let_def)

lemma right_edge_bounds: "1 \<le> right_edge a b \<and> right_edge a b \<le> MAX_MS"
  by (simp add: right_edge_def MAX_MS_def)

lemma sorted_ticks_shown: "sorted (ticks_shown ts x)"
  by (simp add: ticks_shown_def sorted_wrt_filter)

lemma intervals_nonneg: "sorted ts \<Longrightarrow> list_all (\<lambda>d. 0 \<le> d) (intervals ts)"
  by (auto simp: intervals_def list_all_iff intro!: r64.diff_nonneg sorted_nth_mono)

text \<open>
  In the merged drawing both rows and all ticks lie inside the common right edge, which
  is between 1 and the window's length, and no interval between ticks is negative.
\<close>

theorem merged_inside:
  "let d = draw_timeline_merged a b; x = x_limit d
   in 1 \<le> x \<and> x \<le> MAX_MS \<and>
      list_all (\<lambda>(s, w, _). 0 \<le> s \<and> s < x \<and> 0 < w \<and> w \<le> rnd64 (x - s)) (row_rt d @ row_pmu d) \<and>
      list_all (\<lambda>t. 0 \<le> t \<and> t < x) (ticks_rt_show d @ ticks_pmu_show d) \<and>
      list_all (\<lambda>w. 0 \<le> w) (intervals (ticks_rt_show d) @ intervals (ticks_pmu_show d))"
proof -
  have s: "list_all (\<lambda>(s, d, _). 0 \<le> s) (fst (build_segments l))" for l
    using build_in_window [of l] by (fastforce simp: list_all_iff)
  have t: "list_all (\<lambda>t. 0 \<le> t \<and> t < x) (ticks_shown (snd (build_segments l)) x)" for l x
    using build_in_window [of l] by (auto simp: list_all_iff ticks_shown_def)
  show ?thesis
    using draw_row_inside [OF s] t intervals_nonneg [OF sorted_ticks_shown] right_edge_bounds
    by (simp add: draw_timeline_merged_def Let_def case_prod_beta)
qed


subsection \<open>The lines of the monitor are read back\<close>

definition one_word :: "string \<Rightarrow> bool" where
  "one_word w \<longleftrightarrow> w \<noteq> [] \<and> list_all (\<lambda>c. \<not> is_space c) w"

lemma words_acc_word:
  "list_all (\<lambda>c. \<not> is_space c) w \<Longrightarrow>
   words_acc (w @ r) acc = words_acc r (rev w @ acc)"
  by (induction w arbitrary: acc) auto

lemma is_space_blank [simp]: "is_space (CHR '' '')"
  by (simp add: is_space_def code_def)

lemma split_ws_join: "list_all one_word ws \<Longrightarrow> split_ws (py_join '' '' ws) = ws"
proof -
  have "words_acc (py_join '' '' ws) [] = ws" if "list_all one_word ws"
    using that
  proof (induction "'' ''" ws rule: py_join.induct)
    case (2 w)
    then show ?case using words_acc_word [of w "[]" "[]"] by (simp add: one_word_def)
  next
    case (3 w v vs)
    then show ?case
      using words_acc_word [of w "'' '' @ py_join '' '' (v # vs)" "[]"] by (simp add: one_word_def)
  qed simp
  then show "list_all one_word ws \<Longrightarrow> ?thesis" by (simp add: split_ws_def)
qed

lemma strip_ends:
  assumes "xs \<noteq> []" "\<not> P (hd xs)" "\<not> P (last xs)"
  shows "strip_by P xs = xs"
proof -
  have "lstrip_by P xs = xs" using assms(1,2) by (cases xs) (auto simp: lstrip_by_def)
  moreover have "rstrip_by P xs = xs"
    using assms(1,3) by (cases xs rule: rev_cases) (auto simp: rstrip_by_def)
  ultimately show ?thesis by (simp add: strip_by_def)
qed

lemma show_int_no: "\<not> is_decimal c \<Longrightarrow> c \<noteq> CHR ''-'' \<Longrightarrow> c \<notin> set (show_int n)"
  using show_int_chars by blast

lemma one_word_show_int: "list_all (\<lambda>c. \<not> is_space c) (show_int n)"
  using show_int_chars is_decimal_not_space
  by (fastforce simp: list_all_iff is_space_def code_def)

lemma brackets_off: "strip_chars (''['' @ show_int ts @ '']'') ''[]'' = show_int ts"
proof -
  let ?P = "\<lambda>c. c \<in> set ''[]''"
  have b: "\<not> ?P c" if "c \<in> set (show_int ts)" for c
    using show_int_chars [OF that] by (auto simp: is_decimal_def)
  have n: "show_int ts \<noteq> []" by (simp add: show_int_def)
  have "lstrip_by ?P (''['' @ show_int ts @ '']'') = show_int ts @ '']''"
    using n b by (cases "show_int ts") (auto simp: lstrip_by_def)
  moreover have "rstrip_by ?P (show_int ts @ '']'') = show_int ts"
    using n b by (cases "show_int ts" rule: rev_cases) (auto simp: rstrip_by_def)
  ultimately show ?thesis by (simp add: strip_chars_def strip_by_def)
qed

lemma part_after_colon: "CHR '':'' \<notin> set a \<Longrightarrow> CHR '':'' \<notin> set b \<Longrightarrow> part (a @ '':'' @ b) '':'' 1 = Some b"
  using split_str_two [of "'':''" a b] by (simp add: part_def)

text \<open>
  A line the monitor prints for a context switch is read back by both plot scripts with
  its time, thread, type and task name, when the name is one word without a colon.
\<close>

theorem event_line_read_back:
  assumes comm: "one_word comm" "CHR '':'' \<notin> set comm" and ty: "\<not> is_space ty" "ty \<noteq> char_of (39 :: int)"
  shows "plot_parse_log_line (event_line ts pid tid ty comm) =
      Some (Some \<lparr>l_ts = ts, l_tid = tid, l_event = [ty], l_comm = comm\<rparr>) \<and>
    compare_parse_log_line (event_line ts pid tid ty comm) =
      Some (Some \<lparr>l_ts = ts, l_tid = tid, l_event = [ty], l_comm = comm\<rparr>)"
proof -
  let ?q = "char_of (39 :: int) :: char"
  let ?ws = "[''['' @ show_int ts @ '']'', ''PID:'' @ show_int pid, ''TID:'' @ show_int tid,
    ''EVENT:b'' @ ?q # ty # [?q], ''COMM:'' @ comm]"
  have line: "event_line ts pid tid ty comm = py_join '' '' ?ws"
    by (simp add: event_line_def apostrophe_def)
  have q: "\<not> is_space ?q" by code_simp
  have fixed: "list_all (\<lambda>c. \<not> is_space c) ''[]PIDTEVNb:COM''"
    by code_simp
  have words: "list_all one_word ?ws"
    using comm(1) ty(1) one_word_show_int q fixed by (simp add: one_word_def)
  have "py_strip (py_join '' '' ?ws) = py_join '' '' ?ws"
    unfolding py_strip_def using comm(1)
    by (intro strip_ends) (auto simp: one_word_def list_all_iff is_space_def code_def)
  then have split: "split_ws (py_strip (event_line ts pid tid ty comm)) = ?ws"
    unfolding line using split_ws_join [OF words] by simp
  have ev: "part (''EVENT:b'' @ ?q # ty # [?q]) apostrophe 1 = Some [ty]"
    using cut_at_fresh [of "[?q]" "''EVENT:b''" "ty # [?q]"] cut_at_fresh [of "[?q]" "[ty]" "[]"] ty(2)
    by (simp add: part_def apostrophe_def split_str.simps) code_simp
  have tid: "part (''TID:'' @ show_int tid) '':'' 1 = Some (show_int tid)"
    using part_after_colon [of "''TID''" "show_int tid"] show_int_no [of "CHR '':''" tid]
    by (simp add: is_decimal_def)
  have comm': "part (''COMM:'' @ comm) '':'' 1 = Some comm"
    using part_after_colon [of "''COMM''" comm] comm(2) by simp
  have "parse_parts ts ?ws = Some (Some \<lparr>l_ts = ts, l_tid = tid, l_event = [ty], l_comm = comm\<rparr>)"
    using ev tid comm' by (simp add: parse_parts_def)
  moreover have "str_in '']'' (''['' @ show_int ts @ '']'')"
    unfolding str_in_iff by (rule exI [of _ "''['' @ show_int ts"], rule exI [of _ "[]"]) simp
  ultimately show ?thesis
    unfolding plot_parse_log_line_def compare_parse_log_line_def split Let_def
    using brackets_off [of ts] by (simp_all)
qed

theorem event_line_read_back_witness:
  "plot_parse_log_line (event_line 123456 10 11 (CHR ''E'') ''task_cycle1'') =
     Some (Some \<lparr>l_ts = 123456, l_tid = 11, l_event = ''E'', l_comm = ''task_cycle1''\<rparr>)"
proof -
  have "one_word ''task_cycle1''" "CHR '':'' \<notin> set ''task_cycle1''" "\<not> is_space (CHR ''E'')"
    "CHR ''E'' \<noteq> char_of (39 :: int)"
    by code_simp+
  from event_line_read_back [OF this, of 123456 10 11] show ?thesis by blast
qed

end
