(* ===== verification/MonitorTrace.thy ===== *)
theory MonitorTrace
  imports Timeline "HOL-Library.Multiset"
begin

text \<open>
  The scheduling monitor (\<open>benchmark/thread_switch_ebpf/monitor_task.py\<close>) from the kernel's
  context switches to the picture: the two eBPF programs, one of which the script loads, the
  lines it prints, and, with the parsers and drawings of Timeline, what is plotted. Process
  identifiers, the clock and the batches of the perf buffer are arguments. The strings of the
  kernel's \<open>comm\<close> have at most 15 characters, so they are copied whole. The script has two
  threads that print; their lines come in any order that keeps those of each thread in order.
\<close>

subsection \<open>The probes\<close>










subsection \<open>The script\<close>










subsection \<open>A schedule and its runs\<close>








subsection \<open>The events are the runs\<close>










subsection \<open>The lines are the events\<close>









lemma those_Some: "those (map (Some \<circ> f) xs) = Some (map f xs)"
  by (induction xs) auto








subsection \<open>The lines of the other thread\<close>

definition is_tick :: "string \<Rightarrow> bool" where
  "is_tick data \<longleftrightarrow> str_in ''tick'' (py_lower (py_join '' '' (split_ws data)))"






lemma is_tick_empty [simp]: "\<not> is_tick []"
  by code_simp


subsection \<open>Both threads\<close>
















subsection \<open>The targets are entered in time\<close>












end
