(* ===== verification/Bench.thy ===== *)
theory Bench
  imports PyFloat Prelude
begin

text \<open>
  \<open>benchmark/xsched_hpf_shmm/run_bench.py\<close>: the environment and the command lines of the
  benchmark processes, the collection of their CSV output, the statistics and the report.
  What the processes wrote is an argument; how they are started, awaited and stopped is in
  BenchRun.
\<close>

subsection \<open>Environment and command lines\<close>

definition get_xsched_env :: "string \<Rightarrow> (string, string) pydict \<Rightarrow> string \<Rightarrow> (string, string) pydict" where
  \<comment> \<open>\<open>lib_path\<close> is the text of \<open>xsched_path / "lib"\<close>, \<open>environ\<close> a copy of the environment\<close>
  "get_xsched_env lib_path environ priority =
     fold (\<lambda>(k, v) env. AList.update k v env)
       [(''XSCHED_SCHEDULER'', ''GLB''), (''XSCHED_AUTO_XQUEUE'', ''ON''),
        (''XSCHED_AUTO_XQUEUE_LEVEL'', ''1''), (''XSCHED_AUTO_XQUEUE_THRESHOLD'', ''16''),
        (''XSCHED_AUTO_XQUEUE_BATCH_SIZE'', ''8''),
        (''XSCHED_AUTO_XQUEUE_PRIORITY'', if priority = ''high'' then ''255'' else ''0''),
        (''LD_LIBRARY_PATH'', lib_path @ '':'' @
           (case map_of environ ''LD_LIBRARY_PATH'' of None \<Rightarrow> [] | Some p \<Rightarrow> p))]
       environ"

definition bench_cmd :: "string \<Rightarrow> string \<Rightarrow> int \<Rightarrow> int \<Rightarrow> int \<Rightarrow> int \<Rightarrow> string list" where
  "bench_cmd app_path priority kernel_ms interval_ms iterations i =
     [app_path, ''--priority'', priority, ''--kernel-ms'', show_int kernel_ms,
      ''--interval-ms'', show_int interval_ms, ''--iterations'', show_int iterations,
      ''--id'', show_int i]"

record launch =
  la_label :: string
  la_id :: int
  la_cmd :: "string list"
  la_env :: "(string, string) pydict"

definition launches ::
    "string \<Rightarrow> (string, string) pydict \<Rightarrow> string \<Rightarrow> bool \<Rightarrow> nat \<Rightarrow> int \<times> int \<Rightarrow> int \<times> int \<Rightarrow> int \<Rightarrow> launch list" where
  \<comment> \<open>one high-priority process, then \<open>num_low\<close> low-priority ones\<close>
  "launches lib_path environ app_path use_xsched num_low high low iterations =
     (let env = (\<lambda>p. if use_xsched then get_xsched_env lib_path environ p else environ)
      in \<lparr>la_label = ''high'', la_id = 0,
          la_cmd = bench_cmd app_path ''high'' (fst high) (snd high) iterations 0,
          la_env = env ''high''\<rparr> #
         map (\<lambda>i. \<lparr>la_label = ''low'', la_id = int i,
            la_cmd = bench_cmd app_path ''low'' (fst low) (snd low) iterations (int i),
            la_env = env ''low''\<rparr>) [1..<num_low + 1])"

subsection \<open>Collecting the results\<close>

type_synonym times = "pyfloat list \<times> pyfloat list"

definition parse_row :: "string \<Rightarrow> string \<Rightarrow> times \<Rightarrow> times" where
  "parse_row label line acc =
     (let l = py_strip line; parts = split_str l '',''
      in if l = [] \<or> startswith l ''proc_id'' then acc
         else if length parts < 5 then acc
         else case py_float (parts ! 3) of
                None \<Rightarrow> acc
              | Some km \<Rightarrow>
                  (let pri = py_lower (py_strip (parts ! 1))
                   in if pri = ''high'' then (fst acc @ [km], snd acc)
                      else if pri = ''low'' then (fst acc, snd acc @ [km])
                      else if label = ''high'' then (fst acc @ [km], snd acc)
                      else (fst acc, snd acc @ [km])))"

datatype read_end = Whole | Read_error | Decode_error
  \<comment> \<open>how the reading of a file ends: at its end, by an \<open>OSError\<close> (also of \<open>open\<close>), or by a
    \<open>UnicodeDecodeError\<close>\<close>

type_synonym out_file = "string \<times> string list \<times> read_end" \<comment> \<open>its label and the lines read\<close>

fun collect_from :: "out_file list \<Rightarrow> times \<Rightarrow> times option" where
  "collect_from [] acc = Some acc"
| "collect_from ((label, lines, ending) # files) acc =
     (let acc = fold (parse_row label) lines acc
      in if ending = Decode_error then None else collect_from files acc)"

definition collect :: "out_file list \<Rightarrow> times option" where
  \<comment> \<open>\<open>None\<close>: the \<open>UnicodeDecodeError\<close>, which nothing catches; what was read of a file before an
    \<open>OSError\<close> counts\<close>
  "collect files = collect_from files ([], [])"

subsection \<open>Statistics\<close>

record summary =
  s_count :: nat
  s_mean :: rat
  s_p50 :: rat
  s_p99 :: rat
  s_min :: rat
  s_max :: rat

definition p99_index :: "nat \<Rightarrow> nat" where
  \<comment> \<open>\<open>int(n * 0.99)\<close>\<close>
  "p99_index n = nat \<lfloor>rnd64 (of_nat n * rnd64 (99 / 100))\<rfloor>"

definition stats :: "(rat list \<Rightarrow> rat) \<Rightarrow> rat list \<Rightarrow> summary option option" where
  \<comment> \<open>for finite times; \<open>None\<close> is an \<open>IndexError\<close>, \<open>Some None\<close> the empty dictionary. \<open>fsum\<close> is
    the built-in \<open>sum\<close>, whose rounding differs between versions of Python.\<close>
  "stats fsum data =
     (let s = sort data; n = length s
      in if data = [] then Some None
         else do {
           p50 \<leftarrow> nth_opt s (n div 2);
           p99 \<leftarrow> nth_opt s (if 1 < n then p99_index n else 0);
           lo \<leftarrow> nth_opt s 0;
           hi \<leftarrow> last_opt s;
           Some (Some \<lparr>s_count = n, s_mean = rnd64 (fsum s / of_nat n), s_p50 = p50, s_p99 = p99,
                       s_min = lo, s_max = hi\<rparr>)
         })"

definition f2 :: "rat \<Rightarrow> string" where
  "f2 x = format_fixed 2 (Fin x)"

definition summary_lines :: "string \<Rightarrow> summary option \<Rightarrow> string list" where
  "summary_lines title h = (case h of
     None \<Rightarrow> []
   | Some s \<Rightarrow>
       [CHR 0x0A # ''--- '' @ title @ ''-priority kernel latency (ms) ---'',
        ''  count='' @ show_int (int (s_count s)) @ '', mean='' @ f2 (s_mean s) @
          '', p50='' @ f2 (s_p50 s) @ '', p99='' @ f2 (s_p99 s),
        ''  min='' @ f2 (s_min s) @ '', max='' @ f2 (s_max s)])"

definition report :: "bool \<Rightarrow> int \<Rightarrow> int \<Rightarrow> int \<Rightarrow> summary option \<Rightarrow> summary option \<Rightarrow> string list" where
  "report use_xsched num_low high_interval low_interval hs ls =
     [CHR 0x0A # ''=== HPF-shmem Benchmark ('' @
        (if use_xsched then ''XSched HPF-shmem'' else ''No XSched (baseline)'') @ '') ==='' @ [CHR 0x0A],
      ''High-priority processes: 1'',
      ''Low-priority processes: '' @ show_int num_low,
      ''Metric: kernel_ms = one launch + cudaStreamSynchronize (not sleep). Intervals: high='' @
        show_int high_interval @ ''ms, low='' @ show_int low_interval @ ''ms.''] @
     summary_lines ''High'' hs @ summary_lines ''Low'' ls @ [[]]"

subsection \<open>Facts\<close>

lemma rnd64_099: "rnd64 (99 / 100) = 8917127262193582 / 9007199254740992"
  by (simp add: py_eval)

lemma p99_index_bounds:
  assumes "1 < n" "n \<le> 2 ^ 46"
  shows "n div 2 \<le> p99_index n \<and> p99_index n < n"
proof -
  let ?c = "8917127262193582 / 9007199254740992 :: rat"
  let ?x = "rnd64 (of_nat n * ?c)"
  let ?y = "of_nat n - 1 / 128 :: rat"
  have idx: "p99_index n = nat \<lfloor>?x\<rfloor>" by (simp only: p99_index_def rnd64_099)
  have "?y = of_int (128 * int n - 1) * pow2 (- 7)" by (simp add: pow2_def field_simps)
  moreover have "\<bar>128 * int n - 1\<bar> \<le> 2 ^ 53" using assms by simp
  ultimately have "representable ?y"
    unfolding representable_def by (intro exI [of _ "128 * int n - 1"] exI [of _ "- 7"] conjI) simp_all
  then have "rnd64 ?y = ?y" by (rule rnd64_representable)
  moreover have "?x \<le> rnd64 ?y" using assms(1) by (intro rnd64_mono) simp
  ultimately have "?x < of_nat n" by simp
  then have "\<lfloor>?x\<rfloor> < int n" by (simp add: floor_less_iff)
  then have upper: "p99_index n < n" using assms(1) by (simp add: idx nat_less_iff)
  have "of_nat (2 * (n div 2)) \<le> (of_nat n :: rat)" unfolding of_nat_le_iff by simp
  then have "rnd64 (of_int (int (n div 2))) \<le> ?x"
    by (intro rnd64_mono) simp
  moreover have "rnd64 (of_int (int (n div 2))) = of_int (int (n div 2))"
    using assms(2) by (intro rnd64_of_int) simp
  ultimately have "int (n div 2) \<le> \<lfloor>?x\<rfloor>" by (simp add: le_floor_iff)
  then have "n div 2 \<le> p99_index n" by (simp add: idx nat_le_iff)
  with upper show ?thesis by blast
qed

text \<open>
  C38: the statistics of 1 to \<open>2 ^ 46\<close> finite times exist (no index is out of range, for all the
  rounding of \<open>n * 0.99\<close>) and count every time; the median, the 99th percentile and the two
  extremes are among the times and in order, and the extremes are the least and the greatest.
\<close>

theorem stats_ordered:
  assumes "data \<noteq> []" "length data \<le> 2 ^ 46"
  shows "\<exists>r. stats fsum data = Some (Some r) \<and> s_count r = length data \<and>
    {s_min r, s_p50 r, s_p99 r, s_max r} \<subseteq> set data \<and>
    s_min r \<le> s_p50 r \<and> s_p50 r \<le> s_p99 r \<and> s_p99 r \<le> s_max r \<and>
    s_min r = Min (set data) \<and> s_max r = Max (set data)"
proof -
  let ?s = "sort data" and ?n = "length data"
  define i where "i = (if 1 < ?n then p99_index ?n else 0)"
  have n: "0 < ?n" using assms(1) by simp
  have i: "?n div 2 \<le> i" "i < ?n"
    using n p99_index_bounds [of ?n] assms(2) by (auto simp: i_def)
  have s: "sorted ?s" "length ?s = ?n" "set ?s = set data" "?s \<noteq> []"
    using assms(1) by (simp_all, metis length_0_conv length_sort)
  have last: "last ?s = ?s ! (?n - 1)" using s by (simp add: last_conv_nth)
  have mono: "?s ! a \<le> ?s ! b" if "a \<le> b" "b < ?n" for a b
    using that s by (intro sorted_nth_mono) simp_all
  have mem: "?s ! a \<in> set data" if "a < ?n" for a
    using that s nth_mem by metis
  have nth: "\<exists>a < ?n. x = ?s ! a" if "x \<in> set data" for x
    using that s by (metis in_set_conv_nth)
  have lo: "Min (set data) = ?s ! 0"
    using n mem mono [of 0] nth by (intro Min_eqI) (fastforce, fastforce, blast)
  have hi: "Max (set data) = ?s ! (?n - 1)"
    using n mem [of "?n - 1"] mono [of _ "?n - 1"] nth by (intro Max_eqI) (fastforce, fastforce, auto)
  have "stats fsum data = Some (Some \<lparr>s_count = ?n, s_mean = rnd64 (fsum ?s / of_nat ?n),
      s_p50 = ?s ! (?n div 2), s_p99 = ?s ! i, s_min = ?s ! 0, s_max = ?s ! (?n - 1)\<rparr>)"
    unfolding stats_def Let_def s(2) i_def [symmetric]
    using assms(1) n i s(2,4) last by (simp add: nth_opt_def last_opt_def)
  then show ?thesis
    using lo hi mem mono i n by (auto intro!: exI)
qed

theorem stats_ordered_witness:
  "\<exists>r. stats sum_list [3, 1, 2] = Some (Some r) \<and> s_count r = length [3, 1, 2 :: rat] \<and>
    {s_min r, s_p50 r, s_p99 r, s_max r} \<subseteq> set [3, 1, 2] \<and>
    s_min r \<le> s_p50 r \<and> s_p50 r \<le> s_p99 r \<and> s_p99 r \<le> s_max r \<and>
    s_min r = Min (set [3, 1, 2]) \<and> s_max r = Max (set [3, 1, 2])"
  using stats_ordered [of "[3, 1, 2]" sum_list] by simp

definition data_row :: "string \<Rightarrow> string \<Rightarrow> (bool \<times> pyfloat) list" where
  \<comment> \<open>what a line contributes: its time, and whether it counts for the high-priority process;
    the column decides, and the label of the file where the column is neither\<close>
  "data_row label line =
     (let l = py_strip line; parts = split_str l '','';
          pri = py_lower (py_strip (parts ! 1))
      in if l = [] \<or> startswith l ''proc_id'' \<or> length parts < 5 then []
         else case py_float (parts ! 3) of
                None \<Rightarrow> []
              | Some km \<Rightarrow> [(pri = ''high'' \<or> pri \<noteq> ''low'' \<and> label = ''high'', km)])"

definition data_rows :: "out_file list \<Rightarrow> (bool \<times> pyfloat) list" where
  "data_rows files = concat (map (\<lambda>(label, lines, ending). concat (map (data_row label) lines)) files)"

definition split_times :: "(bool \<times> pyfloat) list \<Rightarrow> times" where
  "split_times rows = (map snd (filter fst rows), map snd (filter (\<lambda>r. \<not> fst r) rows))"

lemma parse_row_data:
  "parse_row label line (split_times rows) = split_times (rows @ data_row label line)"
  by (auto simp: parse_row_def data_row_def split_times_def Let_def split: option.split)

lemma parse_rows_data:
  "fold (parse_row label) lines (split_times rows) =
   split_times (rows @ concat (map (data_row label) lines))"
  by (induction lines arbitrary: rows) (simp_all add: parse_row_data)

text \<open>
  Unless a file cannot be decoded, which is an exception, every data row that was read is
  counted once, in order, on the side its priority column says; header lines, short rows and
  rows without a number are skipped.
\<close>

theorem collect_rows:
  "collect files =
     (if \<exists>(label, lines, ending) \<in> set files. ending = Decode_error then None else Some (split_times (data_rows files)))"
proof -
  have "collect_from files (split_times rows) =
    (if \<exists>(label, lines, ending) \<in> set files. ending = Decode_error then None
     else Some (split_times (rows @ data_rows files)))" for rows
    by (induction files arbitrary: rows) (auto simp: data_rows_def parse_rows_data Let_def)
  from this [of "[]"] show ?thesis by (simp add: collect_def split_times_def)
qed

theorem collect_rows_witness:
  "collect [(''high'', [''0,low,1,2.5,x''], Decode_error)] = None"
  using collect_rows [of "[(''high'', [''0,low,1,2.5,x''], Decode_error)]"] by simp

text \<open>
  The environment of a scheduled process differs from the parent's in the seven variables
  of the scheduler only, its queue priority is the highest exactly for the high-priority
  process, and the library path is put in front of the inherited one.
\<close>

theorem xsched_env_lookup:
  "map_of (get_xsched_env lib_path environ priority) k =
     (if k = ''XSCHED_SCHEDULER'' then Some ''GLB''
      else if k = ''XSCHED_AUTO_XQUEUE'' then Some ''ON''
      else if k = ''XSCHED_AUTO_XQUEUE_LEVEL'' then Some ''1''
      else if k = ''XSCHED_AUTO_XQUEUE_THRESHOLD'' then Some ''16''
      else if k = ''XSCHED_AUTO_XQUEUE_BATCH_SIZE'' then Some ''8''
      else if k = ''XSCHED_AUTO_XQUEUE_PRIORITY''
        then Some (if priority = ''high'' then ''255'' else ''0'')
      else if k = ''LD_LIBRARY_PATH''
        then Some (lib_path @ '':'' @ (case map_of environ ''LD_LIBRARY_PATH'' of None \<Rightarrow> [] | Some p \<Rightarrow> p))
      else map_of environ k)"
  by (simp add: get_xsched_env_def update_conv)

end
