(* ===== verification/BenchRun.thy ===== *)
theory BenchRun
  imports Bench
begin

text \<open>
  The processes of \<open>benchmark/xsched_hpf_shmm/run_bench.py\<close>: how they are started, awaited and
  stopped, and the program around them. The clock, the process table and what the processes write
  are the system's: the functions of the record \<open>bench_os\<close> on a world \<open>'w\<close>. The duration
  given is a finite number. The list \<open>calls\<close> records what the program did with each process.
\<close>

subsection \<open>The system\<close>

datatype pcall = Started nat | Polled nat bool | Slept rat | Terminated nat | Killed nat

record 'w bench_os =
  bo_time :: "'w \<Rightarrow> rat \<times> 'w"
  bo_mkstemp :: "launch \<Rightarrow> 'w \<Rightarrow> bool \<times> 'w" \<comment> \<open>\<open>tempfile.mkstemp\<close>, unless it raises\<close>
  bo_fdopen :: "launch \<Rightarrow> 'w \<Rightarrow> bool \<times> 'w"
  bo_popen :: "launch \<Rightarrow> 'w \<Rightarrow> bool \<times> 'w"
  bo_poll :: "nat \<Rightarrow> 'w \<Rightarrow> bool \<times> 'w"
  bo_sleep :: "rat \<Rightarrow> 'w \<Rightarrow> 'w"
  bo_terminate :: "nat \<Rightarrow> 'w \<Rightarrow> 'w"
  bo_kill :: "nat \<Rightarrow> 'w \<Rightarrow> 'w"
  bo_files :: "'w \<Rightarrow> out_file list"

record 'w bench =
  bworld :: 'w
  calls :: "pcall list"

definition now_b :: "'w bench_os \<Rightarrow> 'w bench \<Rightarrow> rat \<times> 'w bench" where
  "now_b os s = (let (t, w) = bo_time os (bworld s) in (t, s\<lparr>bworld := w\<rparr>))"

definition poll :: "'w bench_os \<Rightarrow> nat \<Rightarrow> 'w bench \<Rightarrow> bool \<times> 'w bench" where
  \<comment> \<open>\<open>p.poll() is not None\<close>\<close>
  "poll os i s = (let (ended, w) = bo_poll os i (bworld s)
     in (ended, s\<lparr>bworld := w, calls := calls s @ [Polled i ended]\<rparr>))"

definition sleep_b :: "'w bench_os \<Rightarrow> rat \<Rightarrow> 'w bench \<Rightarrow> 'w bench" where
  "sleep_b os d s = s\<lparr>bworld := bo_sleep os d (bworld s), calls := calls s @ [Slept d]\<rparr>"

definition terminate_p :: "'w bench_os \<Rightarrow> nat \<Rightarrow> 'w bench \<Rightarrow> 'w bench" where
  "terminate_p os i s = s\<lparr>bworld := bo_terminate os i (bworld s), calls := calls s @ [Terminated i]\<rparr>"

definition kill_p :: "'w bench_os \<Rightarrow> nat \<Rightarrow> 'w bench \<Rightarrow> 'w bench" where
  "kill_p os i s = s\<lparr>bworld := bo_kill os i (bworld s), calls := calls s @ [Killed i]\<rparr>"

subsection \<open>Start, wait, stop\<close>

definition start_one :: "'w bench_os \<Rightarrow> nat \<Rightarrow> launch \<Rightarrow> 'w bench \<Rightarrow> bool \<times> 'w bench" where
  \<comment> \<open>\<open>False\<close>: \<open>mkstemp\<close>, \<open>os.fdopen\<close> or \<open>Popen\<close> raises\<close>
  "start_one os i l s =
     (let (made, w) = bo_mkstemp os l (bworld s)
      in if \<not> made then (False, s\<lparr>bworld := w\<rparr>)
         else let (opened, w) = bo_fdopen os l w
      in if \<not> opened then (False, s\<lparr>bworld := w\<rparr>)
         else let (ok, w) = bo_popen os l w
      in if \<not> ok then (False, s\<lparr>bworld := w\<rparr>)
         else (True, s\<lparr>bworld := w, calls := calls s @ [Started i]\<rparr>))"

fun start_all :: "'w bench_os \<Rightarrow> nat \<Rightarrow> launch list \<Rightarrow> 'w bench \<Rightarrow> bool \<times> 'w bench" where
  \<comment> \<open>\<open>False\<close>: one start raises, and nothing of \<open>run_bench\<close> catches it\<close>
  "start_all os i [] s = (True, s)"
| "start_all os i (l # ls) s =
     (let (ok, s1) = start_one os i l s in if ok then start_all os (Suc i) ls s1 else (False, s1))"

fun all_ended :: "'w bench_os \<Rightarrow> nat list \<Rightarrow> 'w bench \<Rightarrow> bool \<times> 'w bench" where
  \<comment> \<open>\<open>all(...)\<close> stops at the first process that runs\<close>
  "all_ended os [] s = (True, s)"
| "all_ended os (i # is) s =
     (let (ended, s1) = poll os i s in if ended then all_ended os is s1 else (False, s1))"

partial_function (option) wait_loop ::
    "'w bench_os \<Rightarrow> nat list \<Rightarrow> rat \<Rightarrow> rat \<Rightarrow> 'w bench \<Rightarrow> (bool \<times> 'w bench) option" where
  \<comment> \<open>\<open>True\<close>: left by \<open>break\<close>\<close>
  "wait_loop os ps duration start s =
     (let (t, s1) = now_b os s
      in if rnd64 (t - start) < duration
         then (let (done_all, s2) = all_ended os ps s1
               in if done_all then Some (True, s2)
                  else wait_loop os ps duration start (sleep_b os (1 / 2) s2))
         else Some (False, s1))"

fun signal_running ::
    "('w bench_os \<Rightarrow> nat \<Rightarrow> 'w bench \<Rightarrow> 'w bench) \<Rightarrow> 'w bench_os \<Rightarrow> nat list \<Rightarrow> 'w bench \<Rightarrow> 'w bench" where
  "signal_running sig os [] s = s"
| "signal_running sig os (i # is) s =
     (let (ended, s1) = poll os i s in signal_running sig os is (if ended then s1 else sig os i s1))"

definition stop_all :: "'w bench_os \<Rightarrow> nat list \<Rightarrow> 'w bench \<Rightarrow> 'w bench" where
  \<comment> \<open>the \<open>else\<close> of the loop\<close>
  "stop_all os ps s =
     signal_running kill_p os ps (sleep_b os 1 (signal_running terminate_p os ps s))"

definition await_procs :: "'w bench_os \<Rightarrow> nat list \<Rightarrow> rat \<Rightarrow> 'w bench \<Rightarrow> 'w bench option" where
  "await_procs os ps duration s =
     (let (start, s1) = now_b os s
      in map_option (\<lambda>(broken, s2). if broken then s2 else stop_all os ps s2)
           (wait_loop os ps duration start s1))"

datatype bench_result = Start_raised | Decode_raised | Times times
  \<comment> \<open>an exception of a start or of the reading of a file, or what is returned\<close>

definition collected :: "out_file list \<Rightarrow> bench_result" where
  "collected files = (case collect files of None \<Rightarrow> Decode_raised | Some ts \<Rightarrow> Times ts)"

definition run_bench ::
    "'w bench_os \<Rightarrow> launch list \<Rightarrow> rat \<Rightarrow> 'w bench \<Rightarrow> (bench_result \<times> 'w bench) option" where
  "run_bench os ls duration s =
     (let (ok, s1) = start_all os 0 ls s
      in if ok then map_option (\<lambda>s2. (collected (bo_files os (bworld s2)), s2))
                      (await_procs os [0..<length ls] duration s1)
         else Some (Start_raised, s1))"

subsection \<open>The program\<close>

record options =
  o_duration :: rat
  o_num_low :: nat
  o_no_xsched :: bool
  o_iterations :: int
  o_high_kernel_ms :: int
  o_low_kernel_ms :: int
  o_high_interval_ms :: int
  o_low_interval_ms :: int
  o_build :: bool

definition default_options :: options where
  "default_options = \<lparr>o_duration = 60, o_num_low = 16, o_no_xsched = False, o_iterations = 2000,
     o_high_kernel_ms = 1, o_low_kernel_ms = 4, o_high_interval_ms = 50, o_low_interval_ms = 200,
     o_build = False\<rparr>"

datatype outcome = MakeFailed | AppMissing | Built | StartFailed | DecodeFailed | Reported "string list" | NotCovered

definition finite_times :: "pyfloat list \<Rightarrow> rat list option" where
  "finite_times ts = those (map (\<lambda>t. case t of Fin x \<Rightarrow> Some x | _ \<Rightarrow> None) ts)"

definition report_of :: "(rat list \<Rightarrow> rat) \<Rightarrow> options \<Rightarrow> times \<Rightarrow> outcome" where
  \<comment> \<open>\<open>NotCovered\<close>: a file holds an infinite time or a NaN, which \<^const>\<open>stats\<close> does not treat\<close>
  "report_of fsum opts ts =
     (case do { hs \<leftarrow> finite_times (fst ts); ls \<leftarrow> finite_times (snd ts);
                h \<leftarrow> stats fsum hs; l \<leftarrow> stats fsum ls;
                Some (report (\<not> o_no_xsched opts) (int (o_num_low opts))
                  (o_high_interval_ms opts) (o_low_interval_ms opts) h l) } of
        None \<Rightarrow> NotCovered
      | Some lines \<Rightarrow> Reported lines)"

definition bench_main ::
    "(rat list \<Rightarrow> rat) \<Rightarrow> 'w bench_os \<Rightarrow> string \<Rightarrow> (string, string) pydict \<Rightarrow> string \<Rightarrow> bool \<Rightarrow> bool \<Rightarrow>
     options \<Rightarrow> 'w bench \<Rightarrow> (outcome \<times> 'w bench) option" where
  \<comment> \<open>\<open>made\<close>: \<open>make\<close> ends with status 0; \<open>app_exists\<close>: the program is there afterwards\<close>
  "bench_main fsum os lib_path environ app_path made app_exists opts s =
     (if \<not> made then Some (MakeFailed, s)
      else if \<not> app_exists then Some (AppMissing, s)
      else if o_build opts then Some (Built, s)
      else map_option (\<lambda>(r, s1). (case r of Start_raised \<Rightarrow> StartFailed | Decode_raised \<Rightarrow> DecodeFailed
            | Times ts \<Rightarrow> report_of fsum opts ts, s1))
        (run_bench os
          (launches lib_path environ app_path (\<not> o_no_xsched opts) (o_num_low opts)
            (o_high_kernel_ms opts, o_high_interval_ms opts)
            (o_low_kernel_ms opts, o_low_interval_ms opts) (o_iterations opts))
          (o_duration opts) s))"

subsection \<open>The clock\<close>

text \<open>
  What the loop relies on: the clock never goes back, \<open>time.sleep(d)\<close> takes at least \<open>d\<close> seconds,
  and \<open>time.time()\<close> is the float nearest to the clock.
\<close>

definition clock_ok :: "('w \<Rightarrow> rat) \<Rightarrow> 'w bench_os \<Rightarrow> bool" where
  "clock_ok clock os \<longleftrightarrow>
     (\<forall>w. fst (bo_time os w) = rnd64 (clock w) \<and> clock w \<le> clock (snd (bo_time os w))) \<and>
     (\<forall>w i. clock w \<le> clock (snd (bo_poll os i w))) \<and>
     (\<forall>w d. 0 \<le> d \<longrightarrow> clock w + d \<le> clock (bo_sleep os d w))"

lemma fits_pow2: "fits_format 52 (- 1074) (2 ^ k)"
  unfolding fits_format_def by (rule exI [of _ 1], rule exI [of _ "int k"]) (simp add: pow2_int)

lemma rnd64_pow2: "rnd64 (2 ^ k) = 2 ^ k"
  using rnd64_representable representable_fits fits_pow2 by blast

lemma rat_le_pow2: "\<exists>k. (x :: rat) \<le> 2 ^ k"
proof -
  have "x \<le> of_nat (nat \<lceil>x\<rceil>)" by linarith
  then obtain n :: nat where "x \<le> of_nat n" by blast
  moreover have "(of_nat n :: rat) \<le> 2 ^ n"
    using less_exp [of n] by (metis less_imp_le of_nat_le_iff of_nat_numeral of_nat_power)
  ultimately show ?thesis by (meson order_trans)
qed

lemma deadline: "\<exists>e. \<forall>x \<ge> e. duration \<le> rnd64 (rnd64 x - start)"
proof -
  obtain k where k: "duration \<le> 2 ^ k" using rat_le_pow2 by blast
  obtain m where m: "start + 2 ^ k \<le> (2 :: rat) ^ m" using rat_le_pow2 by blast
  have "duration \<le> rnd64 (rnd64 x - start)" if "2 ^ m \<le> x" for x
  proof -
    have "2 ^ m \<le> rnd64 x" using rnd64_mono [OF that] by (simp add: rnd64_pow2)
    then have "2 ^ k \<le> rnd64 x - start" using m by linarith
    from rnd64_mono [OF this] k show ?thesis by (simp add: rnd64_pow2)
  qed
  then show ?thesis by blast
qed

lemma clock_all_ended: "clock_ok clock os \<Longrightarrow> clock (bworld s) \<le> clock (bworld (snd (all_ended os ps s)))"
proof (induction ps arbitrary: s)
  case (Cons i ps)
  have "clock (bworld s) \<le> clock (bworld (snd (poll os i s)))"
    using Cons.prems by (simp add: clock_ok_def poll_def case_prod_beta)
  with Cons.IH [OF Cons.prems, of "snd (poll os i s)"] show ?case
    by (auto simp: case_prod_beta Let_def)
qed simp

lemma clock_round:
  assumes "clock_ok clock os"
  shows "clock (bworld s) + 1 / 2 \<le>
    clock (bworld (sleep_b os (1 / 2) (snd (all_ended os ps (snd (now_b os s))))))"
proof -
  have "clock (bworld s) \<le> clock (bworld (snd (now_b os s)))"
    using assms by (simp add: clock_ok_def now_b_def case_prod_beta)
  also have "\<dots> \<le> clock (bworld (snd (all_ended os ps (snd (now_b os s)))))"
    by (rule clock_all_ended [OF assms])
  finally have f: "clock (bworld s) \<le> clock (bworld (snd (all_ended os ps (snd (now_b os s)))))" .
  have "clock w + 1 / 2 \<le> clock (bo_sleep os (1 / 2) w)" for w
    using assms by (simp add: clock_ok_def)
  from this [of "bworld (snd (all_ended os ps (snd (now_b os s))))"] f show ?thesis
    by (simp add: sleep_b_def)
qed

subsection \<open>What happens to the processes\<close>

fun signals_ok :: "pcall option \<Rightarrow> pcall list \<Rightarrow> bool" where
  \<comment> \<open>a process is signalled only right after a poll that found it running\<close>
  "signals_ok p [] = True"
| "signals_ok p (c # cs) \<longleftrightarrow>
     (case c of Terminated i \<Rightarrow> p = Some (Polled i False) | Killed i \<Rightarrow> p = Some (Polled i False)
      | _ \<Rightarrow> True) \<and> signals_ok (Some c) cs"

lemma signals_ok_append:
  "signals_ok p (a @ b) \<longleftrightarrow> signals_ok p a \<and> signals_ok (if a = [] then p else Some (last a)) b"
  by (induction a arbitrary: p) auto

definition settled :: "nat \<Rightarrow> 'w bench \<Rightarrow> bool" where
  \<comment> \<open>it was found ended, or it was killed\<close>
  "settled i s \<longleftrightarrow> Polled i True \<in> set (calls s) \<or> Killed i \<in> set (calls s)"

lemma start_all_calls:
  "start_all os k ls s = (ok, s') \<Longrightarrow>
   \<exists>n. calls s' = calls s @ map Started [k..<k + n] \<and> (if ok then n = length ls else n < length ls)"
proof (induction os k ls s rule: start_all.induct)
  case (1 os i s)
  then show ?case by auto
next
  case (2 os i l ls s)
  obtain b s1 where b: "start_one os i l s = (b, s1)" by fastforce
  then have c: "calls s1 = calls s @ (if b then [Started i] else [])"
    by (auto simp: start_one_def Let_def split: prod.splits if_splits)
  show ?case
  proof (cases b)
    case True
    with "2.prems" b have "start_all os (Suc i) ls s1 = (ok, s')" by simp
    from "2.IH" [OF b [symmetric] refl True this] obtain n where
      n: "calls s' = calls s @ Started i # map Started [Suc i..<Suc i + n]"
        "if ok then n = length ls else n < length ls" using c True by auto
    have "Started i # map Started [Suc i..<Suc i + n] = map Started [i..<i + Suc n]"
      by (simp add: upt_rec [of i])
    with n show ?thesis by (intro exI [of _ "Suc n"]) auto
  next
    case False
    with "2.prems" b c show ?thesis by (intro exI [of _ 0]) auto
  qed
qed

lemma all_ended_calls:
  "all_ended os ps s = (d, s') \<Longrightarrow> set (calls s) \<subseteq> set (calls s') \<and>
   (signals_ok None (calls s) \<longrightarrow> signals_ok None (calls s')) \<and>
   (d \<longrightarrow> (\<forall>i \<in> set ps. Polled i True \<in> set (calls s')))"
proof (induction ps arbitrary: s)
  case (Cons i ps)
  obtain e s1 where p: "poll os i s = (e, s1)" by fastforce
  then have c: "calls s1 = calls s @ [Polled i e]" by (auto simp: poll_def split: prod.splits)
  show ?case
    using Cons.prems Cons.IH [of s1] p c by (auto simp: signals_ok_append split: if_splits)
qed simp

definition calls_grow :: "'w bench \<Rightarrow> 'w bench \<Rightarrow> bool" where
  "calls_grow s s' \<longleftrightarrow> set (calls s) \<subseteq> set (calls s') \<and> (signals_ok None (calls s) \<longrightarrow> signals_ok None (calls s'))"

lemma calls_grow_trans: "calls_grow s s1 \<Longrightarrow> calls_grow s1 s' \<Longrightarrow> calls_grow s s'"
  by (auto simp: calls_grow_def)

lemma wait_round:
  "wait_loop os ps duration start s =
     (let r = all_ended os ps (snd (now_b os s))
      in if rnd64 (fst (now_b os s) - start) < duration
         then (if fst r then Some (True, snd r) else wait_loop os ps duration start (sleep_b os (1 / 2) (snd r)))
         else Some (False, snd (now_b os s)))"
  by (subst wait_loop.simps) (simp add: case_prod_beta Let_def)

lemma calls_now_b [simp]: "calls (snd (now_b os s)) = calls s"
  by (simp add: now_b_def case_prod_beta)

lemma calls_sleep_b: "calls_grow s (sleep_b os d s)"
  by (auto simp: calls_grow_def sleep_b_def signals_ok_append)

lemma calls_all_ended: "calls_grow s (snd (all_ended os ps (snd (now_b os s))))"
  using all_ended_calls [of os ps "snd (now_b os s)"] by (simp add: calls_grow_def prod_eq_iff)

lemma wait_loop_returns:
  assumes "clock_ok clock os"
  shows "\<exists>d s'. wait_loop os ps duration start s = Some (d, s') \<and> calls_grow s s' \<and>
    (d \<longrightarrow> (\<forall>i \<in> set ps. Polled i True \<in> set (calls s')))"
proof -
  obtain e where e: "\<And>x. e \<le> x \<Longrightarrow> duration \<le> rnd64 (rnd64 x - start)" using deadline by blast
  have bounded: "\<exists>d s'. wait_loop os ps duration start s = Some (d, s') \<and> calls_grow s s' \<and>
      (d \<longrightarrow> (\<forall>i \<in> set ps. Polled i True \<in> set (calls s')))"
    if "e \<le> clock (bworld s) + of_nat n / 2" for n s
    using that
  proof (induction n arbitrary: s)
    case 0
    then have "\<not> rnd64 (fst (now_b os s) - start) < duration"
      using e assms by (simp add: clock_ok_def now_b_def case_prod_beta not_less)
    then have "wait_loop os ps duration start s = Some (False, snd (now_b os s))"
      by (subst wait_round) simp
    then show ?case by (auto simp: calls_grow_def)
  next
    case (Suc n)
    let ?r = "all_ended os ps (snd (now_b os s))"
    let ?s = "sleep_b os (1 / 2) (snd ?r)"
    have "e \<le> clock (bworld ?s) + of_nat n / 2"
      using Suc.prems clock_round [OF assms, of s ps] by (simp add: field_simps)
    from Suc.IH [OF this] obtain d s' where nxt: "wait_loop os ps duration start ?s = Some (d, s')"
      "calls_grow ?s s'" "d \<longrightarrow> (\<forall>i \<in> set ps. Polled i True \<in> set (calls s'))" by blast
    have g: "calls_grow s (snd ?r)" by (rule calls_all_ended)
    have ended: "fst ?r \<longrightarrow> (\<forall>i \<in> set ps. Polled i True \<in> set (calls (snd ?r)))"
      using all_ended_calls [of os ps "snd (now_b os s)" "fst ?r" "snd ?r"] by simp
    consider "\<not> rnd64 (fst (now_b os s) - start) < duration"
      | "rnd64 (fst (now_b os s) - start) < duration" "fst ?r"
      | "rnd64 (fst (now_b os s) - start) < duration" "\<not> fst ?r" by blast
    then show ?case
    proof cases
      case 1
      then have "wait_loop os ps duration start s = Some (False, snd (now_b os s))"
        by (subst wait_round) simp
      then show ?thesis by (auto simp: calls_grow_def)
    next
      case 2
      then have "wait_loop os ps duration start s = Some (True, snd ?r)"
        by (subst wait_round) (simp add: Let_def)
      then show ?thesis using g ended 2 by auto
    next
      case 3
      then have "wait_loop os ps duration start s = Some (d, s')"
        using nxt(1) by (subst wait_round) (simp add: Let_def)
      then show ?thesis using nxt g calls_sleep_b calls_grow_trans by blast
    qed
  qed
  have "2 * (e - clock (bworld s)) \<le> of_nat (nat \<lceil>2 * (e - clock (bworld s))\<rceil>)" by linarith
  then show ?thesis by (intro bounded [of _ "nat \<lceil>2 * (e - clock (bworld s))\<rceil>"]) (simp add: field_simps)
qed

lemma signal_running_calls:
  assumes sig: "\<And>i s. calls (sig os i s) = calls s @ [c i]" "\<And>i. c i = Terminated i \<or> c i = Killed i"
  shows "calls_grow s (signal_running sig os ps s) \<and>
    (\<forall>i \<in> set ps. Polled i True \<in> set (calls (signal_running sig os ps s)) \<or>
                c i \<in> set (calls (signal_running sig os ps s)))"
proof (induction ps arbitrary: s)
  case Nil
  then show ?case by (simp add: calls_grow_def)
next
  case (Cons i ps)
  obtain e s1 where p: "poll os i s = (e, s1)" by fastforce
  then have c: "calls s1 = calls s @ [Polled i e]" by (auto simp: poll_def split: prod.splits)
  define s2 where "s2 = (if e then s1 else sig os i s1)"
  have "calls_grow s s2" "Polled i True \<in> set (calls s2) \<or> c i \<in> set (calls s2)"
    using c sig(1) [of i s1] sig(2) [of i] by (auto simp: s2_def calls_grow_def signals_ok_append)
  with Cons.IH [of s2] p show ?case
    by (auto simp: s2_def [symmetric] calls_grow_def)
qed

lemma stop_all_settles: "calls_grow s (stop_all os ps s) \<and> (\<forall>i \<in> set ps. settled i (stop_all os ps s))"
proof -
  let ?t = "signal_running terminate_p os ps s"
  have "calls_grow s ?t"
    using signal_running_calls [of terminate_p os Terminated s ps] by (simp add: terminate_p_def)
  moreover have "calls_grow ?t (sleep_b os 1 ?t)" by (rule calls_sleep_b)
  moreover have "calls_grow (sleep_b os 1 ?t) (stop_all os ps s) \<and>
      (\<forall>i \<in> set ps. settled i (stop_all os ps s))"
    unfolding stop_all_def using signal_running_calls [of kill_p os Killed "sleep_b os 1 ?t" ps] by (simp add: kill_p_def settled_def)
  ultimately show ?thesis
    using calls_grow_trans by meson
qed

lemma await_procs_settles:
  assumes "clock_ok clock os"
  shows "\<exists>s'. await_procs os ps duration s = Some s' \<and> calls_grow s s' \<and> (\<forall>i \<in> set ps. settled i s')"
proof -
  obtain start s1 where n: "now_b os s = (start, s1)" by fastforce
  then have c: "calls s1 = calls s" using calls_now_b [of os s] by simp
  obtain d s2 where w: "wait_loop os ps duration start s1 = Some (d, s2)" "calls_grow s1 s2"
    "d \<longrightarrow> (\<forall>i \<in> set ps. Polled i True \<in> set (calls s2))"
    using wait_loop_returns [OF assms] by blast
  have g: "calls_grow s s2" using w(2) c by (simp add: calls_grow_def)
  show ?thesis
  proof (cases d)
    case True
    with n w g show ?thesis by (simp add: await_procs_def settled_def)
  next
    case False
    with n w(1) have "await_procs os ps duration s = Some (stop_all os ps s2)" by (simp add: await_procs_def)
    then show ?thesis using stop_all_settles [of s2 os ps] calls_grow_trans [OF g] by blast
  qed
qed

lemma failed_start_calls:
  assumes "start_all os 0 ls \<lparr>bworld = w, calls = []\<rparr> = (False, s1)"
  shows "run_bench os ls duration \<lparr>bworld = w, calls = []\<rparr> = Some (Start_raised, s1) \<and>
    (\<exists>n < length ls. calls s1 = map Started [0..<n])"
  using start_all_calls [OF assms] assms by (auto simp: run_bench_def)

lemma started_signals_ok: "signals_ok p (map Started ns)"
  by (induction ns arbitrary: p) auto

lemma collected_result: "collected files \<noteq> Start_raised"
  by (simp add: collected_def split: option.split)

text \<open>
  C29: with a clock that does not go back, the benchmark always comes to an end, whatever the
  processes do and the system answers, and a process is signalled only right after a poll that
  found it running (so no signal can reach a process that took over the identifier of an ended
  one). Either all processes were started: then each was found ended or was killed, and the
  result is that of collecting the files, which is an exception when one cannot be decoded. Or
  a start raised (for want of a file or of a process): then the exception leaves the function at
  once, and the processes started before it are neither awaited nor signalled.
\<close>

theorem bench_ends:
  assumes "clock_ok clock os"
  shows "\<exists>r s'. run_bench os ls duration \<lparr>bworld = w, calls = []\<rparr> = Some (r, s') \<and> signals_ok None (calls s') \<and>
    (if fst (start_all os 0 ls \<lparr>bworld = w, calls = []\<rparr>)
     then (\<forall>i < length ls. Started i \<in> set (calls s') \<and> settled i s') \<and> r = collected (bo_files os (bworld s'))
     else r = Start_raised \<and> (\<exists>n < length ls. calls s' = map Started [0..<n]))"
proof (cases "fst (start_all os 0 ls \<lparr>bworld = w, calls = []\<rparr>)")
  case True
  then obtain s1 where s: "start_all os 0 ls \<lparr>bworld = w, calls = []\<rparr> = (True, s1)"
    by (cases "start_all os 0 ls \<lparr>bworld = w, calls = []\<rparr>") auto
  from start_all_calls [OF this] have c: "calls s1 = map Started [0..<length ls]" by auto
  then have "signals_ok None (calls s1)" by (simp add: started_signals_ok)
  moreover obtain s' where "await_procs os [0..<length ls] duration s1 = Some s'" "calls_grow s1 s'"
    "\<forall>i \<in> set [0..<length ls]. settled i s'" using await_procs_settles [OF assms] by blast
  ultimately show ?thesis
    using s c True by (auto simp: run_bench_def calls_grow_def)
next
  case False
  then obtain s1 where s: "start_all os 0 ls \<lparr>bworld = w, calls = []\<rparr> = (False, s1)"
    by (cases "start_all os 0 ls \<lparr>bworld = w, calls = []\<rparr>") auto
  from failed_start_calls [OF this, of duration] show ?thesis
    using False started_signals_ok by auto
qed

definition clock_os :: "rat bench_os" where
  \<comment> \<open>processes that never end; the clock stands still but in \<open>sleep\<close>; a file for one whose
    identifier is above 1 cannot be made\<close>
  "clock_os = \<lparr>bo_time = (\<lambda>w. (rnd64 w, w)), bo_mkstemp = (\<lambda>l w. (la_id l \<le> 1, w)),
     bo_fdopen = (\<lambda>l w. (True, w)), bo_popen = (\<lambda>l w. (True, w)), bo_poll = (\<lambda>i w. (False, w)),
     bo_sleep = (\<lambda>d w. w + d), bo_terminate = (\<lambda>i w. w), bo_kill = (\<lambda>i w. w), bo_files = (\<lambda>w. [])\<rparr>"

lemma clock_os_starts:
  "fst (start_all clock_os n ls s) \<longleftrightarrow> list_all (\<lambda>l. la_id l \<le> 1) ls"
  by (induction clock_os n ls s rule: start_all.induct) (simp_all add: start_one_def clock_os_def)

theorem bench_ends_witness:
  "(\<exists>s'. run_bench clock_os (launches ''lib'' [] ''app'' True 1 (1, 50) (4, 200) 2000) 60 \<lparr>bworld = 0, calls = []\<rparr> =
      Some (Times ([], []), s') \<and> settled 0 s' \<and> settled 1 s' \<and> signals_ok None (calls s')) \<and>
   (\<exists>s'. run_bench clock_os (launches ''lib'' [] ''app'' True 2 (1, 50) (4, 200) 2000) 60 \<lparr>bworld = 0, calls = []\<rparr> =
      Some (Start_raised, s'))"
proof -
  let ?l = "\<lambda>n. launches ''lib'' [] ''app'' True n (1, 50) (4, 200) 2000"
  have "clock_ok id clock_os" by (simp add: clock_ok_def clock_os_def)
  moreover have l: "length (?l 1) = 2" by (simp add: launches_def Let_def)
  moreover have "list_all (\<lambda>l. la_id l \<le> 1) (?l 1)" "\<not> list_all (\<lambda>l. la_id l \<le> 1) (?l 2)"
    by (simp_all add: launches_def Let_def upt_rec)
  moreover have "collected (bo_files clock_os w) = Times ([], [])" for w
    by (simp add: clock_os_def collect_def collected_def)
  ultimately show ?thesis
    using bench_ends [of id clock_os "?l 1" 60 0] bench_ends [of id clock_os "?l 2" 60 0]
    by (auto simp: clock_os_starts)
qed

end
