(* ===== verification/Spec2Isabelle.thy ===== *)
theory Spec2Isabelle
  imports Requests ThreadHooks LoadSampler DaemonMain WholeSystem CpuOutput MonitorTrace BenchRun
begin

text \<open>
  Roboflex: a verification development.

  The program. Roboflex throttles the threads of a robot's processes. A library
  (\<open>src/robflex_api.c\<close>, \<open>src/dym_hook.c\<close>) is loaded into each process; a hardware counter sends
  the thread a signal every so many instructions, a tick, and the handler sleeps, yields or
  waits according to the thread's context (policy, time slice, latency demand) or to the
  context attached to the active event of the highest level. A daemon (\<open>src/server.c\<close>)
  receives commands as JSON datagrams, changes scheduling parameters, sends new-cost signals
  and raises events in a shared memory that the handlers read. Programs talk to the daemon
  through the library in C, through its Python binding (\<open>src/python/pmu_tick_api.py\<close>) or
  through a stand-alone Python client (\<open>src/python/robflex_api.py\<close>). Benchmarks and tools come
  with it.

  The theories, in the order they build on one another.

  Prelude, PyStr, PyFloat, Json: results with exceptions, dictionaries, Python's strings and
  floats, \<open>json.dumps\<close>. CTypes: layouts of C types, machine integers, conversions to and from
  \<open>double\<close>, \<open>strtoull\<close>.

  SharedData: event names and event bits (\<open>inc/robflex_event.h\<close>, \<open>inc/robflex_def.h\<close>).
  EventTable: the table of event contexts (\<open>inc/robflex_def.h\<close>); it refines a finite map with
  eight places, by the interpretation of the locale \<open>bounded_map\<close>.

  TickHandler, LatencyTick: the tick (\<open>src/dym_hook.c\<close>): the record \<open>lib\<close> is a thread's state,
  \<open>handle_tick\<close> the handler, \<open>platform\<close> the calls into the system. A tick serves the active
  context of the highest level, keeps budgets within five slices and changes nothing else of
  any context, and waits for a latency target as computed, wrap-around included. What ticks
  may change at all is pinned by \<open>control\<close>: it holds the flags and every context without the
  one cell that ticks account in (\<open>lasting\<close>).

  CApi, CApiFacts, CApiTable, CApiSafety, CApiCalls: the functions of \<open>src/robflex_api.c\<close> on a thread's
  own context and on events, one definition per function with its name. Ticks arrive
  between statements: the field \<open>arrivals\<close> says how many come before each next statement, and
  all theorems hold for every such schedule. A critical section is shown to be atomic,
  \<open>drain\<close>, the loop that serves deferred ticks, to end, and every sequence of calls to
  return with the thread outside its critical section and nothing pending (\<open>calm\<close>). The table
  of event contexts is changed store by store outside critical sections: CApiTable shows
  that ticks in between change nothing of it but the cells they account in, CApiCalls which
  context they may serve.

  CSender: the daemon's client in C and the new-cost signal. Config: the configuration file
  (\<open>src/robflex_config.c\<close>): what an accepted file leaves in the thread's own context and in
  its table, that well-formed files are accepted, and that a refused one is half applied.

  ThreadSetup: how a thread is taken under control and released (\<open>src/dym_hook.c\<close>): the
  record \<open>thread\<close> is the library's state with the counter's descriptor. It joins the theories
  above: a thread that is set up, makes any valid API calls under any ticks and is cleaned up
  returns, calm and with its counter closed (unless the counter's descriptor is 0). ThreadHooks: the functions that replace
  \<open>pthread_create\<close> and \<open>clone\<close>, with the arguments they pass on (and the flags for which these
  are the right ones), and a handler that nothing calls.

  PmuDecl, PmuTickApi, PmuFacts, PmuCalls: the Python binding: the declarations given to
  cffi against those of the headers, the search for the library, every wrapper (\<open>pmu_\<close> before
  the part of its name after \<open>robflex_\<close>) with the conversions of its arguments, and the
  module's demonstration. \<open>py_exec\<close> runs any wrapper; \<open>py_raises\<close> and \<open>py_defined\<close> say, from
  the arguments alone, what it does.

  LoadMonitor: the daemon's background threads (\<open>src/server.c\<close>): \<open>monitor_round\<close> samples
  \<open>/proc/stat\<close> and publishes load and busy degree, with every rounding of \<open>float\<close>;
  \<open>waker_round\<close> wakes waiting threads on an idle processor. DaemonMain: the daemon's \<open>main\<close>, which
  starts them, serves and stops; \<open>host\<close> holds the system's answers to its steps, those of the
  stop (\<open>unlink\<close>, \<open>kill\<close>, \<open>waitpid\<close>) included.
  LoadSampler: the stand-alone \<open>proc_stat.c\<close>, shown to compute the daemon's loads.

  RobflexClient: the stand-alone Python client. Daemon: the daemon's requests. EventControl:
  the interactive event tool, which reads lines or is interrupted. Protocol: client and daemon together. Requests: the binding
  and the stand-alone client send the same requests. WholeSystem: from the commands sent to
  the context that a tick serves, and from a cost command to the thread's slice.

  CpuText, CpuParse, CpuHost, CpuContract, CpuId, CpuSources, CpuInfo: the CPU information
  module of the benchmarks (\<open>cpuinfo.py\<close>): its sources and their merge, where the locale of
  CpuContract states what a source promises. CpuJson, CpuOutput: its command line and the way
  of its result through a child process, after the check at the module's import. Timeline,
  MonitorTrace: the scheduling monitor, from the kernel's context switches through the lines
  of its two threads, in any order (\<open>shuffles\<close>), to the plots. Bench, BenchRun: the benchmark
  runner, its processes, the failures of starting them and of reading their files, and its
  report.

  Conventions. \<open>None\<close> in a model of C code is undefined behaviour; statuses are the code's own
  integers; Python's exceptions are \<open>Inl\<close>. 64-bit and 32-bit fields are words, signed ones
  read by \<open>sint\<close>; signed overflow wraps, as the compiled code does. Socket, clock, futex,
  thread id, \<open>perf_event_open\<close> and signals, cJSON, \<open>dlopen\<close> and the formatting of Python
  objects are parameters; what a property relies on of them is a named hypothesis
  (\<open>cjson_ok\<close>, \<open>prints_json\<close>, \<open>files_in_range\<close>), with a concrete instance in its witness.

  Bounds and fuel. \<open>drain\<close> is a \<open>partial_function\<close> and is proved to return from every ready
  state; so is \<open>wait_loop\<close> of the benchmark runner, from the law that the clock does not go back
  and a sleep takes its time (\<open>clock_ok\<close>). \<open>demo_rounds\<close> takes the number of turns of the endless
  demonstration loop, and the rounds of the monitor and the sampler take a list of samples; their
  properties hold for every number. The decoder of Json has as fuel the length of its text.

  Not modelled. Ticks inside a statement, each of which is one update of the state (a whole
  structure is copied by one); a tick that interrupts the handling of another one (in the
  signal handler the signal is blocked, but not while a thread serves its deferred ticks on
  leaving a critical section). The child's side of the daemon's \<open>fork\<close>, which only
  starts another program. An interrupt of the event tool while it carries out a line, or of the
  monitor; lines of the monitor's two threads that are torn apart. \<open>khash.h\<close>, third-party, and the version of the event table over it, which
  no build file selects. Of \<open>cpuinfo.py\<close>
  the trace log and the execution of machine code. Example
  workloads around third-party libraries.
\<close>

end
